(* ===== verification/Prelude.thy ===== *)
theory Prelude
  imports Main
begin

text \<open>
  Shared vocabulary of the development.

  The program keeps its state in PostgreSQL tables and runs SQL statements on them.
  A table is a list of rows; this theory has the three statement shapes the code uses
  (a keyed look-up, \<open>UPDATE ... WHERE\<close> with its row count, \<open>SELECT ... WHERE\<close>), their
  laws for tables whose key column is unique, the sequencing of operations that can raise,
  and two small interfaces: transition systems with an inductive invariant, and background
  jobs that work a queue off in batches.
\<close>

named_theorems sql_simps \<open>laws of the statement shapes\<close>

section \<open>Operations that raise\<close>

text \<open>An operation that may raise an exception returns \<open>Inl\<close> the exception or \<open>Inr\<close> its result.\<close>

definition bindE :: "'e + 'a \<Rightarrow> ('a \<Rightarrow> 'e + 'b) \<Rightarrow> 'e + 'b" where
  "bindE m f = (case m of Inl e \<Rightarrow> Inl e | Inr x \<Rightarrow> f x)"

lemma bindE_simps [simp]:
  "bindE (Inl e) f = Inl e"
  "bindE (Inr x) f = f x"
  by (simp_all add: bindE_def)

lemma bindE_eq_Inr_iff: "bindE m f = Inr y \<longleftrightarrow> (\<exists>x. m = Inr x \<and> f x = Inr y)"
  by (cases m) simp_all

lemma bindE_eq_Inl_iff: "bindE m f = Inl e \<longleftrightarrow> m = Inl e \<or> (\<exists>x. m = Inr x \<and> f x = Inl e)"
  by (cases m) simp_all

text \<open>A loop over a list that stops at the first exception.\<close>

fun forE :: "('a \<Rightarrow> 'e + unit) \<Rightarrow> 'a list \<Rightarrow> 'e + unit" where
  "forE f [] = Inr ()"
| "forE f (x # xs) = bindE (f x) (\<lambda>_. forE f xs)"

lemma forE_eq_Inr_iff: "forE f xs = Inr u \<longleftrightarrow> (\<forall>x \<in> set xs. f x = Inr ())"
  by (induction xs) (auto simp: bindE_eq_Inr_iff)

section \<open>Statements on tables\<close>

definition by_key :: "('r \<Rightarrow> 'k) \<Rightarrow> 'k \<Rightarrow> 'r list \<Rightarrow> 'r option" where
  "by_key key k rs = find (\<lambda>r. key r = k) rs"

definition upd_where :: "('r \<Rightarrow> bool) \<Rightarrow> ('r \<Rightarrow> 'r) \<Rightarrow> 'r list \<Rightarrow> 'r list" where
  "upd_where P f rs = map (\<lambda>r. if P r then f r else r) rs"

definition rowcount :: "('r \<Rightarrow> bool) \<Rightarrow> 'r list \<Rightarrow> nat" where
  "rowcount P rs = length (filter P rs)"

lemma by_key_Nil [simp]: "by_key key k [] = None"
  by (simp add: by_key_def)

lemma by_key_Cons [simp]: "by_key key k (r # rs) = (if key r = k then Some r else by_key key k rs)"
  by (simp add: by_key_def)

lemma by_key_SomeD: "by_key key k rs = Some r \<Longrightarrow> r \<in> set rs \<and> key r = k"
  by (induction rs) (auto split: if_splits)

lemma by_key_None_iff: "by_key key k rs = None \<longleftrightarrow> k \<notin> key ` set rs"
  by (induction rs) auto

lemma by_key_not_None_iff: "by_key key k rs \<noteq> None \<longleftrightarrow> k \<in> key ` set rs"
  by (simp add: by_key_None_iff)

lemma by_key_in_table:
  "distinct (map key rs) \<Longrightarrow> r \<in> set rs \<Longrightarrow> by_key key (key r) rs = Some r"
  by (induction rs) (auto simp: rev_image_eqI)

lemma by_key_iff:
  "distinct (map key rs) \<Longrightarrow> by_key key k rs = Some r \<longleftrightarrow> r \<in> set rs \<and> key r = k"
  using by_key_SomeD [of key k rs r] by_key_in_table [of key rs r] by blast

lemma by_key_append [simp]:
  "by_key key k (rs @ ss) = (case by_key key k rs of None \<Rightarrow> by_key key k ss | Some r \<Rightarrow> Some r)"
  by (induction rs) auto

lemma keyed_unique:
  "distinct (map key rs) \<Longrightarrow> r \<in> set rs \<Longrightarrow> s \<in> set rs \<Longrightarrow> key r = key s \<Longrightarrow> r = s"
  by (metis by_key_in_table option.inject)

lemma length_upd_where [simp]: "length (upd_where P f rs) = length rs"
  by (simp add: upd_where_def)

lemma upd_where_Nil [simp]: "upd_where P f [] = []"
  by (simp add: upd_where_def)

lemma upd_where_Cons [simp]:
  "upd_where P f (r # rs) = (if P r then f r else r) # upd_where P f rs"
  by (simp add: upd_where_def)

lemma upd_where_append: "upd_where P f (rs @ ss) = upd_where P f rs @ upd_where P f ss"
  by (simp add: upd_where_def)

lemma set_upd_where: "set (upd_where P f rs) = (\<lambda>r. if P r then f r else r) ` set rs"
  by (simp add: upd_where_def)

lemma upd_where_none: "\<forall>r \<in> set rs. \<not> P r \<Longrightarrow> upd_where P f rs = rs"
  by (induction rs) auto

lemma upd_where_cong:
  "(\<And>r. r \<in> set rs \<Longrightarrow> P r = Q r) \<Longrightarrow> (\<And>r. r \<in> set rs \<Longrightarrow> Q r \<Longrightarrow> f r = g r) \<Longrightarrow>
   upd_where P f rs = upd_where Q g rs"
  by (induction rs) auto

lemma map_upd_where: "(\<And>r. g (f r) = g r) \<Longrightarrow> map g (upd_where P f rs) = map g rs"
  by (induction rs) auto

lemma by_key_upd_where:
  "(\<And>r. key (f r) = key r) \<Longrightarrow>
   by_key key k (upd_where P f rs) = map_option (\<lambda>r. if P r then f r else r) (by_key key k rs)"
  by (induction rs) auto

lemma upd_where_upd_where_same:
  "(\<And>r. P r \<Longrightarrow> P (f r)) \<Longrightarrow>
   upd_where P g (upd_where P f rs) = upd_where P (\<lambda>r. g (f r)) rs"
  by (induction rs) auto

lemma filter_upd_where: "(\<And>r. P r \<Longrightarrow> P (f r)) \<Longrightarrow> filter P (upd_where P f rs) = map f (filter P rs)"
  by (induction rs) auto

lemma rowcount_Nil [simp]: "rowcount P [] = 0"
  by (simp add: rowcount_def)

lemma rowcount_Cons [simp]: "rowcount P (r # rs) = (if P r then Suc (rowcount P rs) else rowcount P rs)"
  by (simp add: rowcount_def)

lemma rowcount_append [simp]: "rowcount P (rs @ ss) = rowcount P rs + rowcount P ss"
  by (simp add: rowcount_def)

lemma rowcount_0_iff: "rowcount P rs = 0 \<longleftrightarrow> (\<forall>r \<in> set rs. \<not> P r)"
  by (simp add: rowcount_def filter_empty_conv)

lemma rowcount_upd_where:
  assumes "\<And>r. P r \<Longrightarrow> \<not> Q (f r)"
  shows "rowcount Q (upd_where P f rs) = rowcount Q rs - rowcount (\<lambda>r. P r \<and> Q r) rs"
proof -
  have "rowcount (\<lambda>r. P r \<and> Q r) rs \<le> rowcount Q rs" for rs
    by (induction rs) auto
  then show ?thesis using assms by (induction rs) (auto simp: Suc_diff_le)
qed

lemma rowcount_le_length: "rowcount P rs \<le> length rs"
  by (simp add: rowcount_def)

lemma distinct_map_filter_key: "distinct (map key rs) \<Longrightarrow> distinct (map key (filter P rs))"
  by (rule distinct_map_filter)

text \<open>
  The row count of \<open>UPDATE ... WHERE key IN (ks) AND P\<close> equals the number of listed keys
  exactly when no key is listed twice and every listed key has a row that satisfies \<open>P\<close>:
  the test every multi-row write of the program makes.
\<close>

lemma rowcount_in_card:
  assumes "distinct (map key rs)"
  shows "rowcount (\<lambda>r. key r \<in> K \<and> P r) rs = card {k \<in> K. \<exists>r \<in> set rs. key r = k \<and> P r}"
proof -
  let ?S = "filter (\<lambda>r. key r \<in> K \<and> P r) rs"
  have "distinct (map key ?S)"
    using assms by (rule distinct_map_filter)
  then have "length ?S = card (set (map key ?S))"
    using distinct_card [of "map key ?S"] by simp
  also have "set (map key ?S) = {k \<in> K. \<exists>r \<in> set rs. key r = k \<and> P r}"
    by auto
  finally show ?thesis by (simp add: rowcount_def)
qed

lemma rowcount_in_full_iff:
  assumes "distinct (map key rs)"
  shows "rowcount (\<lambda>r. key r \<in> set ks \<and> P r) rs = length ks \<longleftrightarrow>
    distinct ks \<and> (\<forall>k \<in> set ks. \<exists>r \<in> set rs. key r = k \<and> P r)" (is "?L \<longleftrightarrow> ?R")
proof -
  let ?M = "{k \<in> set ks. \<exists>r \<in> set rs. key r = k \<and> P r}"
  have sub: "?M \<subseteq> set ks" by auto
  have cnt: "rowcount (\<lambda>r. key r \<in> set ks \<and> P r) rs = card ?M"
    using assms by (rule rowcount_in_card)
  show ?thesis
  proof
    assume ?L
    with cnt have c: "card ?M = length ks" by simp
    have le: "card ?M \<le> card (set ks)"
      using sub by (intro card_mono) simp_all
    with c card_length [of ks] have "card (set ks) = length ks" by simp
    then have "distinct ks" by (rule card_distinct)
    moreover have "?M = set ks"
      using c card_length [of ks] sub by (intro card_seteq) simp_all
    ultimately show ?R by blast
  next
    assume R: ?R
    then have "?M = set ks" by auto
    with R cnt show ?L by (simp add: distinct_card)
  qed
qed

lemma by_key_all_iff:
  "distinct (map key rs) \<Longrightarrow>
   (\<exists>r \<in> set rs. key r = k \<and> P r) \<longleftrightarrow> (\<exists>r. by_key key k rs = Some r \<and> P r)"
  by (auto simp: by_key_iff)

section \<open>Transition systems with an invariant\<close>

text \<open>
  The program's state machines are step relations. What every step keeps, every state that
  can be reached has: the argument is made once, here.
\<close>

locale transition_system =
  fixes init :: "'s \<Rightarrow> bool"
    and step :: "'s \<Rightarrow> 's \<Rightarrow> bool"
    and inv :: "'s \<Rightarrow> bool"
  assumes init_inv: "init s \<Longrightarrow> inv s"
    and step_inv: "step s t \<Longrightarrow> inv s \<Longrightarrow> inv t"
begin

lemma steps_inv: "step\<^sup>*\<^sup>* s t \<Longrightarrow> inv s \<Longrightarrow> inv t"
  by (induction rule: rtranclp_induct) (auto intro: step_inv)

lemma reachable_inv: "init s \<Longrightarrow> step\<^sup>*\<^sup>* s t \<Longrightarrow> inv t"
  using steps_inv init_inv by blast

end

section \<open>Background jobs\<close>

text \<open>
  A background job works a backlog off in passes of at most \<open>batch\<close> items. If a pass takes
  \<open>min batch backlog\<close> items off, then enough passes empty the backlog, and \<open>n\<close> items need
  no more than \<open>n div batch + 1\<close> passes.
\<close>

locale batch_job =
  fixes pass :: "'s \<Rightarrow> 's"
    and backlog :: "'s \<Rightarrow> nat"
    and batch :: nat
    and ok :: "'s \<Rightarrow> bool"
  assumes pass_backlog: "ok s \<Longrightarrow> backlog (pass s) = backlog s - batch"
    and pass_ok: "ok s \<Longrightarrow> ok (pass s)"
begin

lemma passes: "ok s \<Longrightarrow> ok ((pass ^^ k) s) \<and> backlog ((pass ^^ k) s) = backlog s - k * batch"
  by (induction k) (auto simp: pass_backlog pass_ok)

lemma drained:
  assumes "ok s" and "backlog s \<le> k * batch"
  shows "backlog ((pass ^^ k) s) = 0"
  using assms passes by simp

lemma drained_div:
  assumes "ok s" and "0 < batch"
  shows "backlog ((pass ^^ (backlog s div batch + 1)) s) = 0"
proof -
  have "backlog s \<le> (backlog s div batch + 1) * batch"
    using assms(2) by (metis Suc_eq_plus1 dividend_less_div_times less_imp_le mult.commute mult_Suc_right)
  with assms(1) show ?thesis by (rule drained)
qed

end

end
