(* ===== verification/Models.thy ===== *)
theory Models
  imports Prelude
begin

text \<open>
  \<^verbatim>\<open>app/domain/models.py\<close> and \<^verbatim>\<open>app/domain/errors.py\<close>: the two aggregates (seat and booking),
  their status enums, the exceptions of the domain layer, and the rule that every timestamp
  is timezone-aware.

  Instants are integers, microseconds on the UTC time line. A Python \<open>datetime\<close> is either
  naive or aware; comparing one with the other raises \<open>TypeError\<close>, and adding a
  \<open>timedelta\<close> (an integer number of microseconds) keeps the kind. Decimal amounts are in
  hundredths, the unit of the \<open>NUMERIC(12, 2)\<close> column they come from.
\<close>

type_synonym instant = int
type_synonym timedelta = int
type_synonym session_id = string

datatype datetime = Naive instant | Aware instant

datatype seat_status = AVAILABLE | HELD | BOOKED

datatype booking_status = PENDING | CONFIRMED | CANCELLED | REFUNDED | REFUND_REQUIRED

text \<open>
  The exceptions. \<open>ValueError\<close> and \<open>TypeError\<close> are Python's own and are not caught by an
  \<open>except DomainError\<close>; the others derive from \<open>DomainError\<close>.
\<close>

datatype violation =
    ConservationViolated int int
  | DuplicateRecord int
  | FieldSet int seat_status string
  | FieldMissing int seat_status string
  | BookedWithoutRow int
  | LinkWithoutRow int "int option"
  | RowWithoutBooked int seat_status

datatype exn =
    InvalidTimestamp string datetime
  | IllegalTransition int seat_status seat_status
  | SeatUnavailable int string
  | HoldExpired int
  | NotHoldOwner int session_id "session_id option"
  | InvariantViolation violation
  | IllegalBookingTransition int booking_status booking_status
  | ValueError
  | TypeError

fun is_domain_error :: "exn \<Rightarrow> bool" where
  "is_domain_error ValueError = False"
| "is_domain_error TypeError = False"
| "is_domain_error _ = True"

section \<open>Timestamps\<close>

fun tz_aware :: "datetime \<Rightarrow> bool" where
  "tz_aware (Aware _) = True"
| "tz_aware (Naive _) = False"

fun dt_le :: "datetime \<Rightarrow> datetime \<Rightarrow> exn + bool" where
  "dt_le (Aware a) (Aware b) = Inr (a \<le> b)"
| "dt_le (Naive a) (Naive b) = Inr (a \<le> b)"
| "dt_le _ _ = Inl TypeError"

fun dt_add :: "datetime \<Rightarrow> timedelta \<Rightarrow> datetime" where
  "dt_add (Aware a) d = Aware (a + d)"
| "dt_add (Naive a) d = Naive (a + d)"

definition require_utc :: "datetime option \<Rightarrow> string \<Rightarrow> exn + unit" where
  "require_utc dt field_name =
     (case dt of
        None \<Rightarrow> Inr ()
      | Some d \<Rightarrow> if tz_aware d then Inr () else Inl (InvalidTimestamp field_name d))"

lemma require_utc_simps [simp]:
  "require_utc None n = Inr ()"
  "require_utc (Some (Aware t)) n = Inr ()"
  "require_utc (Some (Naive t)) n = Inl (InvalidTimestamp n (Naive t))"
  by (simp_all add: require_utc_def)

lemma require_utc_Inr_iff: "require_utc dt n = Inr u \<longleftrightarrow> (\<forall>d. dt = Some d \<longrightarrow> tz_aware d)"
  by (auto simp: require_utc_def split: option.splits)

lemma tz_aware_iff: "tz_aware d \<longleftrightarrow> (\<exists>t. d = Aware t)"
  by (cases d) simp_all

lemma tz_aware_dt_add [simp]: "tz_aware (dt_add d x) = tz_aware d"
  by (cases d) simp_all

section \<open>Entities\<close>

record seat =
  seat_id :: int
  event_id :: int
  status :: seat_status
  version :: int
  held_by_session_id :: "session_id option"
  hold_expires_at :: "datetime option"
  booking_id :: "int option"

text \<open>
  Building a \<open>Seat\<close>, also through \<open>dataclasses.replace\<close>, runs \<open>__post_init__\<close> on the new
  object.
\<close>

definition seat_post_init :: "seat \<Rightarrow> exn + seat" where
  "seat_post_init s = bindE (require_utc (hold_expires_at s) ''hold_expires_at'') (\<lambda>_. Inr s)"

record booking =
  bkg_id :: int
  bkg_event_id :: int
  bkg_user_id :: int
  bkg_session_id :: session_id
  bkg_status :: booking_status
  bkg_total_amount :: int
  bkg_currency :: string
  bkg_idempotency_key :: "string option"
  bkg_created_at :: datetime
  bkg_confirmed_at :: "datetime option"

definition booking_post_init :: "booking \<Rightarrow> exn + booking" where
  "booking_post_init b =
     bindE (require_utc (Some (bkg_created_at b)) ''created_at'') (\<lambda>_.
     bindE (require_utc (bkg_confirmed_at b) ''confirmed_at'') (\<lambda>_. Inr b))"

text \<open>The objects that exist: those whose construction did not raise.\<close>

definition seat_ok :: "seat \<Rightarrow> bool" where
  "seat_ok s \<longleftrightarrow> (\<forall>d. hold_expires_at s = Some d \<longrightarrow> tz_aware d)"

definition booking_ok :: "booking \<Rightarrow> bool" where
  "booking_ok b \<longleftrightarrow> tz_aware (bkg_created_at b) \<and> (\<forall>d. bkg_confirmed_at b = Some d \<longrightarrow> tz_aware d)"

lemma seat_post_init_Inr_iff: "seat_post_init s = Inr t \<longleftrightarrow> seat_ok s \<and> t = s"
  by (auto simp: seat_post_init_def seat_ok_def bindE_eq_Inr_iff require_utc_Inr_iff)

lemma booking_post_init_Inr_iff: "booking_post_init b = Inr c \<longleftrightarrow> booking_ok b \<and> c = b"
  by (auto simp: booking_post_init_def booking_ok_def bindE_eq_Inr_iff require_utc_Inr_iff)

lemma seat_post_init_ok: "seat_ok s \<Longrightarrow> seat_post_init s = Inr s"
  by (simp add: seat_post_init_Inr_iff)

lemma booking_post_init_ok: "booking_ok b \<Longrightarrow> booking_post_init b = Inr b"
  by (simp add: booking_post_init_Inr_iff)

end
