(* ===== verification/Seat_Machine.thy ===== *)
theory Seat_Machine
  imports Models
begin

text \<open>
  \<^verbatim>\<open>app/domain/state_machine.py\<close>: the four seat transitions (hold, confirm, expire, release)
  and the one definition of an expired hold. The lemmas characterise each transition on
  every branch, show that they keep the coherence of a seat's fields, and that at every
  instant a held seat is either confirmable by its holder or reclaimable by anyone, never
  both and never neither.
\<close>

section \<open>Operations\<close>

definition is_hold_expired :: "seat \<Rightarrow> datetime \<Rightarrow> exn + bool" where
  "is_hold_expired seat now =
     (case hold_expires_at seat of None \<Rightarrow> Inr False | Some e \<Rightarrow> dt_le e now)"

definition hold :: "seat \<Rightarrow> session_id \<Rightarrow> datetime \<Rightarrow> timedelta \<Rightarrow> exn + seat" where
  "hold seat session now hold_duration =
     bindE (require_utc (Some now) ''now'') (\<lambda>_.
     if hold_duration \<le> 0 then Inl ValueError
     else bindE
       (case status seat of
          AVAILABLE \<Rightarrow> Inr ()
        | HELD \<Rightarrow> bindE (is_hold_expired seat now) (\<lambda>expired.
            if \<not> expired
            then Inl (SeatUnavailable (seat_id seat) ''already held and not yet expired'')
            else Inr ())
        | BOOKED \<Rightarrow> Inl (SeatUnavailable (seat_id seat) ''already booked''))
       (\<lambda>_. seat_post_init
         (seat\<lparr>status := HELD,
               version := version seat + 1,
               held_by_session_id := Some session,
               hold_expires_at := Some (dt_add now hold_duration),
               booking_id := None\<rparr>)))"

definition confirm :: "seat \<Rightarrow> session_id \<Rightarrow> int \<Rightarrow> datetime \<Rightarrow> exn + seat" where
  "confirm seat session bid now =
     bindE (require_utc (Some now) ''now'') (\<lambda>_.
     if status seat \<noteq> HELD then Inl (IllegalTransition (seat_id seat) (status seat) BOOKED)
     else if held_by_session_id seat \<noteq> Some session
       then Inl (NotHoldOwner (seat_id seat) session (held_by_session_id seat))
     else bindE (is_hold_expired seat now) (\<lambda>expired.
       if expired then Inl (HoldExpired (seat_id seat))
       else seat_post_init
         (seat\<lparr>status := BOOKED,
               version := version seat + 1,
               held_by_session_id := None,
               hold_expires_at := None,
               booking_id := Some bid\<rparr>)))"

text \<open>Back to AVAILABLE with every hold and booking field cleared: the result of expire and release.\<close>

definition make_available :: "seat \<Rightarrow> seat" where
  "make_available seat =
     seat\<lparr>status := AVAILABLE,
          version := version seat + 1,
          held_by_session_id := None,
          hold_expires_at := None,
          booking_id := None\<rparr>"

definition expire :: "seat \<Rightarrow> datetime \<Rightarrow> exn + seat" where
  "expire seat now =
     bindE (require_utc (Some now) ''now'') (\<lambda>_.
     if status seat \<noteq> HELD
     then Inl (IllegalTransition (seat_id seat) (status seat) AVAILABLE)
     else bindE (is_hold_expired seat now) (\<lambda>expired.
       if \<not> expired then Inl (IllegalTransition (seat_id seat) (status seat) AVAILABLE)
       else seat_post_init (make_available seat)))"

definition release :: "seat \<Rightarrow> datetime \<Rightarrow> exn + seat" where
  "release seat now =
     bindE (require_utc (Some now) ''now'') (\<lambda>_.
     if status seat \<notin> {HELD, BOOKED}
     then Inl (IllegalTransition (seat_id seat) (status seat) AVAILABLE)
     else seat_post_init (make_available seat))"

section \<open>Coherence of a seat's fields\<close>

text \<open>
  What \<open>check_state_coherence\<close> demands of one seat: which auxiliary fields are set in which
  status. The expiry, where set, is an aware instant.
\<close>

definition coherent :: "seat \<Rightarrow> bool" where
  "coherent s \<longleftrightarrow>
     (case status s of
        AVAILABLE \<Rightarrow> held_by_session_id s = None \<and> hold_expires_at s = None \<and> booking_id s = None
      | HELD \<Rightarrow> held_by_session_id s \<noteq> None \<and> hold_expires_at s \<noteq> None \<and> booking_id s = None
      | BOOKED \<Rightarrow> booking_id s \<noteq> None \<and> held_by_session_id s = None \<and> hold_expires_at s = None)"

text \<open>The expiry of a hold as an instant, where the seat carries one.\<close>

definition expires :: "seat \<Rightarrow> instant option" where
  "expires s = (case hold_expires_at s of Some (Aware t) \<Rightarrow> Some t | _ \<Rightarrow> None)"

definition lapsed :: "seat \<Rightarrow> instant \<Rightarrow> bool" where
  "lapsed s now \<longleftrightarrow> (case expires s of None \<Rightarrow> False | Some e \<Rightarrow> e \<le> now)"

lemma is_hold_expired_aware [simp]:
  "seat_ok s \<Longrightarrow> is_hold_expired s (Aware now) = Inr (lapsed s now)"
  by (auto simp: is_hold_expired_def lapsed_def expires_def seat_ok_def tz_aware_iff
      split: option.splits)

definition holdable :: "seat \<Rightarrow> instant \<Rightarrow> bool" where
  "holdable s now \<longleftrightarrow> status s = AVAILABLE \<or> status s = HELD \<and> lapsed s now"

definition held_seat :: "seat \<Rightarrow> session_id \<Rightarrow> instant \<Rightarrow> timedelta \<Rightarrow> seat" where
  "held_seat s session now d =
     s\<lparr>status := HELD, version := version s + 1, held_by_session_id := Some session,
       hold_expires_at := Some (Aware (now + d)), booking_id := None\<rparr>"

definition booked_seat :: "seat \<Rightarrow> int \<Rightarrow> seat" where
  "booked_seat s bid =
     s\<lparr>status := BOOKED, version := version s + 1, held_by_session_id := None,
       hold_expires_at := None, booking_id := Some bid\<rparr>"

section \<open>Each transition on every branch\<close>

lemma seat_ok_results [simp]:
  "seat_ok (held_seat s session now d)"
  "seat_ok (booked_seat s bid)"
  "seat_ok (make_available s)"
  by (simp_all add: seat_ok_def held_seat_def booked_seat_def make_available_def)

lemma hold_aware:
  assumes "seat_ok s" and "0 < d"
  shows "hold s session (Aware now) d =
    (if holdable s now then Inr (held_seat s session now d)
     else if status s = BOOKED then Inl (SeatUnavailable (seat_id s) ''already booked'')
     else Inl (SeatUnavailable (seat_id s) ''already held and not yet expired''))"
  using assms seat_ok_results(1) [of s session now d]
  by (cases "status s") (auto simp: hold_def holdable_def held_seat_def seat_post_init_ok)

lemma hold_Inr_iff:
  assumes "seat_ok s"
  shows "hold s session (Aware now) d = Inr t \<longleftrightarrow>
    0 < d \<and> holdable s now \<and> t = held_seat s session now d"
proof (cases "0 < d")
  case True
  then show ?thesis using assms by (auto simp: hold_aware)
next
  case False
  then show ?thesis by (simp add: hold_def)
qed

lemma confirm_aware:
  assumes "seat_ok s"
  shows "confirm s session bid (Aware now) =
    (if status s \<noteq> HELD then Inl (IllegalTransition (seat_id s) (status s) BOOKED)
     else if held_by_session_id s \<noteq> Some session
       then Inl (NotHoldOwner (seat_id s) session (held_by_session_id s))
     else if lapsed s now then Inl (HoldExpired (seat_id s))
     else Inr (booked_seat s bid))"
  using assms seat_ok_results(2) [of s bid]
  by (auto simp: confirm_def booked_seat_def seat_post_init_ok)

lemma confirm_Inr_iff:
  "seat_ok s \<Longrightarrow> confirm s session bid (Aware now) = Inr t \<longleftrightarrow>
    status s = HELD \<and> held_by_session_id s = Some session \<and> \<not> lapsed s now \<and> t = booked_seat s bid"
  by (auto simp: confirm_aware)

lemma expire_aware:
  assumes "seat_ok s"
  shows "expire s (Aware now) =
    (if status s = HELD \<and> lapsed s now then Inr (make_available s)
     else Inl (IllegalTransition (seat_id s) (status s) AVAILABLE))"
  using assms by (auto simp: expire_def seat_post_init_ok)

lemma expire_Inr_iff:
  "seat_ok s \<Longrightarrow> expire s (Aware now) = Inr t \<longleftrightarrow>
    status s = HELD \<and> lapsed s now \<and> t = make_available s"
  by (auto simp: expire_aware)

lemma release_aware:
  "release s (Aware now) =
    (if status s = AVAILABLE then Inl (IllegalTransition (seat_id s) AVAILABLE AVAILABLE)
     else Inr (make_available s))"
  by (cases "status s") (auto simp: release_def seat_post_init_ok)

lemma release_Inr_iff:
  "release s (Aware now) = Inr t \<longleftrightarrow> status s \<noteq> AVAILABLE \<and> t = make_available s"
  by (auto simp: release_aware)

lemma naive_now_rejected [simp]:
  "hold s session (Naive t) d = Inl (InvalidTimestamp ''now'' (Naive t))"
  "confirm s session bid (Naive t) = Inl (InvalidTimestamp ''now'' (Naive t))"
  "expire s (Naive t) = Inl (InvalidTimestamp ''now'' (Naive t))"
  "release s (Naive t) = Inl (InvalidTimestamp ''now'' (Naive t))"
  by (simp_all add: hold_def confirm_def expire_def release_def)

lemmas transition_iffs = hold_Inr_iff confirm_Inr_iff expire_Inr_iff release_Inr_iff

lemma coherent_results [simp]:
  "coherent (held_seat s session now d)"
  "coherent (booked_seat s bid)"
  "coherent (make_available s)"
  by (simp_all add: coherent_def held_seat_def booked_seat_def make_available_def)

section \<open>The seat's life as a step relation\<close>

inductive seat_step :: "seat \<Rightarrow> seat \<Rightarrow> bool" where
  step_hold: "hold s session now d = Inr t \<Longrightarrow> seat_step s t"
| step_confirm: "confirm s session bid now = Inr t \<Longrightarrow> seat_step s t"
| step_expire: "expire s now = Inr t \<Longrightarrow> seat_step s t"
| step_release: "release s now = Inr t \<Longrightarrow> seat_step s t"

inductive_cases seat_stepE: "seat_step s t"

definition well_formed :: "seat \<Rightarrow> bool" where
  "well_formed s \<longleftrightarrow> seat_ok s \<and> coherent s"

text \<open>A step with an aware clock is one of four shapes.\<close>

lemma seat_step_shapes:
  assumes "seat_step s t" and "seat_ok s"
  obtains (held) session now d where "holdable s now" "0 < d" "t = held_seat s session now d"
  | (booked) session bid now where "status s = HELD" "held_by_session_id s = Some session"
      "\<not> lapsed s now" "t = booked_seat s bid"
  | (freed) "status s \<noteq> AVAILABLE" "t = make_available s"
  using assms
proof (cases rule: seat_step.cases)
  case (step_hold session now d)
  then show ?thesis using assms(2) that(1) by (cases now) (auto simp: hold_Inr_iff)
next
  case (step_confirm session bid now)
  then show ?thesis using assms(2) that(2) by (cases now) (auto simp: confirm_Inr_iff)
next
  case (step_expire now)
  then show ?thesis using assms(2) that(3) by (cases now) (auto simp: expire_Inr_iff)
next
  case (step_release now)
  then show ?thesis using that(3) by (cases now) (auto simp: release_Inr_iff)
qed

lemma seat_step_well_formed: "seat_step s t \<Longrightarrow> well_formed s \<Longrightarrow> well_formed t"
  unfolding well_formed_def by (elim conjE seat_step_shapes) simp_all

definition fresh_seat :: "seat \<Rightarrow> bool" where
  "fresh_seat s \<longleftrightarrow> status s = AVAILABLE \<and> version s = 0 \<and> held_by_session_id s = None \<and>
     hold_expires_at s = None \<and> booking_id s = None"

interpretation seat_life: transition_system fresh_seat seat_step well_formed
proof unfold_locales
  fix s
  assume "fresh_seat s"
  then show "well_formed s" by (simp add: fresh_seat_def well_formed_def seat_ok_def coherent_def)
next
  fix s t
  assume "seat_step s t" "well_formed s"
  then show "well_formed t" by (rule seat_step_well_formed)
qed

lemma seat_step_version: "seat_step s t \<Longrightarrow> seat_ok s \<Longrightarrow> version t = version s + 1"
  by (elim seat_step_shapes) (simp_all add: held_seat_def booked_seat_def make_available_def)

lemma seat_step_identity: "seat_step s t \<Longrightarrow> seat_ok s \<Longrightarrow> seat_id t = seat_id s \<and> event_id t = event_id s"
  by (elim seat_step_shapes) (simp_all add: held_seat_def booked_seat_def make_available_def)

section \<open>Properties\<close>

definition sample_seat :: seat where
  "sample_seat = \<lparr>seat_id = 7, event_id = 1, status = AVAILABLE, version = 0, held_by_session_id = None,
     hold_expires_at = None, booking_id = None\<rparr>"

text \<open>
  \<open>hold\<close> on every branch. A naive clock is rejected before anything else, then a duration
  that is not positive; otherwise the hold is granted exactly if the seat is AVAILABLE or its
  hold has lapsed (an expiry equal to \<open>now\<close> has lapsed), it then runs until \<open>now\<close> plus the
  duration, and a refusal names the seat and whether it is held or booked.
\<close>

theorem hold_spec:
  assumes "seat_ok s"
  shows "hold s session clock d =
    (case clock of
       Naive t \<Rightarrow> Inl (InvalidTimestamp ''now'' (Naive t))
     | Aware now \<Rightarrow>
         if d \<le> 0 then Inl ValueError
         else if status s = BOOKED then Inl (SeatUnavailable (seat_id s) ''already booked'')
         else if status s = HELD \<and> \<not> lapsed s now
           then Inl (SeatUnavailable (seat_id s) ''already held and not yet expired'')
         else Inr (s\<lparr>status := HELD, version := version s + 1, held_by_session_id := Some session,
           hold_expires_at := Some (Aware (now + d)), booking_id := None\<rparr>))"
proof (cases clock)
  case (Aware now)
  then show ?thesis
    using assms by (cases "0 < d"; cases "status s")
      (auto simp: hold_aware holdable_def held_seat_def, simp_all add: hold_def)
qed simp

theorem hold_spec_witness:
  "hold sample_seat ''A'' (Aware 100) 60 =
     Inr (sample_seat\<lparr>status := HELD, version := 1, held_by_session_id := Some ''A'',
       hold_expires_at := Some (Aware 160)\<rparr>)"
  using hold_spec [of sample_seat "''A''" "Aware 100" 60] by (simp add: sample_seat_def seat_ok_def)

text \<open>
  C19: there is no instant at which a held seat can be both confirmed by its holder and taken
  back, and none at which it can be neither: \<open>confirm\<close> by the holder succeeds exactly when
  \<open>expire\<close> fails, and \<open>expire\<close> succeeds exactly when another session's \<open>hold\<close> does. Nobody
  but the holder can confirm it.
\<close>

theorem confirm_xor_reclaim:
  assumes "seat_ok s" "status s = HELD" "held_by_session_id s = Some holder" "0 < d" "other \<noteq> holder"
  shows "((\<exists>t. confirm s holder bid (Aware now) = Inr t) \<longleftrightarrow> \<not> (\<exists>t. expire s (Aware now) = Inr t)) \<and>
    ((\<exists>t. expire s (Aware now) = Inr t) \<longleftrightarrow> (\<exists>t. hold s other (Aware now) d = Inr t)) \<and>
    confirm s other bid (Aware now) = Inl (NotHoldOwner (seat_id s) other (Some holder))"
  using assms by (auto simp: transition_iffs holdable_def confirm_aware)

theorem confirm_xor_reclaim_witness:
  "let s = held_seat sample_seat ''A'' 100 60 in
     ((\<exists>t. confirm s ''A'' 3 (Aware 159) = Inr t) \<longleftrightarrow> \<not> (\<exists>t. expire s (Aware 159) = Inr t)) \<and>
     confirm s ''B'' 3 (Aware 159) = Inl (NotHoldOwner 7 ''B'' (Some ''A''))"
  using confirm_xor_reclaim [of "held_seat sample_seat ''A'' 100 60" "''A''" 60 "''B''" 3 159]
  by (simp add: held_seat_def sample_seat_def seat_ok_def Let_def)

text \<open>
  C37: whatever sequence of transitions a seat goes through, with whatever arguments and clocks,
  its fields stay coherent with its status, its version counts the transitions, and it stays
  the same seat of the same event.
\<close>

theorem seat_lifecycle:
  assumes "fresh_seat s" and "(seat_step ^^ n) s t"
  shows "coherent t \<and> version t = int n \<and> seat_id t = seat_id s \<and> event_id t = event_id s"
proof -
  have wf: "well_formed s" using assms(1) by (rule seat_life.init_inv)
  have "well_formed t \<and> version t = version s + int n \<and> seat_id t = seat_id s \<and> event_id t = event_id s"
    using assms(2)
  proof (induction n arbitrary: t)
    case (Suc n)
    then obtain u where u: "(seat_step ^^ n) s u" "seat_step u t" by auto
    from Suc.IH [OF u(1)] u(2) show ?case
      using seat_life.step_inv seat_step_version seat_step_identity by (auto simp: well_formed_def)
  qed (use wf in simp)
  with assms(1) show ?thesis by (simp add: fresh_seat_def well_formed_def)
qed

lemma sample_seat_steps:
  "(seat_step ^^ 2) sample_seat (booked_seat (held_seat sample_seat ''A'' 100 60) 3)"
proof -
  have "seat_step sample_seat (held_seat sample_seat ''A'' 100 60)"
    by (rule step_hold [of _ "''A''" "Aware 100" 60])
      (simp add: hold_Inr_iff seat_ok_def holdable_def sample_seat_def)
  moreover have "seat_step (held_seat sample_seat ''A'' 100 60) (booked_seat (held_seat sample_seat ''A'' 100 60) 3)"
    by (rule step_confirm [of _ "''A''" 3 "Aware 110"])
      (simp add: confirm_Inr_iff held_seat_def lapsed_def expires_def seat_ok_def)
  ultimately show ?thesis by (auto simp: numeral_2_eq_2)
qed

theorem seat_lifecycle_witness:
  "coherent (booked_seat (held_seat sample_seat ''A'' 100 60) 3) \<and>
   version (booked_seat (held_seat sample_seat ''A'' 100 60) 3) = 2"
  using seat_lifecycle [OF _ sample_seat_steps] by (simp add: fresh_seat_def sample_seat_def)

end
