(* ===== verification/Booking_Machine.thy ===== *)
theory Booking_Machine
  imports Models
begin

text \<open>
  \<^verbatim>\<open>app/domain/booking_state_machine.py\<close>: the three booking transitions, which status each
  accepts, and what can be reached: a booking that was refunded, or that waits for a refund,
  is never confirmed again.
\<close>

definition confirm_booking :: "booking \<Rightarrow> datetime \<Rightarrow> exn + booking" where
  "confirm_booking b now =
     bindE (require_utc (Some now) ''now'') (\<lambda>_.
     if bkg_status b \<noteq> PENDING
     then Inl (IllegalBookingTransition (bkg_id b) (bkg_status b) CONFIRMED)
     else booking_post_init (b\<lparr>bkg_status := CONFIRMED, bkg_confirmed_at := Some now\<rparr>))"

definition require_refund :: "booking \<Rightarrow> datetime \<Rightarrow> exn + booking" where
  "require_refund b now =
     bindE (require_utc (Some now) ''now'') (\<lambda>_.
     if bkg_status b \<noteq> PENDING
     then Inl (IllegalBookingTransition (bkg_id b) (bkg_status b) REFUND_REQUIRED)
     else booking_post_init (b\<lparr>bkg_status := REFUND_REQUIRED\<rparr>))"

definition refund_booking :: "booking \<Rightarrow> datetime \<Rightarrow> exn + booking" where
  "refund_booking b now =
     bindE (require_utc (Some now) ''now'') (\<lambda>_.
     if bkg_status b \<noteq> CONFIRMED
     then Inl (IllegalBookingTransition (bkg_id b) (bkg_status b) REFUNDED)
     else booking_post_init (b\<lparr>bkg_status := REFUNDED\<rparr>))"

lemma confirm_booking_aware:
  "booking_ok b \<Longrightarrow> confirm_booking b (Aware now) =
    (if bkg_status b = PENDING
     then Inr (b\<lparr>bkg_status := CONFIRMED, bkg_confirmed_at := Some (Aware now)\<rparr>)
     else Inl (IllegalBookingTransition (bkg_id b) (bkg_status b) CONFIRMED))"
  by (auto simp: confirm_booking_def booking_post_init_def booking_ok_def require_utc_def)

lemma require_refund_aware:
  "booking_ok b \<Longrightarrow> require_refund b (Aware now) =
    (if bkg_status b = PENDING then Inr (b\<lparr>bkg_status := REFUND_REQUIRED\<rparr>)
     else Inl (IllegalBookingTransition (bkg_id b) (bkg_status b) REFUND_REQUIRED))"
  by (auto simp: require_refund_def booking_post_init_def booking_ok_def require_utc_def
      split: option.splits)

lemma refund_booking_aware:
  "booking_ok b \<Longrightarrow> refund_booking b (Aware now) =
    (if bkg_status b = CONFIRMED then Inr (b\<lparr>bkg_status := REFUNDED\<rparr>)
     else Inl (IllegalBookingTransition (bkg_id b) (bkg_status b) REFUNDED))"
  by (auto simp: refund_booking_def booking_post_init_def booking_ok_def require_utc_def
      split: option.splits)

lemmas booking_transitions_aware =
  confirm_booking_aware require_refund_aware refund_booking_aware

section \<open>The booking's life as a step relation\<close>

inductive booking_step :: "booking \<Rightarrow> booking \<Rightarrow> bool" where
  step_confirm: "confirm_booking b now = Inr c \<Longrightarrow> booking_step b c"
| step_require_refund: "require_refund b now = Inr c \<Longrightarrow> booking_step b c"
| step_refund: "refund_booking b now = Inr c \<Longrightarrow> booking_step b c"

lemma booking_step_status:
  assumes "booking_step b c"
  shows "(bkg_status b, bkg_status c) \<in>
    {(PENDING, CONFIRMED), (PENDING, REFUND_REQUIRED), (CONFIRMED, REFUNDED)}"
  using assms
  by (cases rule: booking_step.cases)
    (auto simp: confirm_booking_def require_refund_def refund_booking_def bindE_eq_Inr_iff
      booking_post_init_Inr_iff split: if_splits)

text \<open>The statuses nothing leads out of.\<close>

definition terminal :: "booking_status \<Rightarrow> bool" where
  "terminal st \<longleftrightarrow> st = CANCELLED \<or> st = REFUNDED \<or> st = REFUND_REQUIRED"

lemma terminal_no_step: "terminal (bkg_status b) \<Longrightarrow> \<not> booking_step b c"
  using booking_step_status [of b c] by (auto simp: terminal_def)

lemma terminal_stays: "booking_step\<^sup>*\<^sup>* b c \<Longrightarrow> terminal (bkg_status b) \<Longrightarrow> c = b"
  by (induction rule: rtranclp_induct) (auto simp: terminal_no_step)

definition past_pending :: "booking \<Rightarrow> bool" where
  "past_pending b \<longleftrightarrow> bkg_status b \<noteq> PENDING"

interpretation left_pending: transition_system past_pending booking_step past_pending
  by unfold_locales (auto simp: past_pending_def dest: booking_step_status)

section \<open>Properties\<close>

text \<open>
  Money that went back stays back. A booking that was refunded, cancelled or that waits for
  a refund keeps every field whatever transitions are tried on it, in whatever order, and in
  particular is never confirmed: \<open>confirm_booking\<close> answers with the illegal transition.
\<close>

theorem booking_no_resurrection:
  assumes "booking_ok b" "bkg_status b \<in> {REFUNDED, REFUND_REQUIRED, CANCELLED}" "booking_step\<^sup>*\<^sup>* b c"
  shows "c = b \<and> confirm_booking c (Aware now) = Inl (IllegalBookingTransition (bkg_id b) (bkg_status b) CONFIRMED)"
  using assms terminal_stays [OF assms(3)] by (auto simp: terminal_def confirm_booking_aware)

definition sample_booking :: booking where
  "sample_booking = \<lparr>bkg_id = 5, bkg_event_id = 1, bkg_user_id = 9, bkg_session_id = ''A'',
     bkg_status = REFUNDED, bkg_total_amount = 1000, bkg_currency = ''usd'', bkg_idempotency_key = None,
     bkg_created_at = Aware 50, bkg_confirmed_at = Some (Aware 60)\<rparr>"

theorem booking_no_resurrection_witness:
  "confirm_booking sample_booking (Aware 70) = Inl (IllegalBookingTransition 5 REFUNDED CONFIRMED)"
  using booking_no_resurrection [of sample_booking sample_booking 70]
  by (simp add: sample_booking_def booking_ok_def)

end
