(* ===== verification/Invariants.thy ===== *)
theory Invariants
  imports Seat_Machine
begin

text \<open>
  \<^verbatim>\<open>app/domain/invariants.py\<close>: the four snapshot checks the load harness polls. Each raises
  at the first violation; the lemmas say exactly which snapshots pass.
\<close>

section \<open>The checks\<close>

fun count_status :: "seat list \<Rightarrow> seat_status \<Rightarrow> nat" where
  "count_status [] st = 0"
| "count_status (s # ss) st = (if status s = st then 1 else 0) + count_status ss st"

definition check_conservation :: "seat list \<Rightarrow> int \<Rightarrow> exn + unit" where
  "check_conservation seats total_seats =
     (let accounted = count_status seats AVAILABLE + count_status seats HELD + count_status seats BOOKED
      in if int accounted \<noteq> total_seats then Inl (InvariantViolation (ConservationViolated (int accounted) total_seats)) else Inr ())"

fun check_dup :: "int set \<Rightarrow> seat list \<Rightarrow> exn + unit" where
  "check_dup seen [] = Inr ()"
| "check_dup seen (s # ss) =
     (if seat_id s \<in> seen then Inl (InvariantViolation (DuplicateRecord (seat_id s)))
      else check_dup (insert (seat_id s) seen) ss)"

definition check_no_double_booking :: "seat list \<Rightarrow> exn + unit" where
  "check_no_double_booking seats = check_dup {} seats"

definition check_seat_coherence :: "seat \<Rightarrow> exn + unit" where
  "check_seat_coherence s =
     (case status s of
        AVAILABLE \<Rightarrow>
          if held_by_session_id s \<noteq> None then Inl (InvariantViolation (FieldSet (seat_id s) AVAILABLE ''held_by_session_id''))
          else if hold_expires_at s \<noteq> None then Inl (InvariantViolation (FieldSet (seat_id s) AVAILABLE ''hold_expires_at''))
          else if booking_id s \<noteq> None then Inl (InvariantViolation (FieldSet (seat_id s) AVAILABLE ''booking_id''))
          else Inr ()
      | HELD \<Rightarrow>
          if held_by_session_id s = None then Inl (InvariantViolation (FieldMissing (seat_id s) HELD ''held_by_session_id''))
          else if hold_expires_at s = None then Inl (InvariantViolation (FieldMissing (seat_id s) HELD ''hold_expires_at''))
          else if booking_id s \<noteq> None then Inl (InvariantViolation (FieldSet (seat_id s) HELD ''booking_id''))
          else Inr ()
      | BOOKED \<Rightarrow>
          if booking_id s = None then Inl (InvariantViolation (FieldMissing (seat_id s) BOOKED ''booking_id''))
          else if held_by_session_id s \<noteq> None then Inl (InvariantViolation (FieldSet (seat_id s) BOOKED ''held_by_session_id''))
          else if hold_expires_at s \<noteq> None then Inl (InvariantViolation (FieldSet (seat_id s) BOOKED ''hold_expires_at''))
          else Inr ())"

definition check_state_coherence :: "seat list \<Rightarrow> exn + unit" where
  "check_state_coherence seats = forE check_seat_coherence seats"

definition check_seat_linkage :: "int set \<Rightarrow> seat \<Rightarrow> exn + unit" where
  "check_seat_linkage active s =
     (let is_active = seat_id s \<in> active in
      if status s = BOOKED \<and> \<not> is_active
        then Inl (InvariantViolation (BookedWithoutRow (seat_id s)))
      else if booking_id s \<noteq> None \<and> \<not> is_active
        then Inl (InvariantViolation (LinkWithoutRow (seat_id s) (booking_id s)))
      else if is_active \<and> status s \<noteq> BOOKED
        then Inl (InvariantViolation (RowWithoutBooked (seat_id s) (status s)))
      else Inr ())"

definition check_booking_linkage :: "seat list \<Rightarrow> int set \<Rightarrow> exn + unit" where
  "check_booking_linkage seats active = forE (check_seat_linkage active) seats"

section \<open>Which snapshots pass\<close>

lemma count_status_total:
  "count_status ss AVAILABLE + count_status ss HELD + count_status ss BOOKED = length ss"
proof (induction ss)
  case Nil
  then show ?case by simp
next
  case (Cons s ss)
  then show ?case by (cases "status s") simp_all
qed

lemma check_conservation_iff: "check_conservation ss n = Inr () \<longleftrightarrow> int (length ss) = n"
  by (simp add: check_conservation_def Let_def count_status_total)

lemma check_dup_iff:
  "check_dup seen ss = Inr () \<longleftrightarrow> distinct (map seat_id ss) \<and> seen \<inter> seat_id ` set ss = {}"
  by (induction ss arbitrary: seen) auto

lemma check_no_double_booking_iff: "check_no_double_booking ss = Inr () \<longleftrightarrow> distinct (map seat_id ss)"
  by (simp add: check_no_double_booking_def check_dup_iff)

lemma check_seat_coherence_iff: "check_seat_coherence s = Inr () \<longleftrightarrow> coherent s"
  by (cases "status s") (simp_all add: check_seat_coherence_def coherent_def)

lemma check_state_coherence_iff: "check_state_coherence ss = Inr () \<longleftrightarrow> (\<forall>s \<in> set ss. coherent s)"
  by (simp add: check_state_coherence_def forE_eq_Inr_iff check_seat_coherence_iff)

lemma check_seat_linkage_iff:
  "check_seat_linkage active s = Inr () \<longleftrightarrow>
    (status s = BOOKED \<longleftrightarrow> seat_id s \<in> active) \<and> (booking_id s \<noteq> None \<longrightarrow> seat_id s \<in> active)"
  by (auto simp: check_seat_linkage_def Let_def)

lemma check_booking_linkage_iff:
  "check_booking_linkage ss active = Inr () \<longleftrightarrow>
    (\<forall>s \<in> set ss. (status s = BOOKED \<longleftrightarrow> seat_id s \<in> active) \<and>
       (booking_id s \<noteq> None \<longrightarrow> seat_id s \<in> active))"
  by (simp add: check_booking_linkage_def forE_eq_Inr_iff check_seat_linkage_iff)

lemmas check_iffs =
  check_conservation_iff check_no_double_booking_iff check_state_coherence_iff
  check_booking_linkage_iff

section \<open>Properties\<close>

text \<open>
  Each of the four checks passes on exactly the snapshots it is meant to. Conservation: the
  number of seats is the event's total. No double booking: no seat id occurs twice. State
  coherence: every seat's fields fit its status. Linkage: a seat is BOOKED exactly if it has an
  active row of \<open>booking_seats\<close>, and has a booking id only with one.
\<close>

theorem checks_characterised:
  "(check_conservation ss total_seats = Inr () \<longleftrightarrow> int (length ss) = total_seats) \<and>
   (check_no_double_booking ss = Inr () \<longleftrightarrow> distinct (map seat_id ss)) \<and>
   (check_state_coherence ss = Inr () \<longleftrightarrow> list_all coherent ss) \<and>
   (check_booking_linkage ss active = Inr () \<longleftrightarrow>
     {s \<in> set ss. status s = BOOKED} = {s \<in> set ss. seat_id s \<in> active} \<and>
     {s \<in> set ss. booking_id s \<noteq> None} \<subseteq> {s \<in> set ss. seat_id s \<in> active})"
  unfolding check_iffs by (auto simp: list_all_iff)

end
