(* ===== verification/Tables.thy ===== *)
theory Tables
  imports Seat_Machine Booking_Machine Invariants
begin

text \<open>
  \<^verbatim>\<open>app/infra/tables.py\<close> and \<^verbatim>\<open>app/infra/mappers.py\<close>: the rows of the eight tables, the
  constraints PostgreSQL enforces on them (primary keys, unique and partial unique indexes,
  foreign keys), the database as a record of tables, and the conversions between rows and
  domain objects.

  Status columns carry a CHECK constraint that admits exactly the values of the enum, so they
  have the enum's type here. \<open>func.now()\<close> reads \<open>db_clock\<close>. Integer columns are unbounded.
\<close>

section \<open>Rows\<close>

record event_row =
  ev_id :: int
  ev_name :: string
  ev_venue :: string
  ev_starts_at :: instant
  ev_total_seats :: int
  ev_created_at :: instant

record seat_row =
  sr_id :: int
  sr_event_id :: int
  sr_section :: string
  sr_row_label :: string
  sr_seat_number :: int
  sr_status :: seat_status
  sr_version :: int
  sr_held_by :: "session_id option"
  sr_expires :: "instant option"
  sr_booking_id :: "int option"
  sr_updated_at :: instant

record booking_row =
  br_id :: int
  br_event_id :: int
  br_user_id :: int
  br_session_id :: session_id
  br_status :: booking_status
  br_total_amount :: int
  br_currency :: string
  br_seat_ids :: "int list"
  br_idempotency_key :: "string option"
  br_created_at :: instant
  br_confirmed_at :: "instant option"

record booking_seat_row =
  bs_booking_id :: int
  bs_seat_id :: int
  bs_released_at :: "instant option"

record hold_audit_row =
  ha_seat_id :: int
  ha_session_id :: session_id
  ha_acquired_at :: instant

text \<open>\<open>BookingResponse\<close> and the other response bodies the idempotency table stores as JSON.\<close>

record booking_response =
  resp_id :: int
  resp_event_id :: int
  resp_user_id :: int
  resp_session_id :: session_id
  resp_status :: booking_status
  resp_seat_ids :: "int list"
  resp_total_amount :: int
  resp_currency :: string
  resp_created_at :: instant
  resp_confirmed_at :: "instant option"

datatype confirm_failure =
    booking_seats_missing
  | seat_confirm_rejected exn
  | booking_confirm_rejected exn
  | hold_no_longer_valid

datatype response_body =
    BookingBody booking_response
  | CreationFailedBody "int list"
  | ConfirmFailedBody confirm_failure
  | BookingNotFoundBody
  | RequestInProgressBody
  | KeyConflictBody
  | EmptyBody

datatype idem_status = IN_PROGRESS | COMPLETED | FAILED

record idem_row =
  ik_user_id :: int
  ik_key :: string
  ik_fingerprint :: string
  ik_status :: idem_status
  ik_response_status :: "int option"
  ik_response_body :: "response_body option"
  ik_created_at :: instant
  ik_expires_at :: instant

text \<open>A parsed JSON document; a number that is not an integer is kept as its literal.\<close>

datatype json =
    JNull
  | JBool bool
  | JInt int
  | JFloat string
  | JStr string
  | JArr "json list"
  | JObj "(string \<times> json) list"

datatype processing_status = APPLIED | REJECTED | UNRESOLVED | ERROR

record payment_event_row =
  pe_id :: string
  pe_booking_id :: "int option"
  pe_type :: string
  pe_payload :: json
  pe_received_at :: instant
  pe_processed_at :: "instant option"
  pe_status :: "processing_status option"

datatype outbox_payload =
    BookingConfirmed int "int list"
  | BookingRefundRequired int
  | BookingRefunded int "int list"

record outbox_row =
  ob_payload :: outbox_payload
  ob_created_at :: instant
  ob_published_at :: "instant option"

record db =
  db_events :: "event_row list"
  db_seats :: "seat_row list"
  db_bookings :: "booking_row list"
  db_booking_seats :: "booking_seat_row list"
  db_hold_audit :: "hold_audit_row list"
  db_idempotency_keys :: "idem_row list"
  db_payment_events :: "payment_event_row list"
  db_outbox :: "outbox_row list"
  db_next_booking :: int
  db_clock :: instant

text \<open>
  What a statement raises: a violated constraint, a value the column does not take, or
  another database error with its SQLSTATE.
\<close>

datatype db_error = IntegrityError | DataError | SqlState string

section \<open>Look-ups\<close>

definition find_seat :: "int \<Rightarrow> db \<Rightarrow> seat_row option" where
  "find_seat i d = by_key sr_id i (db_seats d)"

definition find_booking :: "int \<Rightarrow> db \<Rightarrow> booking_row option" where
  "find_booking i d = by_key br_id i (db_bookings d)"

definition find_event :: "int \<Rightarrow> db \<Rightarrow> event_row option" where
  "find_event i d = by_key ev_id i (db_events d)"

definition ik_pk :: "idem_row \<Rightarrow> int \<times> string" where
  "ik_pk r = (ik_user_id r, ik_key r)"

definition find_idem :: "int \<Rightarrow> string \<Rightarrow> db \<Rightarrow> idem_row option" where
  "find_idem u k d = by_key ik_pk (u, k) (db_idempotency_keys d)"

definition find_payment_event :: "string \<Rightarrow> db \<Rightarrow> payment_event_row option" where
  "find_payment_event i d = by_key pe_id i (db_payment_events d)"

text \<open>\<open>SELECT ... FROM seats WHERE id IN (ids)\<close>, in table order.\<close>

definition select_seats :: "int list \<Rightarrow> db \<Rightarrow> seat_row list" where
  "select_seats ids d = filter (\<lambda>r. sr_id r \<in> set ids) (db_seats d)"

section \<open>Constraints\<close>

text \<open>The rows of \<open>booking_seats\<close> the partial unique index covers: \<open>released_at IS NULL\<close>.\<close>

definition bs_active :: "booking_seat_row \<Rightarrow> bool" where
  "bs_active r \<longleftrightarrow> bs_released_at r = None"

definition active_seat_ids :: "db \<Rightarrow> int set" where
  "active_seat_ids d = bs_seat_id ` set (filter bs_active (db_booking_seats d))"

definition one_active_booking_per_seat :: "db \<Rightarrow> bool" where
  "one_active_booking_per_seat d \<longleftrightarrow> distinct (map bs_seat_id (filter bs_active (db_booking_seats d)))"

definition bs_pk :: "booking_seat_row \<Rightarrow> int \<times> int" where
  "bs_pk r = (bs_booking_id r, bs_seat_id r)"

definition booking_key_unique :: "booking_row list \<Rightarrow> bool" where
  "booking_key_unique bs \<longleftrightarrow>
     distinct (map (\<lambda>b. (br_user_id b, br_idempotency_key b))
       (filter (\<lambda>b. br_idempotency_key b \<noteq> None) bs))"

definition seat_place :: "seat_row \<Rightarrow> int \<times> string \<times> string \<times> int" where
  "seat_place r = (sr_event_id r, sr_section r, sr_row_label r, sr_seat_number r)"

text \<open>The keys of each table, and the schema as a whole: a statement that would break one raises.\<close>

definition event_keys_ok :: "event_row list \<Rightarrow> bool" where
  "event_keys_ok es \<longleftrightarrow> distinct (map ev_id es)"

definition seat_keys_ok :: "seat_row list \<Rightarrow> bool" where
  "seat_keys_ok rs \<longleftrightarrow> distinct (map sr_id rs) \<and> distinct (map seat_place rs)"

definition booking_keys_ok :: "booking_row list \<Rightarrow> int \<Rightarrow> bool" where
  "booking_keys_ok bs next_id \<longleftrightarrow>
     distinct (map br_id bs) \<and> list_all (\<lambda>b. br_id b < next_id) bs \<and> booking_key_unique bs"

definition booking_seat_keys_ok :: "booking_seat_row list \<Rightarrow> bool" where
  "booking_seat_keys_ok ls \<longleftrightarrow>
     distinct (map bs_pk ls) \<and> distinct (map bs_seat_id (filter bs_active ls))"

definition idem_keys_ok :: "idem_row list \<Rightarrow> bool" where
  "idem_keys_ok ks \<longleftrightarrow> distinct (map ik_pk ks)"

definition payment_event_keys_ok :: "payment_event_row list \<Rightarrow> bool" where
  "payment_event_keys_ok ps \<longleftrightarrow> distinct (map pe_id ps)"

definition schema_ok :: "db \<Rightarrow> bool" where
  "schema_ok d \<longleftrightarrow>
     event_keys_ok (db_events d) \<and> seat_keys_ok (db_seats d) \<and>
     booking_keys_ok (db_bookings d) (db_next_booking d) \<and>
     booking_seat_keys_ok (db_booking_seats d) \<and> idem_keys_ok (db_idempotency_keys d) \<and>
     payment_event_keys_ok (db_payment_events d)"

lemma schema_ok_iff:
  "schema_ok d \<longleftrightarrow>
     distinct (map ev_id (db_events d)) \<and>
     distinct (map sr_id (db_seats d)) \<and>
     distinct (map seat_place (db_seats d)) \<and>
     distinct (map br_id (db_bookings d)) \<and>
     (\<forall>b \<in> set (db_bookings d). br_id b < db_next_booking d) \<and>
     booking_key_unique (db_bookings d) \<and>
     distinct (map bs_pk (db_booking_seats d)) \<and>
     one_active_booking_per_seat d \<and>
     distinct (map ik_pk (db_idempotency_keys d)) \<and>
     distinct (map pe_id (db_payment_events d))"
  by (auto simp: schema_ok_def event_keys_ok_def seat_keys_ok_def booking_keys_ok_def
    booking_seat_keys_ok_def idem_keys_ok_def payment_event_keys_ok_def list_all_iff
    one_active_booking_per_seat_def)

section \<open>Mappers\<close>

definition seat_to_domain :: "seat_row \<Rightarrow> seat" where
  "seat_to_domain r =
     \<lparr>seat_id = sr_id r, event_id = sr_event_id r, status = sr_status r, version = sr_version r,
      held_by_session_id = sr_held_by r, hold_expires_at = map_option Aware (sr_expires r),
      booking_id = sr_booking_id r\<rparr>"

fun dt_instant :: "datetime \<Rightarrow> instant" where
  "dt_instant (Aware t) = t"
| "dt_instant (Naive t) = t"

definition seat_apply :: "seat_row \<Rightarrow> seat \<Rightarrow> seat_row" where
  "seat_apply r s =
     r\<lparr>sr_status := status s, sr_version := version s, sr_held_by := held_by_session_id s,
       sr_expires := map_option dt_instant (hold_expires_at s), sr_booking_id := booking_id s\<rparr>"

definition booking_to_domain :: "booking_row \<Rightarrow> booking" where
  "booking_to_domain r =
     \<lparr>bkg_id = br_id r, bkg_event_id = br_event_id r, bkg_user_id = br_user_id r,
      bkg_session_id = br_session_id r, bkg_status = br_status r,
      bkg_total_amount = br_total_amount r, bkg_currency = br_currency r,
      bkg_idempotency_key = br_idempotency_key r, bkg_created_at = Aware (br_created_at r),
      bkg_confirmed_at = map_option Aware (br_confirmed_at r)\<rparr>"

definition booking_apply :: "booking_row \<Rightarrow> booking \<Rightarrow> booking_row" where
  "booking_apply r b =
     r\<lparr>br_status := bkg_status b, br_confirmed_at := map_option dt_instant (bkg_confirmed_at b)\<rparr>"

lemma seat_to_domain_sel [simp]:
  "seat_id (seat_to_domain r) = sr_id r"
  "event_id (seat_to_domain r) = sr_event_id r"
  "status (seat_to_domain r) = sr_status r"
  "version (seat_to_domain r) = sr_version r"
  "held_by_session_id (seat_to_domain r) = sr_held_by r"
  "hold_expires_at (seat_to_domain r) = map_option Aware (sr_expires r)"
  "booking_id (seat_to_domain r) = sr_booking_id r"
  by (simp_all add: seat_to_domain_def)

lemma seat_ok_to_domain [simp]: "seat_ok (seat_to_domain r)"
  by (auto simp: seat_ok_def)

lemma booking_ok_to_domain [simp]: "booking_ok (booking_to_domain r)"
  by (auto simp: booking_ok_def booking_to_domain_def)

lemma bkg_sel_to_domain [simp]:
  "bkg_status (booking_to_domain r) = br_status r"
  "bkg_id (booking_to_domain r) = br_id r"
  by (simp_all add: booking_to_domain_def)

lemma expires_to_domain [simp]: "expires (seat_to_domain r) = sr_expires r"
  by (simp add: expires_def split: option.split)

lemma seat_apply_to_domain: "seat_apply r (seat_to_domain r) = r"
  by (simp add: seat_apply_def option.map_comp comp_def option.map_ident)

lemma seat_to_domain_apply:
  assumes "seat_ok s" and "seat_id s = sr_id r" and "event_id s = sr_event_id r"
  shows "seat_to_domain (seat_apply r s) = s"
proof -
  have "map_option Aware (map_option dt_instant (hold_expires_at s)) = hold_expires_at s"
    using assms(1) by (cases "hold_expires_at s") (auto simp: seat_ok_def tz_aware_iff)
  with assms(2,3) show ?thesis by (simp add: seat_to_domain_def seat_apply_def)
qed

lemma seat_apply_frame [simp]:
  "sr_id (seat_apply r s) = sr_id r"
  "sr_event_id (seat_apply r s) = sr_event_id r"
  "sr_section (seat_apply r s) = sr_section r"
  "sr_row_label (seat_apply r s) = sr_row_label r"
  "sr_seat_number (seat_apply r s) = sr_seat_number r"
  "sr_updated_at (seat_apply r s) = sr_updated_at r"
  by (simp_all add: seat_apply_def)

lemma booking_to_domain_apply:
  assumes "booking_ok b" and "booking_to_domain r = b\<lparr>bkg_status := st, bkg_confirmed_at := c\<rparr>"
  shows "booking_to_domain (booking_apply r b) = b"
proof -
  have "map_option Aware (map_option dt_instant (bkg_confirmed_at b)) = bkg_confirmed_at b"
    using assms(1) by (cases "bkg_confirmed_at b") (auto simp: booking_ok_def tz_aware_iff)
  with assms(2) show ?thesis
    by (cases b) (auto simp: booking_to_domain_def booking_apply_def)
qed

section \<open>The conditions the SQL statements test\<close>

text \<open>
  \<open>hold_expires_at <= now\<close> and \<open>hold_expires_at > now\<close>; both are false on NULL.
\<close>

definition expired_sql :: "instant \<Rightarrow> seat_row \<Rightarrow> bool" where
  "expired_sql now r \<longleftrightarrow> (case sr_expires r of None \<Rightarrow> False | Some e \<Rightarrow> e \<le> now)"

definition unexpired_sql :: "instant \<Rightarrow> seat_row \<Rightarrow> bool" where
  "unexpired_sql now r \<longleftrightarrow> (case sr_expires r of None \<Rightarrow> False | Some e \<Rightarrow> now < e)"

text \<open>\<open>status='AVAILABLE' OR (status='HELD' AND hold_expires_at <= now)\<close>.\<close>

definition reclaimable_sql :: "instant \<Rightarrow> seat_row \<Rightarrow> bool" where
  "reclaimable_sql now r \<longleftrightarrow>
     sr_status r = AVAILABLE \<or> (sr_status r = HELD \<and> expired_sql now r)"

text \<open>\<open>status='HELD' AND held_by_session_id = session AND hold_expires_at > now\<close>.\<close>

definition held_by_sql :: "session_id \<Rightarrow> instant \<Rightarrow> seat_row \<Rightarrow> bool" where
  "held_by_sql session now r \<longleftrightarrow>
     sr_status r = HELD \<and> sr_held_by r = Some session \<and> unexpired_sql now r"

lemma lapsed_to_domain: "lapsed (seat_to_domain r) now \<longleftrightarrow> expired_sql now r"
  by (simp add: lapsed_def expired_sql_def)

lemma holdable_to_domain: "holdable (seat_to_domain r) now \<longleftrightarrow> reclaimable_sql now r"
  by (simp add: holdable_def reclaimable_sql_def lapsed_to_domain)

lemma held_not_reclaimable: "held_by_sql session now r \<Longrightarrow> \<not> reclaimable_sql now r"
  by (auto simp: held_by_sql_def reclaimable_sql_def unexpired_sql_def expired_sql_def
      split: option.splits)

lemma held_by_sql_unique: "held_by_sql s now r \<Longrightarrow> held_by_sql s' now r \<Longrightarrow> s = s'"
  by (simp add: held_by_sql_def)

text \<open>The four invariants of the domain layer, on the database.\<close>

definition row_coherent :: "seat_row \<Rightarrow> bool" where
  "row_coherent r \<longleftrightarrow> coherent (seat_to_domain r)"

definition seats_coherent :: "db \<Rightarrow> bool" where
  "seats_coherent d \<longleftrightarrow> list_all row_coherent (db_seats d)"

definition linkage_ok :: "db \<Rightarrow> bool" where
  "linkage_ok d \<longleftrightarrow>
     check_booking_linkage (map seat_to_domain (db_seats d)) (active_seat_ids d) = Inr ()"

lemma row_coherent_HELD:
  "row_coherent r \<Longrightarrow> sr_status r = HELD \<Longrightarrow>
   \<exists>h e. sr_held_by r = Some h \<and> sr_expires r = Some e \<and> sr_booking_id r = None"
  by (auto simp: row_coherent_def coherent_def)

lemma row_coherent_unexpired:
  "row_coherent r \<Longrightarrow> sr_status r = HELD \<Longrightarrow> unexpired_sql now r \<longleftrightarrow> \<not> expired_sql now r"
  by (auto dest!: row_coherent_HELD simp: unexpired_sql_def expired_sql_def)

lemma linkage_ok_iff:
  "linkage_ok d \<longleftrightarrow>
    (\<forall>r \<in> set (db_seats d). (sr_status r = BOOKED \<longleftrightarrow> sr_id r \<in> active_seat_ids d) \<and>
       (sr_booking_id r \<noteq> None \<longrightarrow> sr_id r \<in> active_seat_ids d))"
  by (simp add: linkage_ok_def check_booking_linkage_iff)

lemma active_seat_ids_frame [simp]:
  "active_seat_ids (d\<lparr>db_seats := x\<rparr>) = active_seat_ids d"
  "active_seat_ids (d\<lparr>db_bookings := y\<rparr>) = active_seat_ids d"
  by (simp_all add: active_seat_ids_def)

lemma seats_coherent_iff: "seats_coherent d \<longleftrightarrow> (\<forall>r \<in> set (db_seats d). row_coherent r)"
  by (simp add: seats_coherent_def list_all_iff)

lemma find_seat_SomeD: "find_seat i d = Some r \<Longrightarrow> r \<in> set (db_seats d) \<and> sr_id r = i"
  by (auto simp: find_seat_def dest: by_key_SomeD)

lemma find_seat_iff:
  "schema_ok d \<Longrightarrow> find_seat i d = Some r \<longleftrightarrow> r \<in> set (db_seats d) \<and> sr_id r = i"
  by (simp add: find_seat_def schema_ok_iff by_key_iff)

lemma find_booking_SomeD: "find_booking i d = Some r \<Longrightarrow> r \<in> set (db_bookings d) \<and> br_id r = i"
  by (auto simp: find_booking_def dest: by_key_SomeD)

lemma find_booking_iff:
  "schema_ok d \<Longrightarrow> find_booking i d = Some r \<longleftrightarrow> r \<in> set (db_bookings d) \<and> br_id r = i"
  by (simp add: find_booking_def schema_ok_iff by_key_iff)

section \<open>Properties\<close>

text \<open>
  The mappers lose nothing. Writing a domain seat back onto its row and reading the row again
  gives that seat, and writing a row's own domain object back leaves the row as it is.
\<close>

theorem mapper_round_trip:
  assumes "seat_ok s" "seat_id s = sr_id r" "event_id s = sr_event_id r"
  shows "seat_to_domain (seat_apply r s) = s \<and> seat_apply r (seat_to_domain r) = r"
  using assms by (simp add: seat_to_domain_apply seat_apply_to_domain)

theorem mapper_round_trip_witness:
  "\<exists>r. seat_to_domain (seat_apply r (held_seat sample_seat ''A'' 100 60)) = held_seat sample_seat ''A'' 100 60"
  using mapper_round_trip [of "held_seat sample_seat ''A'' 100 60"
    "\<lparr>sr_id = 7, sr_event_id = 1, sr_section = ''S'', sr_row_label = ''A'', sr_seat_number = 1,
      sr_status = AVAILABLE, sr_version = 0, sr_held_by = None, sr_expires = None,
      sr_booking_id = None, sr_updated_at = 0\<rparr>"]
  by (auto simp: held_seat_def sample_seat_def seat_ok_def)

end
