(* ===== verification/Metrics.thy ===== *)
theory Metrics
  imports Main
begin

text \<open>
  \<^verbatim>\<open>app/infra/metrics.py\<close>: the counters the operations increment, one constructor each with
  its labels, and their values as a function. The two gauges are set, not incremented.
  Histograms of wall-clock times are left out; \<open>Optimistic_attempts\<close> counts the observations
  of the one histogram over a discrete value.
\<close>

datatype layer = Application | Database

datatype cache_operation = Cache_set | Cache_delete | Cache_get

datatype divergence_kind =
    redis_key_missing_for_held_seat
  | redis_key_present_for_unheld_seat
  | redis_session_mismatch

datatype webhook_outcome = Accepted_outcome | Duplicate_outcome | Unresolved_outcome

datatype metric =
    Deadlocks
  | Lock_timeouts
  | Oversell_blocked layer
  | Optimistic_conflicts
  | Optimistic_retries
  | Optimistic_exhausted
  | Optimistic_attempts nat
  | Sweeper_seats_expired
  | Sweeper_illegal_transition
  | Sweeper_backlog
  | Hold_cache_errors cache_operation
  | Reconciliation_divergence divergence_kind
  | Reconciliation_transient divergence_kind
  | Idempotent_replay
  | Idempotency_conflict
  | Idempotency_in_progress
  | Stale_keys_reaped
  | Stale_keys_recovered
  | Webhook_events string webhook_outcome
  | Webhook_duplicate
  | Webhook_unresolved
  | Webhook_signature_failures
  | Late_payment_refund_required
  | Ws_connections
  | Ws_messages_sent
  | Ws_events_coalesced

type_synonym metrics = "metric \<Rightarrow> nat"

definition inc_by :: "metric \<Rightarrow> nat \<Rightarrow> metrics \<Rightarrow> metrics" where
  "inc_by c n m = m(c := m c + n)"

abbreviation inc :: "metric \<Rightarrow> metrics \<Rightarrow> metrics" where
  "inc c \<equiv> inc_by c 1"

definition set_gauge :: "metric \<Rightarrow> nat \<Rightarrow> metrics \<Rightarrow> metrics" where
  "set_gauge c n m = m(c := n)"

lemma inc_by_apply [simp]: "inc_by c n m c' = (if c' = c then m c + n else m c')"
  by (simp add: inc_by_def)

lemma set_gauge_apply [simp]: "set_gauge c n m c' = (if c' = c then n else m c')"
  by (simp add: set_gauge_def)

end
