(* ===== verification/Strategies.thy ===== *)
theory Strategies
  imports Tables Metrics
begin

text \<open>
  \<^verbatim>\<open>app/inventory/strategies/\<close>: the three ways of turning a list of seat ids into HELD seats.

  Each strategy is one transaction (the optimistic one: one per attempt). A transaction that
  rolls back or raises leaves the database as other sessions left it. Where the code lets
  other sessions commit between its own read and its own write, their effect is an explicit
  argument \<open>env\<close> (for the optimistic strategy this is exactly its
  \<open>_test_hook_after_read\<close>); \<open>env = id\<close> is the run without interference. What
  PostgreSQL answers to a lock request or to the conditional UPDATE, beyond the rows, is an
  argument too: \<open>None\<close>, or the SQLSTATE of the error it raises.
\<close>

section \<open>Results\<close>

datatype reason =
    seat_not_found
  | domain_error exn
  | insufficient_availability nat int
  | retry_budget_exhausted nat

record acquire_result =
  ar_success :: bool
  ar_acquired :: "int list"
  ar_failed :: "int list"
  ar_reason :: "reason option"
  ar_attempts :: nat

definition acquired_result :: "int list \<Rightarrow> nat \<Rightarrow> acquire_result" where
  "acquired_result ids n =
     \<lparr>ar_success = True, ar_acquired = ids, ar_failed = [], ar_reason = None, ar_attempts = n\<rparr>"

definition failed_result :: "int list \<Rightarrow> reason \<Rightarrow> nat \<Rightarrow> acquire_result" where
  "failed_result ids why n =
     \<lparr>ar_success = False, ar_acquired = [], ar_failed = ids, ar_reason = Some why, ar_attempts = n\<rparr>"

lemma result_sel [simp]:
  "ar_success (acquired_result ids n)" "ar_acquired (acquired_result ids n) = ids"
  "ar_attempts (acquired_result ids n) = n" "ar_failed (acquired_result ids n) = []"
  "\<not> ar_success (failed_result ids why n)" "ar_failed (failed_result ids why n) = ids"
  "ar_reason (failed_result ids why n) = Some why" "ar_attempts (failed_result ids why n) = n"
  "ar_acquired (failed_result ids why n) = []"
  by (simp_all add: acquired_result_def failed_result_def)

text \<open>
  What leaves an \<open>acquire()\<close> as an exception: a Python error that is not a \<open>DomainError\<close>, a
  translated infrastructure condition, or a database error passed on as it is.
\<close>

datatype acquire_exn = PyError exn | StrategyUnavailable string | DBAPIError string

type_synonym acquire_outcome = "(acquire_exn + acquire_result) \<times> db \<times> metrics"

section \<open>Steps the strategies share\<close>

definition missing_ids :: "seat_row list \<Rightarrow> int list \<Rightarrow> int list" where
  "missing_ids rows seat_ids = filter (\<lambda>i. by_key sr_id i rows = None) seat_ids"

text \<open>The rows of the requested seats, in the order (and as often) as they are requested.\<close>

definition wanted :: "seat_row list \<Rightarrow> int list \<Rightarrow> seat_row list" where
  "wanted rows seat_ids = List.map_filter (\<lambda>i. by_key sr_id i rows) seat_ids"

text \<open>
  The validation loop: \<open>hold()\<close> on every requested seat. A \<open>DomainError\<close> stops it with the
  seat and the error; any other exception propagates.
\<close>

fun validate_holds :: "session_id \<Rightarrow> timedelta \<Rightarrow> instant \<Rightarrow> seat_row list \<Rightarrow>
    exn + (int \<times> exn) option" where
  "validate_holds holder dur now [] = Inr None"
| "validate_holds holder dur now (r # rs) =
     (case hold (seat_to_domain r) holder (Aware now) dur of
        Inr _ \<Rightarrow> validate_holds holder dur now rs
      | Inl e \<Rightarrow> if is_domain_error e then Inr (Some (sr_id r, e)) else Inl e)"

text \<open>The columns the bulk UPDATEs of the pessimistic and the optimistic strategy set.\<close>

definition hold_row :: "session_id \<Rightarrow> instant \<Rightarrow> instant \<Rightarrow> seat_row \<Rightarrow> seat_row" where
  "hold_row holder expires_at now r =
     r\<lparr>sr_status := HELD, sr_version := sr_version r + 1, sr_held_by := Some holder,
       sr_expires := Some expires_at, sr_updated_at := now\<rparr>"

definition audit_rows :: "int list \<Rightarrow> session_id \<Rightarrow> instant \<Rightarrow> hold_audit_row list" where
  "audit_rows ids holder now =
     map (\<lambda>i. \<lparr>ha_seat_id = i, ha_session_id = holder, ha_acquired_at = now\<rparr>) ids"

section \<open>Strategy A: naive\<close>

text \<open>
  Writing an ORM row back: SQLAlchemy's flush emits \<open>UPDATE seats SET ... WHERE id = :id\<close> with
  the attributes whose value differs from what was loaded, and \<open>updated_at = now()\<close>
  (\<open>onupdate\<close>). The row it hits is whatever the table holds then.
\<close>

definition orm_flush :: "instant \<Rightarrow> seat_row \<Rightarrow> seat_row \<Rightarrow> seat_row \<Rightarrow> seat_row" where
  "orm_flush clock loaded changed cur =
     cur\<lparr>sr_status := (if sr_status changed \<noteq> sr_status loaded then sr_status changed else sr_status cur),
         sr_version := (if sr_version changed \<noteq> sr_version loaded then sr_version changed else sr_version cur),
         sr_held_by := (if sr_held_by changed \<noteq> sr_held_by loaded then sr_held_by changed else sr_held_by cur),
         sr_expires := (if sr_expires changed \<noteq> sr_expires loaded then sr_expires changed else sr_expires cur),
         sr_booking_id := (if sr_booking_id changed \<noteq> sr_booking_id loaded then sr_booking_id changed
                           else sr_booking_id cur),
         sr_updated_at := clock\<rparr>"

text \<open>The keys of a dict filled in this order: first occurrences.\<close>

fun dict_keys :: "'a list \<Rightarrow> 'a list" where
  "dict_keys [] = []"
| "dict_keys (x # xs) = x # filter (\<lambda>y. y \<noteq> x) (dict_keys xs)"

definition naive_write :: "session_id \<Rightarrow> timedelta \<Rightarrow> instant \<Rightarrow> seat_row list \<Rightarrow> int list \<Rightarrow> db \<Rightarrow> db" where
  "naive_write holder dur now rows seat_ids d =
     d\<lparr>db_seats := map (\<lambda>cur. case by_key sr_id (sr_id cur) (wanted rows seat_ids) of
           None \<Rightarrow> cur
         | Some loaded \<Rightarrow>
             (case hold (seat_to_domain loaded) holder (Aware now) dur of
                Inl _ \<Rightarrow> cur
              | Inr s \<Rightarrow> orm_flush (db_clock d) loaded (seat_apply loaded s) cur)) (db_seats d),
       db_hold_audit := db_hold_audit d @ audit_rows (dict_keys seat_ids) holder now\<rparr>"

definition naive_acquire :: "(db \<Rightarrow> db) \<Rightarrow> int list \<Rightarrow> session_id \<Rightarrow> timedelta \<Rightarrow> instant \<Rightarrow>
    db \<Rightarrow> metrics \<Rightarrow> acquire_outcome" where
  "naive_acquire env seat_ids holder dur now d m =
     (let rows = select_seats seat_ids d;
          missing = missing_ids rows seat_ids
      in if missing \<noteq> [] then (Inr (failed_result missing seat_not_found 1), d, m)
         else
           (let d' = env d
            in case validate_holds holder dur now (wanted rows seat_ids) of
                 Inl e \<Rightarrow> (Inl (PyError e), d', m)
               | Inr (Some (i, e)) \<Rightarrow> (Inr (failed_result [i] (domain_error e) 1), d', m)
               | Inr None \<Rightarrow>
                   (Inr (acquired_result (dict_keys seat_ids) 1),
                    naive_write holder dur now rows seat_ids d', m)))"

section \<open>Strategy B: pessimistic\<close>

text \<open>\<open>_raise_translated\<close>: which exception a database error becomes, and what it counts.\<close>

definition raise_translated :: "string \<Rightarrow> metrics \<Rightarrow> acquire_exn \<times> metrics" where
  "raise_translated sqlstate m =
     (if sqlstate = ''55P03''
      then (StrategyUnavailable ''lock_timeout: gave up waiting for a lock'', inc Lock_timeouts m)
      else if sqlstate = ''40P01''
      then (StrategyUnavailable ''deadlock detected while acquiring locks'', inc Deadlocks m)
      else (DBAPIError sqlstate, m))"

definition commit_holds :: "int list \<Rightarrow> session_id \<Rightarrow> timedelta \<Rightarrow> instant \<Rightarrow> db \<Rightarrow> db" where
  "commit_holds seat_ids holder dur now d =
     d\<lparr>db_seats := upd_where (\<lambda>r. sr_id r \<in> set seat_ids) (hold_row holder (now + dur) now) (db_seats d),
       db_hold_audit := db_hold_audit d @ audit_rows seat_ids holder now\<rparr>"

text \<open>
  Mode (a). From the moment the locks are granted no other session can change the rows, so
  the rest of the transaction runs on the database of that moment.
\<close>

definition pessimistic_acquire :: "string option \<Rightarrow> int list \<Rightarrow> session_id \<Rightarrow> timedelta \<Rightarrow> instant \<Rightarrow>
    db \<Rightarrow> metrics \<Rightarrow> acquire_outcome" where
  "pessimistic_acquire lock_error seat_ids holder dur now d m =
     (case lock_error of
        Some sqlstate \<Rightarrow> (let (e, m') = raise_translated sqlstate m in (Inl e, d, m'))
      | None \<Rightarrow>
         (let rows = sort_key sr_id (select_seats seat_ids d);
              missing = missing_ids rows seat_ids
          in if missing \<noteq> [] then (Inr (failed_result missing seat_not_found 1), d, m)
             else case validate_holds holder dur now (wanted rows seat_ids) of
                 Inl e \<Rightarrow> (Inl (PyError e), d, m)
               | Inr (Some (i, e)) \<Rightarrow>
                   (Inr (failed_result [i] (domain_error e) 1), d, inc (Oversell_blocked Application) m)
               | Inr None \<Rightarrow>
                   (Inr (acquired_result seat_ids 1), commit_holds seat_ids holder dur now d, m)))"

text \<open>
  Mode (b): any \<open>count\<close> seats of the event. \<open>locked\<close> are the rows other transactions hold
  locks on: SKIP LOCKED passes over them. A negative LIMIT is an error (2201W).
\<close>

definition any_n_rows :: "int set \<Rightarrow> int \<Rightarrow> int \<Rightarrow> instant \<Rightarrow> db \<Rightarrow> seat_row list" where
  "any_n_rows locked evt count now d =
     take (nat count)
       (filter (\<lambda>r. sr_id r \<notin> locked)
         (sort_key sr_id
           (filter (\<lambda>r. sr_event_id r = evt \<and> reclaimable_sql now r) (db_seats d))))"

definition acquire_any_n :: "string option \<Rightarrow> int set \<Rightarrow> int \<Rightarrow> int \<Rightarrow> session_id \<Rightarrow> timedelta \<Rightarrow>
    instant \<Rightarrow> db \<Rightarrow> metrics \<Rightarrow> acquire_outcome" where
  "acquire_any_n lock_error locked evt count holder dur now d m =
     (case (if count < 0 then Some ''2201W'' else lock_error) of
        Some sqlstate \<Rightarrow> (let (e, m') = raise_translated sqlstate m in (Inl e, d, m'))
      | None \<Rightarrow>
         (let rows = any_n_rows locked evt count now d; seat_ids = map sr_id rows
          in if int (length rows) < count
             then (Inr (failed_result seat_ids (insufficient_availability (length rows) count) 1), d, m)
             else case validate_holds holder dur now rows of
                 Inl e \<Rightarrow> (Inl (PyError e), d, m)
               | Inr (Some (i, e)) \<Rightarrow>
                   (Inr (failed_result [i] (domain_error e) 1), d, inc (Oversell_blocked Application) m)
               | Inr None \<Rightarrow>
                   (Inr (acquired_result seat_ids 1), commit_holds seat_ids holder dur now d, m)))"

section \<open>Strategy C: optimistic\<close>

text \<open>
  The WHERE clause of the conditional UPDATE: the row is one of the joined
  \<open>(id, expected_version)\<close> pairs and still reclaimable.
\<close>

definition expected_version :: "seat_row list \<Rightarrow> int \<Rightarrow> int option" where
  "expected_version rows i = map_option sr_version (by_key sr_id i rows)"

definition update_matches :: "seat_row list \<Rightarrow> int list \<Rightarrow> instant \<Rightarrow> seat_row \<Rightarrow> bool" where
  "update_matches rows seat_ids now r \<longleftrightarrow>
     sr_id r \<in> set seat_ids \<and> expected_version rows (sr_id r) = Some (sr_version r) \<and>
     reclaimable_sql now r"

text \<open>
  \<open>_attempt_update\<close>: the row count with the updated table, or the exception. A deadlock
  counts as zero rows, after a rollback.
\<close>

definition attempt_update :: "string option \<Rightarrow> seat_row list \<Rightarrow> int list \<Rightarrow> session_id \<Rightarrow> timedelta \<Rightarrow>
    instant \<Rightarrow> db \<Rightarrow> metrics \<Rightarrow> (acquire_exn + nat) \<times> db \<times> metrics" where
  "attempt_update update_error rows seat_ids holder dur now d m =
     (case update_error of
        Some sqlstate \<Rightarrow>
          (if sqlstate = ''40P01'' then (Inr 0, d, inc Deadlocks m) else (Inl (DBAPIError sqlstate), d, m))
      | None \<Rightarrow>
          (Inr (rowcount (update_matches rows seat_ids now) (db_seats d)),
           d\<lparr>db_seats := upd_where (update_matches rows seat_ids now)
               (hold_row holder (now + dur) now) (db_seats d)\<rparr>,
           m))"

text \<open>
  The retry loop: \<open>left\<close> attempts remain, this one is number \<open>attempt\<close>. \<open>env attempt\<close> is what
  other sessions commit between this attempt's read and its UPDATE, \<open>gap attempt\<close> what they
  commit during the backoff after it.
\<close>

fun optimistic_loop :: "(nat \<Rightarrow> db \<Rightarrow> db) \<Rightarrow> (nat \<Rightarrow> db \<Rightarrow> db) \<Rightarrow> (nat \<Rightarrow> string option) \<Rightarrow> nat \<Rightarrow> nat \<Rightarrow>
    int list \<Rightarrow> session_id \<Rightarrow> timedelta \<Rightarrow> instant \<Rightarrow> db \<Rightarrow> metrics \<Rightarrow> acquire_outcome" where
  "optimistic_loop env gap errs 0 attempt seat_ids holder dur now d m =
     (Inr (failed_result seat_ids (retry_budget_exhausted (attempt - 1)) (attempt - 1)), d,
      inc Optimistic_exhausted m)"
| "optimistic_loop env gap errs (Suc left) attempt seat_ids holder dur now d m =
     (let rows = select_seats seat_ids d;
          missing = missing_ids rows seat_ids
      in if missing \<noteq> [] then (Inr (failed_result missing seat_not_found attempt), d, m)
         else case validate_holds holder dur now (wanted rows seat_ids) of
             Inl e \<Rightarrow> (Inl (PyError e), d, m)
           | Inr (Some (i, e)) \<Rightarrow>
               (Inr (failed_result [i] (domain_error e) attempt), d, inc (Oversell_blocked Application) m)
           | Inr None \<Rightarrow>
               (let d1 = env attempt d
                in case attempt_update (errs attempt) rows seat_ids holder dur now d1 m of
                     (Inl e, d2, m2) \<Rightarrow> (Inl e, d1, m2)
                   | (Inr n, d2, m2) \<Rightarrow>
                       if n = length seat_ids
                       then (Inr (acquired_result seat_ids attempt),
                             d2\<lparr>db_hold_audit := db_hold_audit d2 @ audit_rows seat_ids holder now\<rparr>,
                             inc (Optimistic_attempts attempt) m2)
                       else
                         (let m3 = inc Optimistic_conflicts m2
                          in if left \<noteq> 0
                             then optimistic_loop env gap errs left (attempt + 1) seat_ids holder dur now
                                    (gap attempt d1) (inc Optimistic_retries m3)
                             else optimistic_loop env gap errs left (attempt + 1) seat_ids holder dur now
                                    d1 m3)))"

definition optimistic_acquire :: "(nat \<Rightarrow> db \<Rightarrow> db) \<Rightarrow> (nat \<Rightarrow> db \<Rightarrow> db) \<Rightarrow> (nat \<Rightarrow> string option) \<Rightarrow> nat \<Rightarrow>
    int list \<Rightarrow> session_id \<Rightarrow> timedelta \<Rightarrow> instant \<Rightarrow> db \<Rightarrow> metrics \<Rightarrow> acquire_outcome" where
  "optimistic_acquire env gap errs max_attempts = optimistic_loop env gap errs max_attempts 1"

text \<open>
  \<open>_backoff\<close>: the bounds of the sleep before the next attempt, in the unit of the base. With
  full jitter the delay is drawn from \<open>0\<close> to the ceiling, without it is the ceiling.
\<close>

definition backoff_ceiling :: "int \<Rightarrow> nat \<Rightarrow> int" where
  "backoff_ceiling base attempt = base * 2 ^ (attempt - 1)"

definition backoff_range :: "bool \<Rightarrow> int \<Rightarrow> nat \<Rightarrow> int \<times> int" where
  "backoff_range full_jitter base attempt =
     (if full_jitter then (0, backoff_ceiling base attempt)
      else (backoff_ceiling base attempt, backoff_ceiling base attempt))"

section \<open>Strategy selection\<close>

datatype strategy = NaiveStrategy | PessimisticStrategy | OptimisticStrategy

definition get_strategy :: "string \<Rightarrow> exn + strategy" where
  "get_strategy name =
     (if name = ''naive'' then Inr NaiveStrategy
      else if name = ''pessimistic'' then Inr PessimisticStrategy
      else if name = ''optimistic'' then Inr OptimisticStrategy
      else Inl ValueError)"

text \<open>
  One acquisition by the configured strategy, among other sessions: \<open>ae_race k\<close> is what they commit
  between the read and the write of attempt \<open>k\<close> (for the pessimistic strategy: until its locks
  are granted), \<open>ae_gap k\<close> what they commit while attempt \<open>k\<close> backs off; the errors are the answers
  of PostgreSQL.
\<close>

record acquire_env =
  ae_race :: "nat \<Rightarrow> db \<Rightarrow> db"
  ae_gap :: "nat \<Rightarrow> db \<Rightarrow> db"
  ae_lock_error :: "string option"
  ae_update_errors :: "nat \<Rightarrow> string option"
  ae_max_attempts :: nat

fun acquire :: "strategy \<Rightarrow> acquire_env \<Rightarrow> int list \<Rightarrow> session_id \<Rightarrow> timedelta \<Rightarrow> instant \<Rightarrow>
    db \<Rightarrow> metrics \<Rightarrow> acquire_outcome" where
  "acquire NaiveStrategy e ids h dur now d m = naive_acquire (ae_race e 1) ids h dur now d m"
| "acquire PessimisticStrategy e ids h dur now d m =
     pessimistic_acquire (ae_lock_error e) ids h dur now (ae_race e 1 d) m"
| "acquire OptimisticStrategy e ids h dur now d m =
     optimistic_acquire (ae_race e) (ae_gap e) (ae_update_errors e) (ae_max_attempts e) ids h dur now d m"

definition undisturbed :: "acquire_env \<Rightarrow> acquire_env" where
  "undisturbed e = e\<lparr>ae_race := \<lambda>_. id, ae_gap := \<lambda>_. id\<rparr>"

end
