(* ===== verification/Strategy_Contract.thy ===== *)
theory Strategy_Contract
  imports Strategies
begin

text \<open>
  The contract of \<open>SeatAcquisitionStrategy\<close> (\<^verbatim>\<open>app/inventory/strategies/base.py\<close>): what the
  routes rely on whichever strategy is configured. It is stated as a locale, its consequences
  are proved once, and the three strategies of the code are interpreted in it.
\<close>

section \<open>Facts about the shared steps\<close>

lemma missing_ids_Nil_iff: "missing_ids rows ids = [] \<longleftrightarrow> (\<forall>i \<in> set ids. by_key sr_id i rows \<noteq> None)"
  by (auto simp: missing_ids_def filter_empty_conv)

lemma by_key_select [simp]: "i \<in> set ids \<Longrightarrow> by_key sr_id i (select_seats ids d) = find_seat i d"
proof -
  assume i: "i \<in> set ids"
  have "by_key sr_id i (filter (\<lambda>r. sr_id r \<in> set ids) rs) = by_key sr_id i rs" for rs
    using i by (induction rs) auto
  then show ?thesis by (simp add: select_seats_def find_seat_def)
qed

lemma by_key_sort_key:
  assumes "distinct (map key rs)"
  shows "by_key key i (sort_key f rs) = by_key key i rs"
proof -
  have d: "distinct (map key (sort_key f rs))"
    using assms by (simp add: distinct_map)
  have "by_key key i (sort_key f rs) = Some r \<longleftrightarrow> by_key key i rs = Some r" for r
    using assms d by (simp add: by_key_iff)
  then show ?thesis by (metis not_None_eq)
qed

lemma wanted_cong:
  "(\<And>i. i \<in> set ids \<Longrightarrow> by_key sr_id i rows = by_key sr_id i rows') \<Longrightarrow> wanted rows ids = wanted rows' ids"
  by (induction ids) (auto simp: wanted_def map_filter_simps split: option.splits)

lemma set_wanted: "set (wanted rows ids) = {r. \<exists>i \<in> set ids. by_key sr_id i rows = Some r}"
  by (induction ids) (auto simp: wanted_def map_filter_simps split: option.splits)

lemma wanted_Nil_iff: "missing_ids rows ids = [] \<Longrightarrow> wanted rows ids = [] \<longleftrightarrow> ids = []"
  by (cases ids) (auto simp: wanted_def map_filter_simps missing_ids_Nil_iff split: option.splits)

lemma validate_holds_None_iff:
  "validate_holds holder dur now rs = Inr None \<longleftrightarrow>
    (rs \<noteq> [] \<longrightarrow> 0 < dur) \<and> (\<forall>r \<in> set rs. reclaimable_sql now r)"
proof (induction rs)
  case Nil
  then show ?case by simp
next
  case (Cons r rs)
  have ok: "hold (seat_to_domain r) holder (Aware now) dur = Inr t \<longleftrightarrow>
      0 < dur \<and> reclaimable_sql now r \<and> t = held_seat (seat_to_domain r) holder now dur" for t
    by (simp add: hold_Inr_iff holdable_to_domain)
  show ?case
  proof (cases "hold (seat_to_domain r) holder (Aware now) dur")
    case (Inr t)
    with ok have "0 < dur \<and> reclaimable_sql now r" by blast
    with Inr Cons show ?thesis by auto
  next
    case (Inl e)
    with ok have "\<not> (0 < dur \<and> reclaimable_sql now r)" by fastforce
    with Inl show ?thesis by auto
  qed
qed

text \<open>
  The first seat that cannot be held is the one reported, with the domain layer's reason.
\<close>

lemma validate_holds_SomeD:
  "validate_holds holder dur now rs = Inr (Some (i, e)) \<Longrightarrow>
   \<exists>r \<in> set rs. sr_id r = i \<and> \<not> reclaimable_sql now r \<and> 0 < dur \<and>
     (\<exists>why. e = SeatUnavailable i why)"
proof (induction rs)
  case Nil
  then show ?case by simp
next
  case (Cons r rs)
  show ?case
  proof (cases "hold (seat_to_domain r) holder (Aware now) dur")
    case (Inr t)
    with Cons show ?thesis by auto
  next
    case (Inl x)
    have "0 < dur"
      using Inl Cons.prems by (cases "0 < dur") (auto simp: hold_def)
    with Inl Cons.prems show ?thesis
      by (auto simp: hold_aware holdable_to_domain split: if_splits)
  qed
qed

lemma validate_holds_Inl:
  "validate_holds holder dur now rs = Inl e \<Longrightarrow> e = ValueError \<and> dur \<le> 0 \<and> rs \<noteq> []"
proof (induction rs)
  case Nil
  then show ?case by simp
next
  case (Cons r rs)
  show ?case
  proof (cases "0 < dur")
    case True
    with Cons show ?thesis
      by (auto simp: hold_aware split: if_splits)
  next
    case False
    with Cons.prems show ?thesis by (auto simp: hold_def)
  qed
qed

lemma select_ready_iff:
  assumes "missing_ids (select_seats ids d) ids = []"
  shows "validate_holds holder dur now (wanted (select_seats ids d) ids) = Inr None \<longleftrightarrow>
    (ids \<noteq> [] \<longrightarrow> 0 < dur) \<and>
    (\<forall>i \<in> set ids. \<exists>r. find_seat i d = Some r \<and> reclaimable_sql now r)"
proof -
  have "find_seat i d \<noteq> None" if "i \<in> set ids" for i
    using assms that by (simp add: missing_ids_Nil_iff)
  then show ?thesis
    using wanted_Nil_iff [OF assms] by (auto simp: validate_holds_None_iff set_wanted)
qed

lemma dict_keys_set [simp]: "set (dict_keys xs) = set xs"
  by (induction xs) auto

lemma dict_keys_distinct [simp]: "distinct (dict_keys xs)"
  by (induction xs) auto

lemma dict_keys_id: "distinct xs \<Longrightarrow> dict_keys xs = xs"
  by (induction xs) (auto intro!: filter_True)

lemma hold_row_frame [simp]:
  "sr_id (hold_row h e t r) = sr_id r"
  "sr_event_id (hold_row h e t r) = sr_event_id r"
  "sr_section (hold_row h e t r) = sr_section r"
  "sr_row_label (hold_row h e t r) = sr_row_label r"
  "sr_seat_number (hold_row h e t r) = sr_seat_number r"
  "sr_booking_id (hold_row h e t r) = sr_booking_id r"
  "sr_status (hold_row h e t r) = HELD"
  "sr_version (hold_row h e t r) = sr_version r + 1"
  "sr_held_by (hold_row h e t r) = Some h"
  "sr_expires (hold_row h e t r) = Some e"
  by (simp_all add: hold_row_def)

section \<open>The effect of a successful acquisition\<close>

text \<open>
  Exactly the requested rows become HELD by \<open>h\<close> until \<open>e\<close>, every version goes up by one, and
  the audit trail grows by the rows of \<open>aud\<close>.
\<close>

definition held_db :: "int list \<Rightarrow> int list \<Rightarrow> session_id \<Rightarrow> instant \<Rightarrow> instant \<Rightarrow> instant \<Rightarrow> db \<Rightarrow> db" where
  "held_db ids aud h e t now d =
     d\<lparr>db_seats := upd_where (\<lambda>r. sr_id r \<in> set ids) (hold_row h e t) (db_seats d),
       db_hold_audit := db_hold_audit d @ audit_rows aud h now\<rparr>"

lemma held_db_sel [simp]:
  "db_seats (held_db ids aud h e t now d) = upd_where (\<lambda>r. sr_id r \<in> set ids) (hold_row h e t) (db_seats d)"
  "db_booking_seats (held_db ids aud h e t now d) = db_booking_seats d"
  "db_bookings (held_db ids aud h e t now d) = db_bookings d"
  "db_events (held_db ids aud h e t now d) = db_events d"
  "db_idempotency_keys (held_db ids aud h e t now d) = db_idempotency_keys d"
  "db_payment_events (held_db ids aud h e t now d) = db_payment_events d"
  "db_outbox (held_db ids aud h e t now d) = db_outbox d"
  "db_next_booking (held_db ids aud h e t now d) = db_next_booking d"
  "db_clock (held_db ids aud h e t now d) = db_clock d"
  "active_seat_ids (held_db ids aud h e t now d) = active_seat_ids d"
  by (simp_all add: held_db_def active_seat_ids_def)

lemma held_db_map_key:
  "map sr_id (db_seats (held_db ids aud h e t now d)) = map sr_id (db_seats d)"
  "map seat_place (db_seats (held_db ids aud h e t now d)) = map seat_place (db_seats d)"
  by (simp_all add: map_upd_where seat_place_def)

lemma held_db_schema_ok: "schema_ok d \<Longrightarrow> schema_ok (held_db ids aud h e t now d)"
  using held_db_map_key [of ids aud h e t now d]
  by (simp add: schema_ok_iff one_active_booking_per_seat_def)

lemma held_db_find_seat:
  "find_seat i (held_db ids aud h e t now d) =
     (if i \<in> set ids then map_option (hold_row h e t) (find_seat i d) else find_seat i d)"
proof (cases "find_seat i d")
  case None
  then show ?thesis by (simp add: find_seat_def by_key_upd_where)
next
  case (Some r)
  then show ?thesis
    using find_seat_SomeD [OF Some] by (simp add: find_seat_def by_key_upd_where)
qed

lemma held_db_coherent:
  assumes "seats_coherent d"
    and "\<forall>i \<in> set ids. \<exists>r. find_seat i d = Some r \<and> reclaimable_sql now r" and "schema_ok d"
  shows "seats_coherent (held_db ids aud h e t now d)"
proof -
  have "row_coherent (hold_row h e t r)" if r: "r \<in> set (db_seats d)" and i: "sr_id r \<in> set ids" for r
  proof -
    have "find_seat (sr_id r) d = Some r" using r assms(3) by (simp add: find_seat_iff)
    with assms(2) i have "reclaimable_sql now r" by fastforce
    moreover from assms(1) r have "row_coherent r" by (simp add: seats_coherent_iff)
    ultimately show ?thesis
      by (auto simp: row_coherent_def coherent_def reclaimable_sql_def)
  qed
  with assms(1) show ?thesis
    by (auto simp: seats_coherent_iff set_upd_where)
qed

lemma reclaimable_not_active:
  "linkage_ok d \<Longrightarrow> r \<in> set (db_seats d) \<Longrightarrow> reclaimable_sql now r \<Longrightarrow> sr_id r \<notin> active_seat_ids d"
  by (auto simp: linkage_ok_iff reclaimable_sql_def)

lemma held_db_linkage:
  assumes "linkage_ok d"
    and "\<forall>i \<in> set ids. \<exists>r. find_seat i d = Some r \<and> reclaimable_sql now r" and "schema_ok d"
  shows "linkage_ok (held_db ids aud h e t now d)"
proof -
  have "sr_id r \<notin> active_seat_ids d" if r: "r \<in> set (db_seats d)" and i: "sr_id r \<in> set ids" for r
  proof -
    have "find_seat (sr_id r) d = Some r" using r assms(3) by (simp add: find_seat_iff)
    with assms(2) i have "reclaimable_sql now r" by fastforce
    with assms(1) r show ?thesis by (rule reclaimable_not_active)
  qed
  with assms(1) show ?thesis
    by (auto simp: linkage_ok_iff set_upd_where split: if_splits)
qed

section \<open>The contract\<close>

locale seat_acquisition =
  fixes acquire :: "int list \<Rightarrow> session_id \<Rightarrow> timedelta \<Rightarrow> instant \<Rightarrow> db \<Rightarrow> metrics \<Rightarrow> acquire_outcome"
  assumes won: "schema_ok d \<Longrightarrow> seats_coherent d \<Longrightarrow>
      acquire ids h dur now d m = (Inr r, d', m') \<Longrightarrow> ar_success r \<Longrightarrow>
      (ids \<noteq> [] \<longrightarrow> 0 < dur) \<and>
      (\<forall>i \<in> set ids. \<exists>row. find_seat i d = Some row \<and> reclaimable_sql now row) \<and>
      set (ar_acquired r) = set ids \<and>
      (\<exists>t aud. set aud = set ids \<and> d' = held_db ids aud h (now + dur) t now d)"
    and lost: "acquire ids h dur now d m = (Inr r, d', m') \<Longrightarrow> \<not> ar_success r \<Longrightarrow> d' = d"
    and raised: "acquire ids h dur now d m = (Inl x, d', m') \<Longrightarrow> d' = d"
begin

lemma not_won:
  assumes "acquire ids h dur now d m = (res, d', m')" "\<forall>r. res = Inr r \<longrightarrow> \<not> ar_success r"
  shows "d' = d"
proof (cases res)
  case (Inl x)
  with assms(1) raised show ?thesis by blast
next
  case (Inr r)
  with assms lost show ?thesis by blast
qed

lemma changed:
  assumes "schema_ok d" "seats_coherent d" "acquire ids h dur now d m = (res, d', m')" "d' \<noteq> d"
  shows "\<exists>t aud. (\<forall>i \<in> set ids. \<exists>row. find_seat i d = Some row \<and> reclaimable_sql now row) \<and>
    d' = held_db ids aud h (now + dur) t now d"
proof (cases res)
  case (Inl x)
  with assms raised show ?thesis by blast
next
  case (Inr r)
  with assms lost have "ar_success r" by blast
  with Inr assms(3) won [OF assms(1,2), of ids h dur now m r d' m'] show ?thesis by blast
qed

text \<open>Whatever an acquisition does, it keeps the schema, coherence and linkage.\<close>

lemma keeps_schema:
  assumes "schema_ok d" "seats_coherent d" "acquire ids h dur now d m = (res, d', m')"
  shows "schema_ok d'"
  using assms changed [OF assms] held_db_schema_ok by (cases "d' = d") auto

lemma keeps_coherent:
  assumes "schema_ok d" "seats_coherent d" "acquire ids h dur now d m = (res, d', m')"
  shows "seats_coherent d'"
  using assms changed [OF assms] held_db_coherent by (cases "d' = d") auto

lemma keeps_linkage:
  assumes "schema_ok d" "seats_coherent d" "linkage_ok d" "acquire ids h dur now d m = (res, d', m')"
  shows "linkage_ok d'"
  using assms changed [OF assms(1,2,4)] held_db_linkage by (cases "d' = d") auto

lemma keeps_seats:
  assumes "schema_ok d" "seats_coherent d" "acquire ids h dur now d m = (res, d', m')"
  shows "map sr_id (db_seats d') = map sr_id (db_seats d)"
  using assms changed [OF assms] held_db_map_key(1) by (cases "d' = d") (auto simp del: held_db_sel)

text \<open>The winner holds every requested seat until the hold runs out.\<close>

lemma winner_holds:
  assumes "schema_ok d" "seats_coherent d" "acquire ids h dur now d m = (Inr r, d', m')" "ar_success r"
    and "i \<in> set ids" "now' < now + dur"
  shows "\<exists>row. find_seat i d' = Some row \<and> held_by_sql h now' row"
proof -
  obtain t aud row where "d' = held_db ids aud h (now + dur) t now d" "find_seat i d = Some row"
    using won [OF assms(1-4)] assms(5) by blast
  then show ?thesis
    using assms(5,6) by (simp add: held_db_find_seat held_by_sql_def unexpired_sql_def)
qed

text \<open>No second acquisition of any of those seats succeeds before that.\<close>

lemma exclusive:
  assumes "schema_ok d" "seats_coherent d" "acquire ids h dur now d m = (Inr r, d', m')" "ar_success r"
    and "i \<in> set ids" "i \<in> set ids2" "now2 < now + dur"
    and "acquire ids2 h2 dur2 now2 d' m2 = (Inr r2, d'', m'')"
  shows "\<not> ar_success r2 \<and> d'' = d'"
proof -
  obtain row where row: "find_seat i d' = Some row" "held_by_sql h now2 row"
    using winner_holds [OF assms(1-4,5,7)] by blast
  have "\<not> ar_success r2"
  proof
    assume "ar_success r2"
    then have "\<exists>row. find_seat i d' = Some row \<and> reclaimable_sql now2 row"
      using won [OF keeps_schema [OF assms(1-3)] keeps_coherent [OF assms(1-3)] assms(8)] assms(6)
      by blast
    with row held_not_reclaimable show False by auto
  qed
  with lost assms(8) show ?thesis by blast
qed

end

end
