(* ===== verification/Strategy_Instances.thy ===== *)
theory Strategy_Instances
  imports Strategy_Contract
begin

text \<open>
  The three strategies meet the contract. The naive one does so only without interference
  (\<open>env = id\<close>), which is exactly what its TOCTOU race breaks; the pessimistic one under every
  answer of the lock manager; the optimistic one without interference, and in a form that
  holds under any interference: a win is a win on the database the write itself found.
\<close>

section \<open>Naive\<close>

lemma by_key_wanted:
  "by_key sr_id i (wanted rows ids) = (if i \<in> set ids then by_key sr_id i rows else None)"
proof (induction ids)
  case Nil
  then show ?case by (simp add: wanted_def map_filter_simps)
next
  case (Cons j ids)
  then show ?case
    by (auto simp: wanted_def map_filter_simps dest: by_key_SomeD split: option.splits)
qed

lemma orm_flush_held:
  assumes "row_coherent r" "reclaimable_sql now r"
  shows "orm_flush c r (seat_apply r (held_seat (seat_to_domain r) h now dur)) r = hold_row h (now + dur) c r"
proof -
  have "sr_booking_id r = None"
    using assms by (auto simp: row_coherent_def coherent_def reclaimable_sql_def)
  then show ?thesis by (simp add: orm_flush_def seat_apply_def held_seat_def hold_row_def)
qed

lemma naive_write_held:
  assumes "schema_ok d" "seats_coherent d" "ids \<noteq> [] \<longrightarrow> 0 < dur"
    and "\<forall>i \<in> set ids. \<exists>r. find_seat i d = Some r \<and> reclaimable_sql now r"
  shows "naive_write h dur now (select_seats ids d) ids d =
    held_db ids (dict_keys ids) h (now + dur) (db_clock d) now d"
proof -
  have "(case by_key sr_id (sr_id r) (wanted (select_seats ids d) ids) of
           None \<Rightarrow> r
         | Some loaded \<Rightarrow>
             (case hold (seat_to_domain loaded) h (Aware now) dur of
                Inl _ \<Rightarrow> r
              | Inr s \<Rightarrow> orm_flush (db_clock d) loaded (seat_apply loaded s) r)) =
        (if sr_id r \<in> set ids then hold_row h (now + dur) (db_clock d) r else r)"
    if r: "r \<in> set (db_seats d)" for r
  proof (cases "sr_id r \<in> set ids")
    case True
    have f: "find_seat (sr_id r) d = Some r" using r assms(1) by (simp add: find_seat_iff)
    with assms(4) True have "reclaimable_sql now r" by fastforce
    moreover from True assms(3) have "0 < dur" by auto
    moreover from r assms(2) have "row_coherent r" by (simp add: seats_coherent_iff)
    ultimately show ?thesis
      using True f by (simp add: by_key_wanted hold_aware holdable_to_domain orm_flush_held)
  qed (simp add: by_key_wanted)
  then show ?thesis
    by (simp add: naive_write_def held_db_def upd_where_def)
qed

lemma naive_outcome:
  assumes "naive_acquire env ids h dur now d m = (Inr r, d', m')" "ar_success r"
  shows "missing_ids (select_seats ids d) ids = []"
    and "(ids \<noteq> [] \<longrightarrow> 0 < dur) \<and> (\<forall>i \<in> set ids. \<exists>r. find_seat i d = Some r \<and> reclaimable_sql now r)"
    and "r = acquired_result (dict_keys ids) 1"
    and "d' = naive_write h dur now (select_seats ids d) ids (env d)"
proof -
  show miss: "missing_ids (select_seats ids d) ids = []"
    using assms by (auto simp: naive_acquire_def Let_def split: if_splits)
  have v: "validate_holds h dur now (wanted (select_seats ids d) ids) = Inr None \<and>
      r = acquired_result (dict_keys ids) 1 \<and>
      d' = naive_write h dur now (select_seats ids d) ids (env d)"
    using assms miss by (auto simp: naive_acquire_def Let_def split: sum.splits option.splits)
  then show "r = acquired_result (dict_keys ids) 1"
    and "d' = naive_write h dur now (select_seats ids d) ids (env d)" by auto
  from v show "(ids \<noteq> [] \<longrightarrow> 0 < dur) \<and>
      (\<forall>i \<in> set ids. \<exists>r. find_seat i d = Some r \<and> reclaimable_sql now r)"
    using select_ready_iff [OF miss] by blast
qed

lemma naive_lost:
  "naive_acquire env ids h dur now d m = (Inr r, d', m') \<Longrightarrow> \<not> ar_success r \<Longrightarrow> d' = d \<or> d' = env d"
  "naive_acquire env ids h dur now d m = (Inl x, d', m') \<Longrightarrow> d' = env d"
  by (auto simp: naive_acquire_def Let_def split: if_splits sum.splits option.splits)

interpretation naive: seat_acquisition "naive_acquire id"
proof unfold_locales
  fix d ids h dur now m r d' m'
  assume a: "schema_ok d" "seats_coherent d"
    and acq: "naive_acquire id ids h dur now d m = (Inr r, d', m')" and succ: "ar_success r"
  note out = naive_outcome [OF acq succ]
  have "d' = held_db ids (dict_keys ids) h (now + dur) (db_clock d) now d"
    using out(2,4) naive_write_held [OF a] by simp
  then have "\<exists>t aud. set aud = set ids \<and> d' = held_db ids aud h (now + dur) t now d"
    by (intro exI [of _ "db_clock d"] exI [of _ "dict_keys ids"] conjI) simp_all
  then show "(ids \<noteq> [] \<longrightarrow> 0 < dur) \<and>
      (\<forall>i \<in> set ids. \<exists>row. find_seat i d = Some row \<and> reclaimable_sql now row) \<and>
      set (ar_acquired r) = set ids \<and>
      (\<exists>t aud. set aud = set ids \<and> d' = held_db ids aud h (now + dur) t now d)"
    using out(2,3) by auto
next
  fix ids h dur now d m r d' m'
  assume "naive_acquire id ids h dur now d m = (Inr r, d', m')" "\<not> ar_success r"
  then show "d' = d" using naive_lost(1) by fastforce
next
  fix ids h dur now d m x d' m'
  assume "naive_acquire id ids h dur now d m = (Inl x, d', m')"
  then show "d' = d" using naive_lost(2) by fastforce
qed

section \<open>Pessimistic\<close>

lemma sorted_select:
  assumes "schema_ok d"
  shows "by_key sr_id i (sort_key sr_id (select_seats ids d)) = by_key sr_id i (select_seats ids d)"
  using assms by (intro by_key_sort_key) (auto simp: schema_ok_iff select_seats_def intro: distinct_map_filter)

lemma sorted_select_missing:
  "schema_ok d \<Longrightarrow> missing_ids (sort_key sr_id (select_seats ids d)) ids = missing_ids (select_seats ids d) ids"
  by (simp add: missing_ids_def sorted_select)

lemma sorted_select_wanted:
  "schema_ok d \<Longrightarrow> wanted (sort_key sr_id (select_seats ids d)) ids = wanted (select_seats ids d) ids"
  by (intro wanted_cong) (simp add: sorted_select)

lemma commit_holds_held: "commit_holds ids h dur now d = held_db ids ids h (now + dur) now now d"
  by (simp add: commit_holds_def held_db_def)

lemma pessimistic_outcome:
  assumes "schema_ok d" "pessimistic_acquire err ids h dur now d m = (Inr r, d', m')" "ar_success r"
  shows "(ids \<noteq> [] \<longrightarrow> 0 < dur) \<and> (\<forall>i \<in> set ids. \<exists>r. find_seat i d = Some r \<and> reclaimable_sql now r)"
    and "r = acquired_result ids 1" and "d' = held_db ids ids h (now + dur) now now d" and "err = None"
proof -
  show err: "err = None"
    using assms(2) by (cases err) (auto simp: pessimistic_acquire_def split: prod.splits)
  have miss: "missing_ids (select_seats ids d) ids = []"
    using assms err
    by (auto simp: pessimistic_acquire_def Let_def sorted_select_missing split: if_splits)
  have v: "validate_holds h dur now (wanted (select_seats ids d) ids) = Inr None \<and>
      r = acquired_result ids 1 \<and> d' = commit_holds ids h dur now d"
    using assms miss err
    by (auto simp: pessimistic_acquire_def Let_def sorted_select_missing sorted_select_wanted
        split: sum.splits option.splits)
  then show "r = acquired_result ids 1" "d' = held_db ids ids h (now + dur) now now d"
    by (simp_all add: commit_holds_held)
  from v show "(ids \<noteq> [] \<longrightarrow> 0 < dur) \<and>
      (\<forall>i \<in> set ids. \<exists>r. find_seat i d = Some r \<and> reclaimable_sql now r)"
    using select_ready_iff [OF miss] by blast
qed

lemma pessimistic_lost:
  "pessimistic_acquire err ids h dur now d m = (Inr r, d', m') \<Longrightarrow> \<not> ar_success r \<Longrightarrow> d' = d"
  "pessimistic_acquire err ids h dur now d m = (Inl x, d', m') \<Longrightarrow> d' = d"
  by (auto simp: pessimistic_acquire_def Let_def split: option.splits if_splits sum.splits prod.splits)

interpretation pessimistic: seat_acquisition "pessimistic_acquire err"
proof unfold_locales
  fix d ids h dur now m r d' m'
  assume "schema_ok d" "seats_coherent d"
    and "pessimistic_acquire err ids h dur now d m = (Inr r, d', m')" and "ar_success r"
  then show "(ids \<noteq> [] \<longrightarrow> 0 < dur) \<and>
      (\<forall>i \<in> set ids. \<exists>row. find_seat i d = Some row \<and> reclaimable_sql now row) \<and>
      set (ar_acquired r) = set ids \<and>
      (\<exists>t aud. set aud = set ids \<and> d' = held_db ids aud h (now + dur) t now d)"
    using pessimistic_outcome [of d err ids h dur now m r d' m'] by auto
qed (auto dest: pessimistic_lost)

section \<open>Optimistic\<close>

text \<open>What other sessions make of the database while an optimistic acquisition runs.\<close>

definition interference :: "(nat \<Rightarrow> db \<Rightarrow> db) \<Rightarrow> (nat \<Rightarrow> db \<Rightarrow> db) \<Rightarrow> db \<Rightarrow> db \<Rightarrow> bool" where
  "interference env gap x y \<longleftrightarrow> (\<exists>k. y = env k x \<or> y = gap k x)"

text \<open>A win: every seat was reclaimable on the database the UPDATE ran on.\<close>

definition wins_on :: "int list \<Rightarrow> session_id \<Rightarrow> timedelta \<Rightarrow> instant \<Rightarrow> db \<Rightarrow> acquire_result \<Rightarrow> db \<Rightarrow> bool" where
  "wins_on ids h dur now dk r d' \<longleftrightarrow>
     ar_success r \<and> ar_acquired r = ids \<and> distinct ids \<and> (ids \<noteq> [] \<longrightarrow> 0 < dur) \<and>
     (\<forall>i \<in> set ids. \<exists>row. find_seat i dk = Some row \<and> reclaimable_sql now row) \<and>
     d' = held_db ids ids h (now + dur) now now dk"

lemma matched_rows_all:
  assumes "schema_ok d" "rowcount (update_matches rows ids now) (db_seats d) = length ids"
  shows "distinct ids"
    and "\<forall>i \<in> set ids. \<exists>r. find_seat i d = Some r \<and> reclaimable_sql now r"
    and "upd_where (update_matches rows ids now) f (db_seats d) = upd_where (\<lambda>r. sr_id r \<in> set ids) f (db_seats d)"
proof -
  let ?P = "\<lambda>r. expected_version rows (sr_id r) = Some (sr_version r) \<and> reclaimable_sql now r"
  have dist: "distinct (map sr_id (db_seats d))" using assms(1) by (simp add: schema_ok_iff)
  have "update_matches rows ids now = (\<lambda>r. sr_id r \<in> set ids \<and> ?P r)"
    by (auto simp: update_matches_def)
  with assms(2) have full: "distinct ids \<and> (\<forall>k \<in> set ids. \<exists>r \<in> set (db_seats d). sr_id r = k \<and> ?P r)"
    using rowcount_in_full_iff [OF dist, of ids ?P] by simp
  then show "distinct ids" by simp
  from full show "\<forall>i \<in> set ids. \<exists>r. find_seat i d = Some r \<and> reclaimable_sql now r"
    using assms(1) by (auto simp: find_seat_iff)
  have "update_matches rows ids now r = (sr_id r \<in> set ids)" if "r \<in> set (db_seats d)" for r
  proof
    assume "sr_id r \<in> set ids"
    with full obtain s where "s \<in> set (db_seats d)" "sr_id s = sr_id r" "?P s" by blast
    moreover from this that dist have "s = r" by (intro keyed_unique [of sr_id]) simp_all
    ultimately show "update_matches rows ids now r"
      using \<open>sr_id r \<in> set ids\<close> by (simp add: update_matches_def)
  qed (simp add: update_matches_def)
  then show "upd_where (update_matches rows ids now) f (db_seats d) =
      upd_where (\<lambda>r. sr_id r \<in> set ids) f (db_seats d)"
    by (intro upd_where_cong) simp_all
qed

lemma attempt_update_success:
  assumes "schema_ok d1" "attempt_update err rows ids h dur now d1 m = (Inr (length ids), d2, m2)"
    and "ids \<noteq> [] \<longrightarrow> 0 < dur"
  shows "wins_on ids h dur now d1 (acquired_result ids a)
    (d2\<lparr>db_hold_audit := db_hold_audit d2 @ audit_rows ids h now\<rparr>)"
proof (cases err)
  case (Some s)
  with assms(2) have "ids = []" "d2 = d1" by (auto simp: attempt_update_def split: if_splits)
  then show ?thesis by (simp add: wins_on_def held_db_def upd_where_none)
next
  case None
  then have n: "rowcount (update_matches rows ids now) (db_seats d1) = length ids"
    and d2: "d2 = d1\<lparr>db_seats := upd_where (update_matches rows ids now) (hold_row h (now + dur) now) (db_seats d1)\<rparr>"
    using assms(2) by (auto simp: attempt_update_def)
  show ?thesis
    using matched_rows_all [OF assms(1) n] assms(3) unfolding d2
    by (simp add: wins_on_def held_db_def)
qed

text \<open>
  What a run of the loop leaves, for any property \<open>J\<close> that implies the schema's constraints and that
  the other sessions keep.
\<close>

lemma optimistic_loop_outcome_inv:
  assumes "optimistic_loop env gap errs left attempt ids h dur now d m = (res, d', m')"
    and "\<And>k x. J x \<Longrightarrow> J (env k x)" "\<And>k x. J x \<Longrightarrow> J (gap k x)" "J d"
    and sch: "\<And>x. J x \<Longrightarrow> schema_ok x"
  shows "\<exists>dk. (interference env gap)\<^sup>*\<^sup>* d dk \<and> J dk \<and>
    (d' = dk \<and> (\<forall>r. res = Inr r \<longrightarrow> \<not> ar_success r) \<or>
     (\<exists>r k x. res = Inr r \<and> dk = env k x \<and> wins_on ids h dur now dk r d'))"
  using assms(1,4)
proof (induction left arbitrary: attempt d m)
  case 0
  then show ?case by auto
next
  case (Suc left)
  let ?rows = "select_seats ids d"
  let ?d1 = "env attempt d"
  have i1: "interference env gap d ?d1" and i2: "interference env gap ?d1 (gap attempt ?d1)"
    by (auto simp: interference_def)
  have s1: "J ?d1" and s2: "J (gap attempt ?d1)"
    using assms(2,3) Suc.prems(2) by auto
  consider (stop) "d' = d" "\<forall>r. res = Inr r \<longrightarrow> \<not> ar_success r"
    | (go) "missing_ids ?rows ids = []" "validate_holds h dur now (wanted ?rows ids) = Inr None"
    using Suc.prems(1)
    by (cases "missing_ids ?rows ids = []")
      (auto simp: Let_def split: sum.splits option.splits if_splits)
  then show ?case
  proof cases
    case stop
    with Suc.prems(2) show ?thesis by blast
  next
    case go
    then have dur: "ids \<noteq> [] \<longrightarrow> 0 < dur" using select_ready_iff by blast
    obtain u d2 m2 where u: "attempt_update (errs attempt) ?rows ids h dur now ?d1 m = (u, d2, m2)"
      by (cases "attempt_update (errs attempt) ?rows ids h dur now ?d1 m")
    show ?thesis
    proof (cases "u = Inr (length ids)")
      case True
      then have "wins_on ids h dur now ?d1 (acquired_result ids attempt)
          (d2\<lparr>db_hold_audit := db_hold_audit d2 @ audit_rows ids h now\<rparr>)"
        using attempt_update_success [OF sch [OF s1] _ dur] u by simp
      then show ?thesis
        using True go u Suc.prems(1) i1 s1 by (auto simp: Let_def)
    next
      case False
      show ?thesis
      proof (cases u)
        case (Inl e)
        then show ?thesis using go u Suc.prems(1) i1 s1 by (auto simp: Let_def)
      next
        case (Inr n)
        with False have n: "n \<noteq> length ids" by simp
        define dn where "dn = (if left \<noteq> 0 then gap attempt ?d1 else ?d1)"
        have "\<exists>mn. optimistic_loop env gap errs left (attempt + 1) ids h dur now dn mn = (res, d', m')"
          using go u Inr n Suc.prems(1) by (auto simp: Let_def dn_def split: if_splits)
        moreover have "J dn" using s1 s2 by (simp add: dn_def)
        ultimately obtain dk where dk: "(interference env gap)\<^sup>*\<^sup>* dn dk" "J dk"
          "d' = dk \<and> (\<forall>r. res = Inr r \<longrightarrow> \<not> ar_success r) \<or>
           (\<exists>r k x. res = Inr r \<and> dk = env k x \<and> wins_on ids h dur now dk r d')"
          using Suc.IH by blast
        have "(interference env gap)\<^sup>*\<^sup>* d dn"
          using i1 i2 by (auto simp: dn_def)
        from rtranclp_trans [OF this dk(1)] dk(2,3) show ?thesis by blast
      qed
    qed
  qed
qed

lemma optimistic_loop_outcome:
  assumes "optimistic_loop env gap errs left attempt ids h dur now d m = (res, d', m')"
    and "\<And>k x. schema_ok x \<Longrightarrow> schema_ok (env k x)" "\<And>k x. schema_ok x \<Longrightarrow> schema_ok (gap k x)"
    and "schema_ok d"
  shows "\<exists>dk. (interference env gap)\<^sup>*\<^sup>* d dk \<and> schema_ok dk \<and>
    (d' = dk \<and> (\<forall>r. res = Inr r \<longrightarrow> \<not> ar_success r) \<or>
     (\<exists>r k x. res = Inr r \<and> dk = env k x \<and> wins_on ids h dur now dk r d'))"
  by (rule optimistic_loop_outcome_inv [where J = schema_ok, OF assms])

lemma no_interference: "(interference (\<lambda>_. id) (\<lambda>_. id))\<^sup>*\<^sup>* d dk \<longleftrightarrow> dk = d"
proof
  assume "(interference (\<lambda>_. id) (\<lambda>_. id))\<^sup>*\<^sup>* d dk"
  then show "dk = d" by (induction rule: rtranclp_induct) (auto simp: interference_def)
qed simp

lemma optimistic_alone:
  assumes "schema_ok d"
    and "optimistic_acquire (\<lambda>_. id) (\<lambda>_. id) errs n ids h dur now d m = (res, d', m')"
  shows "d' = d \<and> (\<forall>r. res = Inr r \<longrightarrow> \<not> ar_success r) \<or> (\<exists>r. res = Inr r \<and> wins_on ids h dur now d r d')"
  using optimistic_loop_outcome [of "\<lambda>_. id" "\<lambda>_. id" errs n 1 ids h dur now d m res d' m'] assms
  by (auto simp: optimistic_acquire_def no_interference)

text \<open>Without the schema the contract's failure part holds too: the loop writes only on a win.\<close>

lemma optimistic_alone_lost:
  assumes "optimistic_loop (\<lambda>_. id) (\<lambda>_. id) errs left a ids h dur now d m = (res, d', m')"
    and "\<forall>r. res = Inr r \<longrightarrow> \<not> ar_success r"
  shows "d' = d"
  using assms
  by (induction left arbitrary: a m)
    (auto simp: Let_def split: sum.splits option.splits if_splits prod.splits)

interpretation optimistic: seat_acquisition "optimistic_acquire (\<lambda>_. id) (\<lambda>_. id) errs n"
proof unfold_locales
  fix d ids h dur now m r d' m'
  assume "schema_ok d" "seats_coherent d"
    and "optimistic_acquire (\<lambda>_. id) (\<lambda>_. id) errs n ids h dur now d m = (Inr r, d', m')" "ar_success r"
  then show "(ids \<noteq> [] \<longrightarrow> 0 < dur) \<and>
      (\<forall>i \<in> set ids. \<exists>row. find_seat i d = Some row \<and> reclaimable_sql now row) \<and>
      set (ar_acquired r) = set ids \<and>
      (\<exists>t aud. set aud = set ids \<and> d' = held_db ids aud h (now + dur) t now d)"
    using optimistic_alone [of d errs n ids h dur now m "Inr r" d' m'] by (auto simp: wins_on_def)
next
  fix ids h dur now d m r d' m'
  assume "optimistic_acquire (\<lambda>_. id) (\<lambda>_. id) errs n ids h dur now d m = (Inr r, d', m')" "\<not> ar_success r"
  then show "d' = d"
    using optimistic_alone_lost [of errs n 1 ids h dur now d m "Inr r" d' m']
    by (simp add: optimistic_acquire_def)
next
  fix ids h dur now d m x d' m'
  assume "optimistic_acquire (\<lambda>_. id) (\<lambda>_. id) errs n ids h dur now d m = (Inl x, d', m')"
  then show "d' = d"
    using optimistic_alone_lost [of errs n 1 ids h dur now d m "Inl x" d' m']
    by (simp add: optimistic_acquire_def)
qed

section \<open>Whichever strategy is configured\<close>

lemma acquire_undisturbed:
  "acquire s (undisturbed e) = (case s of
     NaiveStrategy \<Rightarrow> naive_acquire id
   | PessimisticStrategy \<Rightarrow> pessimistic_acquire (ae_lock_error e)
   | OptimisticStrategy \<Rightarrow> optimistic_acquire (\<lambda>_. id) (\<lambda>_. id) (ae_update_errors e) (ae_max_attempts e))"
  by (cases s) (simp_all add: fun_eq_iff undisturbed_def)

interpretation configured: seat_acquisition "acquire s (undisturbed e)"
  unfolding acquire_undisturbed
  using naive.seat_acquisition_axioms pessimistic.seat_acquisition_axioms optimistic.seat_acquisition_axioms
  by (cases s) simp_all

end
