(* ===== verification/Races.thy ===== *)
theory Races
  imports Strategy_Instances
begin

text \<open>
  Concurrency of the strategies: the naive strategy's oversell, the row locks of
  \<open>SELECT ... ORDER BY id FOR UPDATE\<close> as a transition system (no deadlock when every
  transaction locks in ascending id order, a deadlock when one does not), and the relation
  between the optimistic strategy's counters.
\<close>

section \<open>Row locks\<close>

text \<open>The order in which mode (a) of the pessimistic strategy locks its rows.\<close>

definition lock_order :: "int list \<Rightarrow> db \<Rightarrow> int list" where
  "lock_order seat_ids d = map sr_id (sort_key sr_id (select_seats seat_ids d))"

text \<open>
  The lock table: who owns which row, what each open transaction still has to lock, and which
  transactions are open. A transaction is granted its next row if nobody owns it, and when
  it has all its rows it writes and ends, by COMMIT or ROLLBACK, which frees every row it owns.
\<close>

record lock_table =
  owner :: "int \<Rightarrow> nat option"
  todo :: "nat \<Rightarrow> int list"
  opened :: "nat set"

inductive lock_step :: "lock_table \<Rightarrow> lock_table \<Rightarrow> bool" where
  begin_txn: "c \<notin> opened s \<Longrightarrow> schema_ok d \<Longrightarrow>
     lock_step s (s\<lparr>todo := (todo s)(c := lock_order seat_ids d), opened := insert c (opened s)\<rparr>)"
| grant: "c \<in> opened s \<Longrightarrow> todo s c = i # is \<Longrightarrow> owner s i = None \<Longrightarrow>
     lock_step s (s\<lparr>owner := (owner s)(i := Some c), todo := (todo s)(c := is)\<rparr>)"
| end_txn: "c \<in> opened s \<Longrightarrow> todo s c = [] \<Longrightarrow>
     lock_step s (s\<lparr>owner := (\<lambda>i. if owner s i = Some c then None else owner s i),
                    opened := opened s - {c}\<rparr>)"

definition no_locks :: "lock_table \<Rightarrow> bool" where
  "no_locks s \<longleftrightarrow> (\<forall>i. owner s i = None) \<and> opened s = {}"

text \<open>
  What ascending locking keeps: a transaction's remaining rows are in ascending order, above
  every row it already owns; only open transactions own rows.
\<close>

definition ordered_locks :: "lock_table \<Rightarrow> bool" where
  "ordered_locks s \<longleftrightarrow>
     finite (opened s) \<and>
     (\<forall>i c. owner s i = Some c \<longrightarrow> c \<in> opened s \<and> (\<forall>j \<in> set (todo s c). i < j)) \<and>
     (\<forall>c \<in> opened s. sorted_wrt (<) (todo s c))"

text \<open>A blocked transaction waits for a row somebody else owns.\<close>

definition blocked :: "lock_table \<Rightarrow> nat \<Rightarrow> bool" where
  "blocked s c \<longleftrightarrow> c \<in> opened s \<and> (\<exists>i is. todo s c = i # is \<and> owner s i \<noteq> None)"

text \<open>A deadlock: a set of open transactions, each waiting for a row another of them owns.\<close>

definition waits_for :: "lock_table \<Rightarrow> nat \<Rightarrow> nat \<Rightarrow> bool" where
  "waits_for s c c' \<longleftrightarrow> (\<exists>i is. todo s c = i # is \<and> owner s i = Some c')"

definition deadlocked :: "lock_table \<Rightarrow> bool" where
  "deadlocked s \<longleftrightarrow> (\<exists>C. C \<subseteq> opened s \<and> C \<noteq> {} \<and> (\<forall>c \<in> C. \<exists>c' \<in> C. waits_for s c c'))"

lemma lock_order_sorted:
  assumes "schema_ok d"
  shows "sorted_wrt (<) (lock_order ids d)"
proof -
  have "distinct (map sr_id (select_seats ids d))"
    using assms by (auto simp: schema_ok_iff select_seats_def intro: distinct_map_filter)
  then have "distinct (lock_order ids d)"
    by (simp add: lock_order_def distinct_map)
  moreover have "sorted (lock_order ids d)" by (simp add: lock_order_def)
  ultimately show ?thesis by (simp add: strict_sorted_iff)
qed

lemma ordered_locks_begin:
  assumes "ordered_locks s" "c \<notin> opened s" "sorted_wrt (<) ids"
  shows "ordered_locks (s\<lparr>todo := (todo s)(c := ids), opened := insert c (opened s)\<rparr>)"
  using assms by (auto simp: ordered_locks_def)

lemma ordered_locks_grant:
  assumes "ordered_locks s" "c \<in> opened s" "todo s c = i # is" "owner s i = None"
  shows "ordered_locks (s\<lparr>owner := (owner s)(i := Some c), todo := (todo s)(c := is)\<rparr>)"
proof -
  have "sorted_wrt (<) (i # is)" using assms by (metis ordered_locks_def)
  with assms show ?thesis by (auto simp: ordered_locks_def)
qed

lemma ordered_locks_end:
  assumes "ordered_locks s"
  shows "ordered_locks (s\<lparr>owner := (\<lambda>i. if owner s i = Some c then None else owner s i),
    opened := opened s - {c}\<rparr>)"
  using assms by (auto simp: ordered_locks_def split: if_splits)

interpretation row_locks: transition_system no_locks lock_step ordered_locks
proof unfold_locales
  fix s
  assume "no_locks s"
  then show "ordered_locks s" by (auto simp: no_locks_def ordered_locks_def)
next
  fix s t
  assume "lock_step s t" "ordered_locks s"
  then show "ordered_locks t"
    by (cases rule: lock_step.cases)
      (auto intro: ordered_locks_begin lock_order_sorted ordered_locks_grant ordered_locks_end)
qed

text \<open>
  Among the waiting transactions take the one that waits for the highest row: its owner has
  only higher rows to lock, so it is not blocked itself.
\<close>

lemma ordered_not_deadlocked:
  assumes "ordered_locks s"
  shows "\<not> deadlocked s"
proof
  assume "deadlocked s"
  then obtain C where C: "C \<subseteq> opened s" "C \<noteq> {}" and w: "\<forall>c \<in> C. \<exists>c' \<in> C. waits_for s c c'"
    by (auto simp: deadlocked_def)
  define want where "want c = hd (todo s c)" for c
  have fin: "finite (want ` C)" and ne: "want ` C \<noteq> {}"
    using assms C finite_subset [of C "opened s"] by (auto simp: ordered_locks_def)
  have "Max (want ` C) \<in> want ` C" using Max_in [OF fin ne] .
  then obtain c where c: "c \<in> C" "want c = Max (want ` C)" by auto
  with w obtain c' i "is" where c': "c' \<in> C" and i: "todo s c = i # is" "owner s i = Some c'"
    by (auto simp: waits_for_def)
  have "\<forall>j \<in> set (todo s c'). i < j" using assms i(2) by (auto simp: ordered_locks_def)
  moreover obtain j js where "todo s c' = j # js" using w c' by (auto simp: waits_for_def)
  ultimately have "i < want c'" by (simp add: want_def)
  moreover have "want c' \<le> Max (want ` C)" using fin c' by simp
  ultimately show False using c(2) i(1) by (simp add: want_def)
qed

text \<open>An unblocked open transaction has a step.\<close>

lemma unblocked_can_step:
  assumes "c \<in> opened s" "\<not> blocked s c"
  shows "\<exists>t. lock_step s t"
proof (cases "todo s c")
  case Nil
  with assms show ?thesis by (blast intro: lock_step.end_txn)
next
  case (Cons i "is")
  with assms have "owner s i = None" by (auto simp: blocked_def)
  with assms(1) Cons show ?thesis by (blast intro: lock_step.grant)
qed

text \<open>Two transactions that list the rows 5 and 9 in opposite order, each owning its first.\<close>

definition crossed_locks :: lock_table where
  "crossed_locks = \<lparr>owner = (\<lambda>_. None)(5 := Some 0, 9 := Some 1),
     todo = (\<lambda>_. [])(0 := [9], 1 := [5]), opened = {0, 1}\<rparr>"

section \<open>The counters of the optimistic strategy\<close>

lemma optimistic_counters:
  assumes "optimistic_loop env gap errs (Suc left) attempt ids h dur now d m = (res, d', m')"
    and "\<forall>k. errs k = None \<or> errs k = Some ''40P01''"
  shows "m' Optimistic_conflicts + m Optimistic_retries + m Optimistic_exhausted =
    m Optimistic_conflicts + m' Optimistic_retries + m' Optimistic_exhausted"
  using assms(1)
proof (induction left arbitrary: attempt d m)
  case 0
  then show ?case
    using assms(2) by (cases "errs attempt")
      (auto simp: Let_def attempt_update_def split: sum.splits option.splits if_splits)
next
  case (Suc left)
  let ?rows = "select_seats ids d" and ?d1 = "env attempt d"
  obtain u d2 m2 where u: "attempt_update (errs attempt) ?rows ids h dur now ?d1 m = (u, d2, m2)"
    by (cases "attempt_update (errs attempt) ?rows ids h dur now ?d1 m")
  have m2: "m2 Optimistic_conflicts = m Optimistic_conflicts" "m2 Optimistic_retries = m Optimistic_retries"
    "m2 Optimistic_exhausted = m Optimistic_exhausted"
    using u by (auto simp: attempt_update_def split: option.splits if_splits)
  show ?case
  proof (cases "missing_ids ?rows ids = [] \<and> validate_holds h dur now (wanted ?rows ids) = Inr None \<and>
      (\<exists>n. u = Inr n \<and> n \<noteq> length ids)")
    case True
    then have "optimistic_loop env gap errs (Suc left) (attempt + 1) ids h dur now (gap attempt ?d1)
        (inc Optimistic_retries (inc Optimistic_conflicts m2)) = (res, d', m')"
      using Suc.prems u by (auto simp: Let_def simp del: optimistic_loop.simps
          simp: optimistic_loop.simps(2) [of env gap errs "Suc left"])
    from Suc.IH [OF this] show ?thesis using m2 by simp
  next
    case False
    have eq: "optimistic_loop env gap errs (Suc (Suc left)) attempt ids h dur now d m = (res, d', m')"
      by (rule Suc.prems)
    have "m' Optimistic_conflicts = m Optimistic_conflicts \<and> m' Optimistic_retries = m Optimistic_retries \<and>
        m' Optimistic_exhausted = m Optimistic_exhausted"
      using eq False u m2
      by (auto simp: Let_def optimistic_loop.simps(2) [of env gap errs "Suc left"]
          simp del: optimistic_loop.simps split: if_splits sum.splits option.splits)
    then show ?thesis by simp
  qed
qed

lemma optimistic_attempts_bound:
  assumes "optimistic_loop env gap errs left attempt ids h dur now d m = (Inr r, d', m')" "0 < attempt"
  shows "ar_attempts r < attempt + left"
  using assms
proof (induction left arbitrary: attempt d m)
  case 0
  then show ?case by auto
next
  case (Suc left)
  let ?rows = "select_seats ids d" and ?d1 = "env attempt d"
  obtain u d2 m2 where u: "attempt_update (errs attempt) ?rows ids h dur now ?d1 m = (u, d2, m2)"
    by (cases "attempt_update (errs attempt) ?rows ids h dur now ?d1 m")
  consider (stop) "ar_attempts r = attempt"
    | (again) dn mn where
      "optimistic_loop env gap errs left (attempt + 1) ids h dur now dn mn = (Inr r, d', m')"
    using Suc.prems(1) u
    by (auto simp: Let_def split: if_splits sum.splits option.splits)
  then show ?case
  proof cases
    case again
    with Suc.IH [OF again] show ?thesis by simp
  qed simp
qed

end
