(* ===== verification/Text.thy ===== *)
theory Text
  imports Main
begin

text \<open>
  The string operations the program's keys and channels go through: decimal printing of an
  integer (\<open>f"{i}"\<close>), Python's \<open>int(text)\<close>, \<open>str.split(sep, maxsplit)\<close>, \<open>startswith\<close>,
  \<open>endswith\<close> and slices. Strings are lists of characters with code points below 256.
\<close>

section \<open>Printing\<close>

definition digit :: "nat \<Rightarrow> char" where
  "digit n = char_of (48 + n)"

fun nat_dec :: "nat \<Rightarrow> string" where
  "nat_dec n = (if n < 10 then [digit n] else nat_dec (n div 10) @ [digit (n mod 10)])"

declare nat_dec.simps [simp del]

definition int_dec :: "int \<Rightarrow> string" where
  "int_dec i = (if i < 0 then ''-'' @ nat_dec (nat (- i)) else nat_dec (nat i))"

section \<open>Parsing\<close>

text \<open>
  \<open>int(text)\<close>: white space around is dropped, then an optional sign and decimal digits, single
  underscores between digits allowed; anything else is a \<open>ValueError\<close> (None).
\<close>

definition is_digit :: "char \<Rightarrow> bool" where
  "is_digit c \<longleftrightarrow> 48 \<le> (of_char c :: nat) \<and> (of_char c :: nat) \<le> 57"

definition is_space :: "char \<Rightarrow> bool" where
  "is_space c \<longleftrightarrow> (of_char c :: nat) \<in> {9, 10, 11, 12, 13, 28, 29, 30, 31, 32, 133, 160}"

definition strip :: "string \<Rightarrow> string" where
  "strip s = rev (dropWhile is_space (rev (dropWhile is_space s)))"

text \<open>The digits read so far are worth \<open>acc\<close>; \<open>prev\<close> tells whether the last character was a digit.\<close>

fun dec_nat :: "bool \<Rightarrow> nat \<Rightarrow> string \<Rightarrow> nat option" where
  "dec_nat prev acc [] = (if prev then Some acc else None)"
| "dec_nat prev acc (c # cs) =
     (if is_digit c then dec_nat True (10 * acc + (of_char c - 48)) cs
      else if c = CHR ''_'' \<and> prev then dec_nat False acc cs
      else None)"

definition py_int :: "string \<Rightarrow> int option" where
  "py_int text =
     (case strip text of
        [] \<Rightarrow> None
      | c # cs \<Rightarrow>
          if c = CHR ''-'' then map_option (\<lambda>n. - int n) (dec_nat False 0 cs)
          else if c = CHR ''+'' then map_option int (dec_nat False 0 cs)
          else map_option int (dec_nat False 0 (c # cs)))"

text \<open>\<open>text.split(sep, maxsplit)\<close> for a one-character separator.\<close>

fun split_max :: "nat \<Rightarrow> char \<Rightarrow> string \<Rightarrow> string list" where
  "split_max 0 sep s = [s]"
| "split_max (Suc n) sep s =
     (if sep \<in> set s
      then takeWhile (\<lambda>c. c \<noteq> sep) s # split_max n sep (tl (dropWhile (\<lambda>c. c \<noteq> sep) s))
      else [s])"

definition starts_with :: "string \<Rightarrow> string \<Rightarrow> bool" where
  "starts_with p s \<longleftrightarrow> take (length p) s = p"

definition ends_with :: "string \<Rightarrow> string \<Rightarrow> bool" where
  "ends_with p s \<longleftrightarrow> length p \<le> length s \<and> drop (length s - length p) s = p"

text \<open>\<open>s[len(p) : -len(q)]\<close>.\<close>

definition slice :: "string \<Rightarrow> string \<Rightarrow> string \<Rightarrow> string" where
  "slice p q s = drop (length p) (take (length s - length q) s)"

section \<open>Round trips\<close>

lemma digit_value [simp]: "n < 10 \<Longrightarrow> of_char (digit n) = 48 + (n :: nat)"
  by (simp add: digit_def)

lemma is_digit_digit [simp]: "n < 10 \<Longrightarrow> is_digit (digit n)"
  by (simp add: is_digit_def)

lemma nat_dec_digits: "c \<in> set (nat_dec n) \<Longrightarrow> is_digit c"
proof (induction n rule: nat_dec.induct)
  case (1 n)
  then show ?case by (cases "n < 10") (auto simp: nat_dec.simps [of n])
qed

lemma nat_dec_not_Nil [simp]: "nat_dec n \<noteq> []"
  by (simp add: nat_dec.simps [of n])

lemma dec_nat_append:
  "cs \<noteq> [] \<Longrightarrow> \<forall>c \<in> set cs. is_digit c \<Longrightarrow>
   dec_nat prev acc (cs @ ds) = dec_nat True (foldl (\<lambda>a c. 10 * a + (of_char c - 48)) acc cs) ds"
proof (induction cs arbitrary: prev acc)
  case (Cons c cs)
  have "dec_nat True a (cs @ ds) = dec_nat True (foldl (\<lambda>a c. 10 * a + (of_char c - 48)) a cs) ds" for a
    using Cons by (cases "cs = []") auto
  with Cons.prems show ?case by simp
qed simp

lemma dec_nat_nat_dec_aux:
  "foldl (\<lambda>a c. 10 * a + (of_char c - 48)) 0 (nat_dec n) = n"
proof (induction n rule: nat_dec.induct)
  case (1 n)
  show ?case
  proof (cases "n < 10")
    case True
    then show ?thesis by (simp add: nat_dec.simps [of n])
  next
    case False
    then show ?thesis using 1 by (simp add: nat_dec.simps [of n])
  qed
qed

lemma dec_nat_nat_dec [simp]: "dec_nat False 0 (nat_dec n) = Some n"
  using dec_nat_append [of "nat_dec n" False 0 "[]"] nat_dec_digits [of _ n] dec_nat_nat_dec_aux [of n]
  by auto

lemma is_digit_not [simp]:
  "is_digit c \<Longrightarrow> \<not> is_space c" "\<not> is_digit CHR ''-''" "\<not> is_digit CHR ''+''" "\<not> is_digit CHR '':''"
  by (auto simp: is_digit_def is_space_def)

lemma is_space_minus [simp]: "\<not> is_space CHR ''-''"
  by (simp add: is_space_def)

lemma int_dec_chars: "c \<in> set (int_dec i) \<Longrightarrow> is_digit c \<or> c = CHR ''-''"
  by (auto simp: int_dec_def dest: nat_dec_digits split: if_splits)

lemma int_dec_not_Nil [simp]: "int_dec i \<noteq> []"
  by (simp add: int_dec_def)

lemma dropWhile_none: "\<forall>x \<in> set xs. \<not> P x \<Longrightarrow> dropWhile P xs = xs"
  by (cases xs) simp_all

lemma strip_int_dec [simp]: "strip (int_dec i) = int_dec i"
proof -
  have "\<forall>c \<in> set (int_dec i). \<not> is_space c"
    using int_dec_chars is_digit_not(1) is_space_minus by blast
  then show ?thesis by (simp add: strip_def dropWhile_none)
qed

lemma py_int_int_dec [simp]: "py_int (int_dec i) = Some i"
proof (cases "i < 0")
  case True
  then show ?thesis using strip_int_dec [of i] by (simp add: py_int_def int_dec_def)
next
  case False
  obtain c cs where c: "nat_dec (nat i) = c # cs" by (cases "nat_dec (nat i)") auto
  then have "is_digit c" using nat_dec_digits [of c "nat i"] by simp
  then have "c \<noteq> CHR ''-''" "c \<noteq> CHR ''+''" by auto
  with False c show ?thesis
    using strip_int_dec [of i] dec_nat_nat_dec [of "nat i"]
    by (simp add: py_int_def int_dec_def del: dec_nat_nat_dec)
qed

lemma int_dec_inject [simp]: "int_dec i = int_dec j \<longleftrightarrow> i = j"
  by (metis py_int_int_dec option.inject)

lemma colon_not_int_dec [simp]: "CHR '':'' \<notin> set (int_dec i)"
  using int_dec_chars by fastforce

lemma split_max_append [simp]:
  assumes "sep \<notin> set a"
  shows "split_max (Suc n) sep (a @ sep # b) = a # split_max n sep b"
proof -
  have "takeWhile (\<lambda>c. c \<noteq> sep) (a @ sep # b) = a" "dropWhile (\<lambda>c. c \<noteq> sep) (a @ sep # b) = sep # b"
    using assms by (induction a) auto
  then show ?thesis by simp
qed

lemma slice_middle [simp]: "slice p q (p @ s @ q) = s"
  by (simp add: slice_def)

lemma starts_ends_middle [simp]: "starts_with p (p @ s @ q)" "ends_with q (p @ s @ q)"
  by (simp_all add: starts_with_def ends_with_def)

end
