(* ===== verification/Cache.thy ===== *)
theory Cache
  imports Text Tables Metrics "HOL-Library.AList"
begin

text \<open>
  \<^verbatim>\<open>app/infra/hold_cache.py\<close> and \<^verbatim>\<open>app/realtime/pubsub.py\<close>: the mirror of active holds in Redis
  and the publication of seat changes. Redis is a store of keys with an expiry, a log of what was
  published on which channel, and a flag telling whether it answers. Every operation is best
  effort: when Redis does not answer it counts an error and changes nothing.
\<close>

section \<open>Redis\<close>

record seat_update =
  su_seat_id :: int
  su_status :: seat_status
  su_expires :: "instant option"
  su_version :: int

record redis =
  rd_up :: bool
  rd_keys :: "(string \<times> string \<times> instant) list"
  rd_clock :: instant
  rd_published :: "(string \<times> seat_update) list"

definition redis_set :: "string \<Rightarrow> string \<Rightarrow> int \<Rightarrow> redis \<Rightarrow> redis" where
  "redis_set k v ttl r = r\<lparr>rd_keys := AList.update k (v, rd_clock r + ttl * 1000000) (rd_keys r)\<rparr>"

definition redis_delete :: "string \<Rightarrow> redis \<Rightarrow> redis" where
  "redis_delete k r = r\<lparr>rd_keys := AList.delete k (rd_keys r)\<rparr>"

definition redis_get :: "string \<Rightarrow> redis \<Rightarrow> string option" where
  "redis_get k r =
     (case map_of (rd_keys r) k of
        None \<Rightarrow> None
      | Some (v, e) \<Rightarrow> if rd_clock r < e then Some v else None)"

section \<open>The hold mirror\<close>

definition hold_key :: "int \<Rightarrow> string" where
  "hold_key i = ''seat:'' @ int_dec i @ '':hold''"

definition set_hold_mirror :: "int \<Rightarrow> session_id \<Rightarrow> instant \<Rightarrow> instant \<Rightarrow> redis \<Rightarrow> metrics \<Rightarrow> redis \<times> metrics" where
  "set_hold_mirror i session expires_at now r m =
     (let ttl_seconds = max 1 ((expires_at - now) div 1000000)
      in if rd_up r then (redis_set (hold_key i) session ttl_seconds r, m)
         else (r, inc (Hold_cache_errors Cache_set) m))"

definition delete_hold_mirror :: "int \<Rightarrow> redis \<Rightarrow> metrics \<Rightarrow> redis \<times> metrics" where
  "delete_hold_mirror i r m =
     (if rd_up r then (redis_delete (hold_key i) r, m) else (r, inc (Hold_cache_errors Cache_delete) m))"

definition get_hold_mirror :: "int \<Rightarrow> redis \<Rightarrow> metrics \<Rightarrow> session_id option \<times> metrics" where
  "get_hold_mirror i r m =
     (if rd_up r then (redis_get (hold_key i) r, m) else (None, inc (Hold_cache_errors Cache_get) m))"

text \<open>Redis first; a hit answers "taken", anything else asks PostgreSQL.\<close>

definition check_seat_available :: "int \<Rightarrow> instant \<Rightarrow> redis \<Rightarrow> db \<Rightarrow> metrics \<Rightarrow> bool \<times> metrics" where
  "check_seat_available i now r d m =
     (let (mirrored, m') = get_hold_mirror i r m
      in if mirrored \<noteq> None then (False, m')
         else case find_seat i d of
             None \<Rightarrow> (False, m')
           | Some row \<Rightarrow>
               (sr_status row = AVAILABLE \<or>
                sr_status row = HELD \<and> (case sr_expires row of None \<Rightarrow> False | Some e \<Rightarrow> e \<le> now), m'))"

section \<open>Publication\<close>

definition channel_name :: "int \<Rightarrow> string \<Rightarrow> string" where
  "channel_name evt sec = ''event:'' @ int_dec evt @ '':section:'' @ sec"

definition publish_seat_update :: "int \<Rightarrow> string \<Rightarrow> seat_update \<Rightarrow> redis \<Rightarrow> redis" where
  "publish_seat_update evt sec u r =
     (if rd_up r then r\<lparr>rd_published := rd_published r @ [(channel_name evt sec, u)]\<rparr> else r)"

text \<open>A loop of publications, one per row that changed.\<close>

definition publish_rows :: "(seat_row \<Rightarrow> seat_update) \<Rightarrow> (seat_row \<Rightarrow> int) \<Rightarrow> seat_row list \<Rightarrow> redis \<Rightarrow> redis" where
  "publish_rows upd evt_of rows r = fold (\<lambda>row. publish_seat_update (evt_of row) (sr_section row) (upd row)) rows r"

definition row_update :: "seat_row \<Rightarrow> seat_update" where
  "row_update r = \<lparr>su_seat_id = sr_id r, su_status = sr_status r, su_expires = sr_expires r, su_version = sr_version r\<rparr>"

text \<open>\<open>_parse_channel\<close> of the hub; None where unpacking or \<open>int\<close> raises \<open>ValueError\<close>.\<close>

definition parse_channel :: "string \<Rightarrow> (int \<times> string) option" where
  "parse_channel channel =
     (case split_max 3 CHR '':'' channel of
        [a, evt, b, sec] \<Rightarrow> map_option (\<lambda>i. (i, sec)) (py_int evt)
      | _ \<Rightarrow> None)"

text \<open>\<open>_seat_id_from_key\<close> of the reconciler.\<close>

definition seat_id_from_key :: "string \<Rightarrow> int option" where
  "seat_id_from_key k =
     (if \<not> (starts_with ''seat:'' k \<and> ends_with '':hold'' k) then None
      else py_int (slice ''seat:'' '':hold'' k))"

section \<open>Facts\<close>

lemma hold_key_inject [simp]: "hold_key i = hold_key j \<longleftrightarrow> i = j"
  by (simp add: hold_key_def)

lemma seat_id_from_hold_key [simp]: "seat_id_from_key (hold_key i) = Some i"
  by (simp only: seat_id_from_key_def hold_key_def starts_ends_middle slice_middle py_int_int_dec) simp

lemma split_channel:
  "split_max 3 CHR '':'' (channel_name evt sec) = [''event'', int_dec evt, ''section'', sec]"
proof -
  have "channel_name evt sec = ''event'' @ CHR '':'' # int_dec evt @ CHR '':'' # ''section'' @ CHR '':'' # sec"
    by (simp add: channel_name_def)
  moreover have "CHR '':'' \<notin> set ''event''" "CHR '':'' \<notin> set ''section''" by simp_all
  ultimately show ?thesis
    unfolding numeral_3_eq_3 by (simp only: split_max_append colon_not_int_dec not_False_eq_True split_max.simps(1))
qed

lemma parse_channel_name: "parse_channel (channel_name evt sec) = Some (evt, sec)"
  by (simp add: parse_channel_def split_channel)

lemma channel_name_inject: "channel_name e s = channel_name e' s' \<longleftrightarrow> e = e' \<and> s = s'"
  by (metis parse_channel_name option.inject prod.inject)

lemma redis_get_set [simp]:
  "redis_get k (redis_set k' v ttl r) = (if k = k' then (if 0 < ttl then Some v else None) else redis_get k r)"
  by (auto simp: redis_get_def redis_set_def update_conv' split: option.split)

lemma redis_get_delete [simp]:
  "redis_get k (redis_delete k' r) = (if k = k' then None else redis_get k r)"
  by (auto simp: redis_get_def redis_delete_def delete_conv' split: option.split)

lemma redis_frame [simp]:
  "rd_clock (redis_set k v ttl r) = rd_clock r" "rd_up (redis_set k v ttl r) = rd_up r"
  "rd_clock (redis_delete k r) = rd_clock r" "rd_up (redis_delete k r) = rd_up r"
  "rd_published (redis_set k v ttl r) = rd_published r" "rd_published (redis_delete k r) = rd_published r"
  by (simp_all add: redis_set_def redis_delete_def)

lemma publish_frame [simp]:
  "rd_keys (publish_seat_update e s u r) = rd_keys r" "rd_clock (publish_seat_update e s u r) = rd_clock r"
  "rd_up (publish_seat_update e s u r) = rd_up r"
  by (simp_all add: publish_seat_update_def)

lemma publish_rows_frame [simp]:
  "rd_keys (publish_rows u e rows r) = rd_keys r" "rd_clock (publish_rows u e rows r) = rd_clock r"
  "rd_up (publish_rows u e rows r) = rd_up r"
  by (induction rows arbitrary: r) (simp_all add: publish_rows_def)

lemma publish_rows_log:
  "rd_published (publish_rows u e rows r) =
     rd_published r @ (if rd_up r then map (\<lambda>x. (channel_name (e x) (sr_section x), u x)) rows else [])"
proof (induction rows arbitrary: r)
  case (Cons x rows)
  have "publish_rows u e (x # rows) r = publish_rows u e rows (publish_seat_update (e x) (sr_section x) (u x) r)"
    by (simp add: publish_rows_def)
  then show ?case using Cons by (simp add: publish_seat_update_def)
qed (simp add: publish_rows_def)

lemma redis_get_publish [simp]:
  "redis_get k (publish_rows u e rows r) = redis_get k r"
  "redis_get k (publish_seat_update ev s x r) = redis_get k r"
  by (simp_all add: redis_get_def split: option.split)

end
