(* ===== verification/Samples.thy ===== *)
theory Samples
  imports Cache
begin

text \<open>
  A small concrete database that the concrete instances of the properties run on: at instant 100
  seat 1 is AVAILABLE, seat 2 is HELD by session A until 200, seat 3 is HELD by session B with a
  hold that ran out at 90, and seat 4 is BOOKED by booking 1. Booking 2, of session A, is PENDING
  over seat 2.
\<close>

definition seat_at :: "int \<Rightarrow> seat_status \<Rightarrow> int \<Rightarrow> session_id option \<Rightarrow> instant option \<Rightarrow> int option \<Rightarrow> seat_row" where
  "seat_at i st v h e b =
     \<lparr>sr_id = i, sr_event_id = 1, sr_section = ''S'', sr_row_label = ''R'', sr_seat_number = i,
      sr_status = st, sr_version = v, sr_held_by = h, sr_expires = e, sr_booking_id = b, sr_updated_at = 0\<rparr>"

definition booking_at :: "int \<Rightarrow> session_id \<Rightarrow> booking_status \<Rightarrow> int list \<Rightarrow> string \<Rightarrow> booking_row" where
  "booking_at i s st ids k =
     \<lparr>br_id = i, br_event_id = 1, br_user_id = 9, br_session_id = s, br_status = st,
      br_total_amount = 1000, br_currency = ''usd'', br_seat_ids = ids, br_idempotency_key = Some k,
      br_created_at = 50, br_confirmed_at = (if st = CONFIRMED then Some 60 else None)\<rparr>"

definition sample_db :: db where
  "sample_db =
     \<lparr>db_events = [\<lparr>ev_id = 1, ev_name = ''E'', ev_venue = ''V'', ev_starts_at = 1000, ev_total_seats = 4, ev_created_at = 0\<rparr>],
      db_seats = [seat_at 1 AVAILABLE 0 None None None,
                  seat_at 2 HELD 1 (Some ''A'') (Some 200) None,
                  seat_at 3 HELD 1 (Some ''B'') (Some 90) None,
                  seat_at 4 BOOKED 2 None None (Some 1)],
      db_bookings = [booking_at 1 ''C'' CONFIRMED [4] ''k1'', booking_at 2 ''A'' PENDING [2] ''k2''],
      db_booking_seats = [\<lparr>bs_booking_id = 1, bs_seat_id = 4, bs_released_at = None\<rparr>],
      db_hold_audit = [], db_idempotency_keys = [], db_payment_events = [], db_outbox = [],
      db_next_booking = 3, db_clock = 100\<rparr>"

definition sample_redis :: redis where
  "sample_redis = \<lparr>rd_up = True, rd_keys = [(hold_key 2, ''A'', 200)], rd_clock = 100, rd_published = []\<rparr>"

abbreviation zero_metrics :: metrics where
  "zero_metrics \<equiv> \<lambda>_. 0"

lemmas sample_defs = sample_db_def seat_at_def booking_at_def

lemma sample_schema [simp]: "schema_ok sample_db"
  by (simp add: schema_ok_iff sample_defs booking_key_unique_def one_active_booking_per_seat_def
      bs_active_def bs_pk_def seat_place_def)

lemma sample_coherent [simp]: "seats_coherent sample_db"
  by (simp add: seats_coherent_def row_coherent_def coherent_def sample_defs)

lemma sample_linkage [simp]: "linkage_ok sample_db"
  by (simp add: linkage_ok_iff active_seat_ids_def bs_active_def sample_defs)

lemma sample_find_seat [simp]:
  "find_seat 1 sample_db = Some (seat_at 1 AVAILABLE 0 None None None)"
  "find_seat 2 sample_db = Some (seat_at 2 HELD 1 (Some ''A'') (Some 200) None)"
  "find_seat 3 sample_db = Some (seat_at 3 HELD 1 (Some ''B'') (Some 90) None)"
  "find_seat 4 sample_db = Some (seat_at 4 BOOKED 2 None None (Some 1))"
  by (simp_all add: find_seat_def sample_defs)

lemma sample_find_booking [simp]:
  "find_booking 1 sample_db = Some (booking_at 1 ''C'' CONFIRMED [4] ''k1'')"
  "find_booking 2 sample_db = Some (booking_at 2 ''A'' PENDING [2] ''k2'')"
  by (simp_all add: find_booking_def sample_defs)

lemma seat_at_sel [simp]:
  "sr_id (seat_at i st v h e b) = i"
  "sr_event_id (seat_at i st v h e b) = 1"
  "sr_status (seat_at i st v h e b) = st"
  "sr_version (seat_at i st v h e b) = v"
  "sr_held_by (seat_at i st v h e b) = h"
  "sr_expires (seat_at i st v h e b) = e"
  "sr_booking_id (seat_at i st v h e b) = b"
  by (simp_all add: seat_at_def)

end
