(* ===== verification/Strategy_Properties.thy ===== *)
theory Strategy_Properties
  imports Races Samples
begin

text \<open>
  What the three strategies guarantee, and what the naive one does not.
\<close>

section \<open>The naive strategy's race\<close>

lemma orm_flush_over_other:
  assumes "row_coherent r" "sr_status r = AVAILABLE"
  shows "orm_flush c r (seat_apply r (held_seat (seat_to_domain r) h now dur)) (hold_row h' e t r) =
    hold_row h (now + dur) c r"
  using assms
  by (simp add: orm_flush_def seat_apply_def held_seat_def hold_row_def row_coherent_def coherent_def)

lemma naive_write_over_other:
  assumes "schema_ok d" "seats_coherent d" "0 < dur"
    and "\<forall>i \<in> set ids. \<exists>r. find_seat i d = Some r \<and> sr_status r = AVAILABLE"
  shows "db_seats (naive_write h dur now (select_seats ids d) ids (held_db ids aud h' e t now' d)) =
    upd_where (\<lambda>r. sr_id r \<in> set ids) (hold_row h (now + dur) (db_clock d)) (db_seats d)"
proof -
  have "(case by_key sr_id (sr_id r) (wanted (select_seats ids d) ids) of
           None \<Rightarrow> hold_row h' e t r
         | Some loaded \<Rightarrow>
             (case hold (seat_to_domain loaded) h (Aware now) dur of
                Inl _ \<Rightarrow> hold_row h' e t r
              | Inr s \<Rightarrow> orm_flush (db_clock (held_db ids aud h' e t now' d)) loaded (seat_apply loaded s)
                  (hold_row h' e t r))) =
        hold_row h (now + dur) (db_clock d) r"
    if r: "r \<in> set (db_seats d)" and i: "sr_id r \<in> set ids" for r
  proof -
    have f: "find_seat (sr_id r) d = Some r" using r assms(1) by (simp add: find_seat_iff)
    with assms(4) i have a: "sr_status r = AVAILABLE" by fastforce
    from r assms(2) have "row_coherent r" by (simp add: seats_coherent_iff)
    with i f a assms(3) show ?thesis
      by (simp add: by_key_wanted hold_aware holdable_def orm_flush_over_other)
  qed
  then show ?thesis
    by (simp add: naive_write_def upd_where_def by_key_wanted)
qed

lemma naive_accepts:
  assumes "schema_ok d" "ids \<noteq> [] \<longrightarrow> 0 < dur"
    and "\<forall>i \<in> set ids. \<exists>r. find_seat i d = Some r \<and> reclaimable_sql now r"
  shows "naive_acquire env ids h dur now d m =
    (Inr (acquired_result (dict_keys ids) 1), naive_write h dur now (select_seats ids d) ids (env d), m)"
proof -
  have miss: "missing_ids (select_seats ids d) ids = []"
    using assms(3) by (fastforce simp: missing_ids_Nil_iff)
  then show ?thesis
    using select_ready_iff [OF miss, of h dur now] assms(2,3) by (simp add: naive_acquire_def)
qed

text \<open>
  Two naive acquisitions of AVAILABLE seats, the second one reading before and writing after the
  first: both succeed, the second one's hold stands, and the audit trail has both.
\<close>

lemma naive_race:
  assumes "schema_ok d" "seats_coherent d" "0 < dur"
    and "\<forall>i \<in> set ids. \<exists>r. find_seat i d = Some r \<and> sr_status r = AVAILABLE"
  shows "\<exists>d1 d2. naive_acquire id ids h1 dur now d m = (Inr (acquired_result (dict_keys ids) 1), d1, m) \<and>
    naive_acquire (\<lambda>_. d1) ids h2 dur now d m = (Inr (acquired_result (dict_keys ids) 1), d2, m) \<and>
    d2 = (held_db ids (dict_keys ids) h2 (now + dur) (db_clock d) now d)
      \<lparr>db_hold_audit := db_hold_audit d @ audit_rows (dict_keys ids) h1 now @ audit_rows (dict_keys ids) h2 now\<rparr>"
proof -
  let ?d1 = "held_db ids (dict_keys ids) h1 (now + dur) (db_clock d) now d"
  let ?d2 = "naive_write h2 dur now (select_seats ids d) ids ?d1"
  have rec: "\<forall>i \<in> set ids. \<exists>r. find_seat i d = Some r \<and> reclaimable_sql now r"
    using assms(4) by (fastforce simp: reclaimable_sql_def)
  note acc = naive_accepts [OF assms(1) _ rec]
  have one: "naive_acquire id ids h1 dur now d m = (Inr (acquired_result (dict_keys ids) 1), ?d1, m)"
    using acc naive_write_held [OF assms(1,2) _ rec] assms(3) by simp
  have two: "naive_acquire (\<lambda>_. ?d1) ids h2 dur now d m = (Inr (acquired_result (dict_keys ids) 1), ?d2, m)"
    using acc assms(3) by simp
  have "db_seats ?d2 = db_seats (held_db ids (dict_keys ids) h2 (now + dur) (db_clock d) now d)"
    using naive_write_over_other [OF assms(1-4)] by simp
  moreover have "?d2 = ?d1\<lparr>db_seats := db_seats ?d2, db_hold_audit := db_hold_audit ?d1 @ audit_rows (dict_keys ids) h2 now\<rparr>"
    by (simp add: naive_write_def)
  ultimately have "?d2 = (held_db ids (dict_keys ids) h2 (now + dur) (db_clock d) now d)
      \<lparr>db_hold_audit := db_hold_audit d @ audit_rows (dict_keys ids) h1 now @ audit_rows (dict_keys ids) h2 now\<rparr>"
    by (simp add: held_db_def)
  with one two show ?thesis by blast
qed

text \<open>
  The oversell the naive strategy is there to demonstrate. Session \<open>h2\<close> reads AVAILABLE
  seats; before it writes, \<open>h1\<close> acquires them. Both are told they succeeded, both are in the
  audit trail, \<open>h2\<close> ends up with the seats, and the second hold leaves no trace in the
  versions, so the invariants over the snapshot still pass.
\<close>

theorem naive_oversells:
  assumes "schema_ok d" "seats_coherent d" "ids \<noteq> []" "0 < dur" "h1 \<noteq> h2"
    and "\<forall>i \<in> set ids. \<exists>r. find_seat i d = Some r \<and> sr_status r = AVAILABLE"
  shows "\<exists>r1 d1 r2 d2. naive_acquire id ids h1 dur now d m = (Inr r1, d1, m) \<and> ar_success r1 \<and>
    naive_acquire (\<lambda>_. d1) ids h2 dur now d m = (Inr r2, d2, m) \<and> ar_success r2 \<and>
    ar_acquired r1 = ar_acquired r2 \<and> seats_coherent d2 \<and>
    (\<forall>i \<in> set ids. \<exists>r row. find_seat i d = Some r \<and> find_seat i d2 = Some row \<and>
       sr_held_by row = Some h2 \<and> sr_version row = sr_version r + 1 \<and>
       {h1, h2} \<subseteq> ha_session_id ` {a \<in> set (db_hold_audit d2). ha_seat_id a = i})"
proof -
  let ?held = "held_db ids (dict_keys ids) h2 (now + dur) (db_clock d) now d"
  obtain d1 d2 where race: "naive_acquire id ids h1 dur now d m = (Inr (acquired_result (dict_keys ids) 1), d1, m)"
    "naive_acquire (\<lambda>_. d1) ids h2 dur now d m = (Inr (acquired_result (dict_keys ids) 1), d2, m)"
    "d2 = ?held\<lparr>db_hold_audit := db_hold_audit d @ audit_rows (dict_keys ids) h1 now @ audit_rows (dict_keys ids) h2 now\<rparr>"
    using naive_race [OF assms(1,2,4,6)] by blast
  have rec: "\<forall>i \<in> set ids. \<exists>r. find_seat i d = Some r \<and> reclaimable_sql now r"
    using assms(6) by (fastforce simp: reclaimable_sql_def)
  have find: "find_seat i d2 = find_seat i ?held" for i by (simp add: race(3) find_seat_def)
  have coh: "seats_coherent d2"
    using held_db_coherent [OF assms(2) rec assms(1)] by (simp add: race(3) seats_coherent_def)
  have "\<exists>r row. find_seat i d = Some r \<and> find_seat i d2 = Some row \<and>
       sr_held_by row = Some h2 \<and> sr_version row = sr_version r + 1 \<and>
       {h1, h2} \<subseteq> ha_session_id ` {a \<in> set (db_hold_audit d2). ha_seat_id a = i}" if i: "i \<in> set ids" for i
  proof -
    obtain r where r: "find_seat i d = Some r" using assms(6) i by blast
    have "{h1, h2} \<subseteq> ha_session_id ` {a \<in> set (db_hold_audit d2). ha_seat_id a = i}"
      using i unfolding race(3) by (force simp: audit_rows_def image_iff)
    then show ?thesis using r i unfolding find held_db_find_seat by simp
  qed
  with race(1,2) coh show ?thesis
    by (intro exI [of _ "acquired_result (dict_keys ids) 1"] exI [of _ d1] exI [of _ d2])
      (auto simp: acquired_result_def)
qed

theorem naive_oversells_witness:
  "\<exists>r1 d1 r2 d2. naive_acquire id [1] ''A'' 60 100 sample_db zero_metrics = (Inr r1, d1, zero_metrics) \<and>
     ar_success r1 \<and>
     naive_acquire (\<lambda>_. d1) [1] ''B'' 60 100 sample_db zero_metrics = (Inr r2, d2, zero_metrics) \<and> ar_success r2 \<and>
     {''A'', ''B''} \<subseteq> ha_session_id ` {a \<in> set (db_hold_audit d2). ha_seat_id a = 1}"
  using naive_oversells [of sample_db "[1]" 60 "''A''" "''B''" 100 zero_metrics] by auto

section \<open>Exclusivity\<close>

text \<open>
  Whichever strategies run, one after the other, a seat has one winner. Once an acquisition
  has succeeded, every later one that asks for any of the same seats before the hold runs out
  fails and changes nothing, and until then the winner holds all the seats it asked for.
\<close>

theorem acquisition_exclusive:
  assumes "schema_ok d" "seats_coherent d"
    and "acquire s (undisturbed e) ids h dur now d m = (Inr r, d', m')" "ar_success r"
    and "i \<in> set ids" "i \<in> set ids2" "now2 < now + dur"
    and "acquire s2 (undisturbed e2) ids2 h2 dur2 now2 d' m2 = (res2, d'', m'')"
  shows "(\<forall>r2. res2 = Inr r2 \<longrightarrow> \<not> ar_success r2) \<and> d'' = d' \<and>
    (\<forall>j \<in> set ids. \<exists>row. find_seat j d'' = Some row \<and> held_by_sql h now2 row)"
proof -
  note holds = configured.winner_holds [OF assms(1-4) _ assms(7)]
  have ok: "schema_ok d'" "seats_coherent d'"
    using configured.keeps_schema [OF assms(1-3)] configured.keeps_coherent [OF assms(1-3)] by simp_all
  have lost: "\<not> ar_success r2" if "res2 = Inr r2" for r2
  proof
    assume "ar_success r2"
    with that assms(6,8) configured.won [OF ok] have "\<exists>row. find_seat i d' = Some row \<and> reclaimable_sql now2 row"
      by blast
    with holds [OF assms(5)] held_not_reclaimable show False by auto
  qed
  moreover have "d'' = d'"
    using configured.not_won [OF assms(8)] lost by simp
  ultimately show ?thesis using holds by simp
qed

definition quiet_env :: acquire_env where
  "quiet_env = \<lparr>ae_race = \<lambda>_. id, ae_gap = \<lambda>_. id, ae_lock_error = None, ae_update_errors = \<lambda>_. None,
     ae_max_attempts = 3\<rparr>"

lemma undisturbed_quiet [simp]: "undisturbed quiet_env = quiet_env"
  by (simp add: undisturbed_def quiet_env_def)

lemma sample_acquire:
  "acquire PessimisticStrategy quiet_env [1, 3] ''D'' 60 100 sample_db zero_metrics =
     (Inr (acquired_result [1, 3] 1), held_db [1, 3] [1, 3] ''D'' 160 100 100 sample_db, zero_metrics)"
proof -
  have "sort_key sr_id (select_seats [1, 3] sample_db) =
      [seat_at 1 AVAILABLE 0 None None None, seat_at 3 HELD 1 (Some ''B'') (Some 90) None]"
    by (simp add: select_seats_def sample_db_def)
  then show ?thesis
    by (simp add: quiet_env_def pessimistic_acquire_def missing_ids_def wanted_def
        hold_aware holdable_to_domain reclaimable_sql_def expired_sql_def commit_holds_held)
qed

theorem acquisition_exclusive_witness:
  "fst (snd (acquire OptimisticStrategy quiet_env [2, 3] ''E'' 60 159
       (held_db [1, 3] [1, 3] ''D'' 160 100 100 sample_db) zero_metrics)) =
     held_db [1, 3] [1, 3] ''D'' 160 100 100 sample_db"
proof -
  obtain res2 d'' m'' where a: "acquire OptimisticStrategy quiet_env [2, 3] ''E'' 60 159
      (held_db [1, 3] [1, 3] ''D'' 160 100 100 sample_db) zero_metrics = (res2, d'', m'')"
    by (metis prod_cases3)
  then show ?thesis
    using acquisition_exclusive [of sample_db PessimisticStrategy quiet_env "[1, 3]" "''D''" 60 100
      zero_metrics "acquired_result [1, 3] 1" _ zero_metrics 3 "[2, 3]" 159 OptimisticStrategy quiet_env
      "''E''" 60 zero_metrics res2 d'' m''] sample_acquire by simp
qed

text \<open>
  C8: the pessimistic and the optimistic strategy never oversell, whatever other sessions commit
  at any point while they run. A success means that on the database the write found - one the
  interference led to - every requested seat was free or had a lapsed hold, and the write is
  exactly the hold of those seats plus their audit rows on that database.
\<close>

theorem no_oversell_under_interference:
  assumes "s \<noteq> NaiveStrategy" "schema_ok d"
    and "\<And>k x. schema_ok x \<Longrightarrow> schema_ok (ae_race e k x)" "\<And>k x. schema_ok x \<Longrightarrow> schema_ok (ae_gap e k x)"
    and "acquire s e ids h dur now d m = (Inr r, d', m')" "ar_success r"
  shows "\<exists>dk. (interference (ae_race e) (ae_gap e))\<^sup>*\<^sup>* d dk \<and> ar_acquired r = ids \<and>
    (\<forall>i \<in> set ids. \<exists>row. find_seat i dk = Some row \<and> reclaimable_sql now row) \<and>
    d' = held_db ids ids h (now + dur) now now dk"
proof (cases s)
  case PessimisticStrategy
  then have "pessimistic_acquire (ae_lock_error e) ids h dur now (ae_race e 1 d) m = (Inr r, d', m')"
    using assms(5) by simp
  note out = pessimistic_outcome [OF assms(3) [OF assms(2)] this assms(6)]
  have "interference (ae_race e) (ae_gap e) d (ae_race e 1 d)" by (auto simp: interference_def)
  with out show ?thesis by (intro exI [of _ "ae_race e 1 d"]) auto
next
  case OptimisticStrategy
  then have "optimistic_loop (ae_race e) (ae_gap e) (ae_update_errors e) (ae_max_attempts e) 1 ids h dur now d m =
      (Inr r, d', m')"
    using assms(5) by (simp add: optimistic_acquire_def)
  from optimistic_loop_outcome [OF this assms(3,4,2)] assms(6) show ?thesis
    by (auto simp: wins_on_def)
qed (use assms(1) in simp)

theorem no_oversell_under_interference_witness:
  "\<exists>dk. (interference (ae_race quiet_env) (ae_gap quiet_env))\<^sup>*\<^sup>* sample_db dk \<and>
    held_db [1, 3] [1, 3] ''D'' 160 100 100 sample_db = held_db [1, 3] [1, 3] ''D'' 160 100 100 dk"
  using no_oversell_under_interference [OF _ sample_schema _ _ sample_acquire]
  by (auto simp: quiet_env_def)

section \<open>What each strategy decides\<close>

text \<open>
  The decision all strategies are meant to take on a database: the requested ids without a seat,
  or else the first requested seat that cannot be held, or else the hold of all of them.
\<close>

definition refusal :: "seat_row \<Rightarrow> exn" where
  "refusal r = SeatUnavailable (sr_id r)
     (if sr_status r = BOOKED then ''already booked'' else ''already held and not yet expired'')"

definition first_taken :: "int list \<Rightarrow> instant \<Rightarrow> db \<Rightarrow> seat_row option" where
  "first_taken ids now d = find (\<lambda>r. \<not> reclaimable_sql now r) (List.map_filter (\<lambda>i. find_seat i d) ids)"

definition hold_decision :: "int list \<Rightarrow> instant \<Rightarrow> db \<Rightarrow> acquire_result" where
  "hold_decision ids now d =
     (let absent = filter (\<lambda>i. find_seat i d = None) ids
      in if absent \<noteq> [] then failed_result absent seat_not_found 1
         else case first_taken ids now d of
             Some r \<Rightarrow> failed_result [sr_id r] (domain_error (refusal r)) 1
           | None \<Rightarrow> acquired_result ids 1)"

lemma validate_holds_find:
  assumes "0 < dur"
  shows "validate_holds h dur now rs =
    Inr (map_option (\<lambda>r. (sr_id r, refusal r)) (find (\<lambda>r. \<not> reclaimable_sql now r) rs))"
proof (induction rs)
  case (Cons r rs)
  then show ?case
    using assms by (auto simp: hold_aware holdable_to_domain refusal_def)
qed simp

lemma missing_select: "missing_ids (select_seats ids d) ids = filter (\<lambda>i. find_seat i d = None) ids"
  by (auto simp: missing_ids_def intro!: filter_cong)

lemma wanted_select: "wanted (select_seats ids d) ids = List.map_filter (\<lambda>i. find_seat i d) ids"
proof -
  have "List.map_filter f xs = List.map_filter g xs" if "\<forall>x \<in> set xs. f x = g x"
    for f g :: "int \<Rightarrow> seat_row option" and xs
    using that by (induction xs) (auto split: option.splits)
  then show ?thesis by (simp add: wanted_def)
qed

lemma first_taken_None_iff:
  assumes "\<forall>i \<in> set ids. find_seat i d \<noteq> None"
  shows "first_taken ids now d = None \<longleftrightarrow> (\<forall>i \<in> set ids. \<exists>r. find_seat i d = Some r \<and> reclaimable_sql now r)"
proof -
  have "r \<in> set (List.map_filter (\<lambda>i. find_seat i d) ids) \<longleftrightarrow> (\<exists>i \<in> set ids. find_seat i d = Some r)" for r
    using set_wanted [of "select_seats ids d" ids] by (auto simp: wanted_select [symmetric])
  then have "first_taken ids now d = None \<longleftrightarrow>
      (\<forall>r. (\<exists>i \<in> set ids. find_seat i d = Some r) \<longrightarrow> reclaimable_sql now r)"
    by (auto simp: first_taken_def find_None_iff)
  also have "\<dots> \<longleftrightarrow> (\<forall>i \<in> set ids. \<exists>r. find_seat i d = Some r \<and> reclaimable_sql now r)"
    using assms by (metis option.inject not_None_eq)
  finally show ?thesis .
qed

lemma hold_decision_success_iff:
  "ar_success (hold_decision ids now d) \<longleftrightarrow>
    (\<forall>i \<in> set ids. \<exists>r. find_seat i d = Some r \<and> reclaimable_sql now r)"
proof (cases "\<forall>i \<in> set ids. find_seat i d \<noteq> None")
  case True
  then have "filter (\<lambda>i. find_seat i d = None) ids = []" by (simp add: filter_empty_conv)
  then show ?thesis
    using first_taken_None_iff [OF True, of now] by (auto simp: hold_decision_def split: option.split)
next
  case False
  then have "filter (\<lambda>i. find_seat i d = None) ids \<noteq> []" by (simp add: filter_empty_conv)
  then have "\<not> ar_success (hold_decision ids now d)" by (simp add: hold_decision_def)
  with False show ?thesis by force
qed

lemma pessimistic_result:
  assumes "schema_ok d" "0 < dur"
  shows "pessimistic_acquire None ids h dur now d m =
    (let r = hold_decision ids now d
     in (Inr r,
         if ar_success r then held_db ids ids h (now + dur) now now d else d,
         if \<not> ar_success r \<and> ar_reason r \<noteq> Some seat_not_found then inc (Oversell_blocked Application) m else m))"
proof (cases "filter (\<lambda>i. find_seat i d = None) ids = []")
  case True
  then show ?thesis
    by (cases "first_taken ids now d")
      (simp_all add: pessimistic_acquire_def sorted_select_missing [OF assms(1)] sorted_select_wanted [OF assms(1)]
        missing_select wanted_select validate_holds_find [OF assms(2)] hold_decision_def first_taken_def
        commit_holds_held)
next
  case False
  then show ?thesis
    by (simp add: pessimistic_acquire_def sorted_select_missing [OF assms(1)] missing_select hold_decision_def)
qed

text \<open>
  C11: The pessimistic strategy, once it has its locks, returns that decision; it writes exactly
  when the decision is a success, and a seat refused by the state machine counts one blocked
  oversell.
\<close>

theorem pessimistic_decides:
  assumes "schema_ok d" "0 < dur"
  shows "pessimistic_acquire None ids h dur now d m =
    (let r = hold_decision ids now d
     in (Inr r,
         if ar_success r then held_db ids ids h (now + dur) now now d else d,
         if \<not> ar_success r \<and> ar_reason r \<noteq> Some seat_not_found then inc (Oversell_blocked Application) m else m))"
  using assms by (rule pessimistic_result)

theorem pessimistic_decides_witness:
  "pessimistic_acquire None [1, 2] ''D'' 60 100 sample_db zero_metrics =
    (Inr (failed_result [2] (domain_error (SeatUnavailable 2 ''already held and not yet expired'')) 1), sample_db,
     inc (Oversell_blocked Application) zero_metrics)"
  using pessimistic_decides [OF sample_schema, of 60 "[1, 2]" "''D''" 100 zero_metrics]
  by (simp add: hold_decision_def first_taken_def reclaimable_sql_def expired_sql_def refusal_def)

lemma update_matches_alone:
  assumes "schema_ok d" "distinct ids"
    and "\<forall>i \<in> set ids. \<exists>r. find_seat i d = Some r \<and> reclaimable_sql now r"
  shows "rowcount (update_matches (select_seats ids d) ids now) (db_seats d) = length ids"
    and "upd_where (update_matches (select_seats ids d) ids now) f (db_seats d) =
      upd_where (\<lambda>r. sr_id r \<in> set ids) f (db_seats d)"
proof -
  let ?P = "\<lambda>r. expected_version (select_seats ids d) (sr_id r) = Some (sr_version r) \<and> reclaimable_sql now r"
  have dist: "distinct (map sr_id (db_seats d))" using assms(1) by (simp add: schema_ok_iff)
  have e: "update_matches (select_seats ids d) ids now = (\<lambda>r. sr_id r \<in> set ids \<and> ?P r)"
    by (auto simp: update_matches_def)
  have "\<exists>r \<in> set (db_seats d). sr_id r = i \<and> ?P r" if i: "i \<in> set ids" for i
  proof -
    obtain r where r: "find_seat i d = Some r" "reclaimable_sql now r" using assms(3) i by blast
    then have "r \<in> set (db_seats d)" "sr_id r = i" using find_seat_SomeD by blast+
    with r i show ?thesis by (auto simp: expected_version_def)
  qed
  with assms(2) rowcount_in_full_iff [OF dist, of ids ?P]
  show n: "rowcount (update_matches (select_seats ids d) ids now) (db_seats d) = length ids"
    by (simp add: e)
  show "upd_where (update_matches (select_seats ids d) ids now) f (db_seats d) =
      upd_where (\<lambda>r. sr_id r \<in> set ids) f (db_seats d)"
    by (rule matched_rows_all(3) [OF assms(1) n])
qed

lemma optimistic_result:
  assumes "schema_ok d" "distinct ids" "0 < dur" "0 < n"
  shows "\<exists>m1. optimistic_acquire (\<lambda>_. id) (\<lambda>_. id) (\<lambda>_. None) n ids h dur now d m =
      (Inr (hold_decision ids now d),
       if ar_success (hold_decision ids now d) then held_db ids ids h (now + dur) now now d else d, m1)"
proof -
  obtain k where n: "n = Suc k" using assms(4) by (cases n) auto
  show ?thesis
  proof (cases "ar_success (hold_decision ids now d)")
    case True
    then have rec: "\<forall>i \<in> set ids. \<exists>r. find_seat i d = Some r \<and> reclaimable_sql now r"
      by (simp add: hold_decision_success_iff)
    then have absent: "filter (\<lambda>i. find_seat i d = None) ids = []" by (auto simp: filter_empty_conv)
    have free: "first_taken ids now d = None" using rec by (subst first_taken_None_iff) auto
    show ?thesis
      using True absent free update_matches_alone [OF assms(1,2) rec]
      by (simp add: n optimistic_acquire_def missing_select wanted_select validate_holds_find [OF assms(3)]
          first_taken_def attempt_update_def hold_decision_def held_db_def)
  next
    case False
    then show ?thesis
      by (cases "filter (\<lambda>i. find_seat i d = None) ids = []"; cases "first_taken ids now d")
        (simp_all add: n optimistic_acquire_def missing_select wanted_select validate_holds_find [OF assms(3)]
          first_taken_def hold_decision_def)
  qed
qed



section \<open>Any n seats\<close>

lemma any_n_rows_props:
  assumes "schema_ok d"
  shows "set (any_n_rows locked evt count now d) \<subseteq>
      {r \<in> set (db_seats d). sr_event_id r = evt \<and> reclaimable_sql now r \<and> sr_id r \<notin> locked}"
    and "distinct (map sr_id (any_n_rows locked evt count now d))"
    and "sorted (map sr_id (any_n_rows locked evt count now d))"
proof -
  let ?F = "filter (\<lambda>r. sr_id r \<notin> locked) (sort_key sr_id
    (filter (\<lambda>r. sr_event_id r = evt \<and> reclaimable_sql now r) (db_seats d)))"
  have e: "any_n_rows locked evt count now d = take (nat count) ?F" by (simp add: any_n_rows_def)
  show "set (any_n_rows locked evt count now d) \<subseteq>
      {r \<in> set (db_seats d). sr_event_id r = evt \<and> reclaimable_sql now r \<and> sr_id r \<notin> locked}"
    unfolding e by (auto dest!: in_set_takeD)
  have "distinct (map sr_id (sort_key sr_id (filter (\<lambda>r. sr_event_id r = evt \<and> reclaimable_sql now r) (db_seats d))))"
    using assms by (simp add: schema_ok_iff distinct_map inj_on_def)
  then have "distinct (map sr_id ?F)" by (rule distinct_map_filter)
  then show "distinct (map sr_id (any_n_rows locked evt count now d))"
    unfolding e by (simp add: take_map [symmetric])
  have "sorted (map sr_id ?F)" by (rule sorted_filter) simp
  then show "sorted (map sr_id (any_n_rows locked evt count now d))"
    unfolding e by (simp add: take_map [symmetric] sorted_wrt_take)
qed

lemma any_n_validates:
  assumes "schema_ok d" "0 < dur"
  shows "validate_holds h dur now (any_n_rows locked evt count now d) = Inr None"
  using any_n_rows_props(1) [OF assms(1), of locked evt count now] assms(2)
  by (auto simp: validate_holds_None_iff)

lemma any_n_length:
  "length (any_n_rows locked evt count now d) =
    min (nat count) (rowcount (\<lambda>r. sr_event_id r = evt \<and> reclaimable_sql now r \<and> sr_id r \<notin> locked) (db_seats d))"
  by (simp add: any_n_rows_def filter_sort rowcount_def conj_ac)

text \<open>
  Mode (b), any \<open>count\<close> seats of an event. It succeeds exactly if at least \<open>count\<close> seats of
  the event are free or lapsed and not locked by another transaction; the seats it holds are then
  \<open>count\<close> different seats of the event in ascending order, none of them locked, and every one of
  them was reclaimable. Otherwise nothing is written and the reason carries how many there were.
\<close>

theorem any_n_spec:
  assumes "schema_ok d" "0 < dur" "0 \<le> count"
  shows "\<exists>r d'. acquire_any_n None locked evt count h dur now d m = (Inr r, d', m) \<and>
    (let n = rowcount (\<lambda>r. sr_event_id r = evt \<and> reclaimable_sql now r \<and> sr_id r \<notin> locked) (db_seats d) in
     (ar_success r \<longleftrightarrow> count \<le> int n) \<and>
     (ar_success r \<longrightarrow> int (length (ar_acquired r)) = count \<and> sorted_wrt (<) (ar_acquired r) \<and>
        set (ar_acquired r) \<inter> locked = {} \<and>
        (\<forall>i \<in> set (ar_acquired r). \<exists>row. find_seat i d = Some row \<and> sr_event_id row = evt \<and> reclaimable_sql now row) \<and>
        d' = held_db (ar_acquired r) (ar_acquired r) h (now + dur) now now d) \<and>
     (\<not> ar_success r \<longrightarrow> d' = d \<and> ar_reason r = Some (insufficient_availability n count)))"
proof -
  let ?rows = "any_n_rows locked evt count now d"
  let ?n = "rowcount (\<lambda>r. sr_event_id r = evt \<and> reclaimable_sql now r \<and> sr_id r \<notin> locked) (db_seats d)"
  note props = any_n_rows_props [OF assms(1), of locked evt count now]
  show ?thesis
  proof (cases "count \<le> int ?n")
    case True
    then have len: "int (length ?rows) = count" using assms(3) by (simp add: any_n_length)
    have srt: "sorted_wrt (<) (map sr_id ?rows)" using props(2,3) by (simp add: strict_sorted_iff)
    have rows: "\<exists>row. find_seat i d = Some row \<and> sr_event_id row = evt \<and> reclaimable_sql now row"
      if "i \<in> set (map sr_id ?rows)" for i
      using that props(1) assms(1) by (fastforce simp: find_seat_iff)
    have "acquire_any_n None locked evt count h dur now d m =
        (Inr (acquired_result (map sr_id ?rows) 1), held_db (map sr_id ?rows) (map sr_id ?rows) h (now + dur) now now d, m)"
      using assms(3) len any_n_validates [OF assms(1,2)]
      by (simp add: acquire_any_n_def Let_def commit_holds_held)
    then show ?thesis
      using True len srt rows props(1)
      by (intro exI [of _ "acquired_result (map sr_id ?rows) 1"] exI) (auto simp: Let_def)
  next
    case False
    then have "length ?rows = ?n" using assms(3) by (simp add: any_n_length)
    with False assms(3) show ?thesis by (simp add: acquire_any_n_def Let_def)
  qed
qed

theorem any_n_spec_witness:
  "\<exists>r d'. acquire_any_n None {1} 1 1 ''D'' 60 100 sample_db zero_metrics = (Inr r, d', zero_metrics) \<and> ar_success r"
proof -
  have "rowcount (\<lambda>r. sr_event_id r = 1 \<and> reclaimable_sql 100 r \<and> sr_id r \<notin> {1}) (db_seats sample_db) = 1"
    by (simp add: sample_db_def reclaimable_sql_def expired_sql_def)
  then show ?thesis
    using any_n_spec [OF sample_schema, of 60 1 "{1}" 1 "''D''" 100 zero_metrics] by (auto simp: Let_def)
qed

section \<open>Retries\<close>

text \<open>
  C35: The optimistic strategy's retry budget and counters, under any interference and any mix of
  deadlock answers: it makes at most \<open>n\<close> attempts, and each lost attempt counted as a conflict is
  followed by exactly one counted retry or by the one counted exhaustion.
\<close>

theorem optimistic_budget:
  assumes "optimistic_acquire env gap errs n ids h dur now d m = (Inr r, d', m')" "0 < n"
    and "\<forall>k. errs k = None \<or> errs k = Some ''40P01''"
  shows "ar_attempts r \<le> n \<and>
    m' Optimistic_conflicts + m Optimistic_retries + m Optimistic_exhausted =
      m Optimistic_conflicts + m' Optimistic_retries + m' Optimistic_exhausted"
proof -
  obtain k where n: "n = Suc k" using assms(2) by (cases n) auto
  show ?thesis
    using optimistic_attempts_bound [of env gap errs n 1 ids h dur now d m r d' m']
      optimistic_counters [of env gap errs k 1 ids h dur now d m "Inr r" d' m'] assms
    by (simp add: optimistic_acquire_def n del: optimistic_loop.simps)
qed

lemma sample_exhausted:
  "optimistic_acquire (\<lambda>_. id) (\<lambda>_. id) (\<lambda>_. None) 2 [1, 1] ''D'' 60 100 sample_db zero_metrics =
     (Inr (failed_result [1, 1] (retry_budget_exhausted 2) 2), sample_db,
      inc Optimistic_exhausted (inc Optimistic_conflicts (inc Optimistic_retries (inc Optimistic_conflicts zero_metrics))))"
proof -
  have "rowcount (update_matches (select_seats [1, 1] sample_db) [1, 1] 100) (db_seats sample_db) = 1"
    by (simp add: sample_db_def update_matches_def select_seats_def expected_version_def reclaimable_sql_def)
  then show ?thesis
    by (simp add: optimistic_acquire_def numeral_2_eq_2 missing_select wanted_select hold_aware
        holdable_to_domain reclaimable_sql_def attempt_update_def Let_def)
qed

theorem optimistic_budget_witness:
  "inc Optimistic_exhausted (inc Optimistic_conflicts (inc Optimistic_retries (inc Optimistic_conflicts zero_metrics)))
     Optimistic_conflicts = 2"
  using optimistic_budget [OF sample_exhausted] by simp

section \<open>Deadlocks\<close>

text \<open>
  C34: Transactions that lock their rows as mode (a) of the pessimistic strategy does, in
  ascending order of id, never deadlock, however their steps interleave and whichever seats they
  ask for, and some open transaction can always go on. Two transactions that take the same two
  rows in opposite orders do deadlock.
\<close>

theorem ordered_locking_deadlock_free:
  assumes "no_locks s" "lock_step\<^sup>*\<^sup>* s t"
  shows "\<not> deadlocked t \<and> (opened t \<noteq> {} \<longrightarrow> (\<exists>c \<in> opened t. \<not> blocked t c)) \<and> deadlocked crossed_locks"
proof -
  have inv: "ordered_locks t" using row_locks.reachable_inv assms .
  then have nd: "\<not> deadlocked t" by (rule ordered_not_deadlocked)
  have "\<exists>c \<in> opened t. \<not> blocked t c" if "opened t \<noteq> {}"
  proof (rule ccontr)
    assume "\<not> (\<exists>c \<in> opened t. \<not> blocked t c)"
    then have "\<forall>c \<in> opened t. \<exists>c' \<in> opened t. waits_for t c c'"
      using inv by (fastforce simp: blocked_def waits_for_def ordered_locks_def)
    with that have "deadlocked t"
      unfolding deadlocked_def by (intro exI [of _ "opened t"]) simp
    with nd show False by simp
  qed
  moreover have "deadlocked crossed_locks"
    unfolding deadlocked_def
    by (intro exI [of _ "{0, 1}"]) (auto simp: crossed_locks_def waits_for_def)
  ultimately show ?thesis using nd by blast
qed

definition unlocked :: lock_table where
  "unlocked = \<lparr>owner = \<lambda>_. None, todo = \<lambda>_. [], opened = {}\<rparr>"

theorem ordered_locking_deadlock_free_witness:
  "\<not> deadlocked (unlocked\<lparr>todo := (todo unlocked)(7 := lock_order [3, 1] sample_db), opened := {7}\<rparr>)"
proof -
  have "lock_step unlocked (unlocked\<lparr>todo := (todo unlocked)(7 := lock_order [3, 1] sample_db), opened := {7}\<rparr>)"
    using begin_txn [of 7 unlocked sample_db "[3, 1]"] by (simp add: unlocked_def)
  then show ?thesis
    using ordered_locking_deadlock_free [of unlocked] by (auto simp: no_locks_def unlocked_def)
qed

end
