(* ===== verification/Booking_Flow.thy ===== *)
theory Booking_Flow
  imports Tables Metrics
begin

text \<open>
  \<^verbatim>\<open>app/booking/\<close>: creating a PENDING booking over held seats (\<^verbatim>\<open>create.py\<close>), confirming it
  (\<^verbatim>\<open>confirm.py\<close>), and the response both return (\<^verbatim>\<open>responses.py\<close>).

  Neither function commits: the route does. \<open>attempt_confirm_write\<close> rolls back when its write
  does not go through, to \<open>base\<close>, the database as of the start of the transaction it runs in.
  What SQLAlchemy does with an INSERT over an empty list of parameter sets is not the
  program's: \<open>empty_insert\<close> says whether it is a no-op or fails (the columns are NOT NULL).
\<close>

definition build_booking_response :: "booking_row \<Rightarrow> booking_response" where
  "build_booking_response b =
     \<lparr>resp_id = br_id b, resp_event_id = br_event_id b, resp_user_id = br_user_id b,
      resp_session_id = br_session_id b, resp_status = br_status b, resp_seat_ids = br_seat_ids b,
      resp_total_amount = br_total_amount b, resp_currency = br_currency b,
      resp_created_at = br_created_at b, resp_confirmed_at = br_confirmed_at b\<rparr>"

section \<open>Creation\<close>

record create_params =
  cp_event_id :: int
  cp_seat_ids :: "int list"
  cp_session_id :: session_id
  cp_user_id :: int
  cp_total_amount :: int
  cp_currency :: string
  cp_idempotency_key :: string

datatype creation_exn = BookingCreationFailed "int list" | CreationDbError db_error

text \<open>The seats of the request that cannot be booked: not there, not HELD, another session's, or expired.\<close>

definition invalid_seats :: "create_params \<Rightarrow> instant \<Rightarrow> db \<Rightarrow> int list" where
  "invalid_seats p now d =
     filter (\<lambda>i. case by_key sr_id i (select_seats (cp_seat_ids p) d) of
         None \<Rightarrow> True
       | Some row \<Rightarrow>
           sr_status row \<noteq> HELD \<or> sr_held_by row \<noteq> Some (cp_session_id p) \<or>
           (case sr_expires row of None \<Rightarrow> True | Some e \<Rightarrow> e \<le> now)) (cp_seat_ids p)"

definition pending_row :: "create_params \<Rightarrow> instant \<Rightarrow> int \<Rightarrow> booking_row" where
  "pending_row p now i =
     \<lparr>br_id = i, br_event_id = cp_event_id p, br_user_id = cp_user_id p,
      br_session_id = cp_session_id p, br_status = PENDING, br_total_amount = cp_total_amount p,
      br_currency = cp_currency p, br_seat_ids = cp_seat_ids p,
      br_idempotency_key = Some (cp_idempotency_key p), br_created_at = now,
      br_confirmed_at = None\<rparr>"

text \<open>
  The INSERT: VARCHAR(3) and NUMERIC(12, 2) limit two columns, \<open>event_id\<close> is a foreign key, and
  \<open>(user_id, idempotency_key)\<close> is unique.
\<close>

definition insert_booking :: "booking_row \<Rightarrow> db \<Rightarrow> db_error + db" where
  "insert_booking b d =
     (if 3 < length (br_currency b) \<or> 10 ^ 12 \<le> \<bar>br_total_amount b\<bar> then Inl DataError
      else if find_event (br_event_id b) d = None then Inl IntegrityError
      else if \<not> booking_key_unique (db_bookings d @ [b]) then Inl IntegrityError
      else Inr (d\<lparr>db_bookings := db_bookings d @ [b], db_next_booking := db_next_booking d + 1\<rparr>))"

definition create_booking :: "create_params \<Rightarrow> instant \<Rightarrow> db \<Rightarrow> (creation_exn + booking_response) \<times> db" where
  "create_booking p now d =
     (let invalid = invalid_seats p now d
      in if invalid \<noteq> [] then (Inl (BookingCreationFailed invalid), d)
         else
           (let b = pending_row p now (db_next_booking d)
            in case insert_booking b d of
                 Inl e \<Rightarrow> (Inl (CreationDbError e), d)
               | Inr d' \<Rightarrow> (Inr (build_booking_response b), d')))"

section \<open>Confirmation\<close>

definition load_booking :: "int \<Rightarrow> db \<Rightarrow> booking_row option" where
  "load_booking = find_booking"

definition book_row :: "int \<Rightarrow> instant \<Rightarrow> seat_row \<Rightarrow> seat_row" where
  "book_row bid now r =
     r\<lparr>sr_status := BOOKED, sr_version := sr_version r + 1, sr_held_by := None, sr_expires := None,
       sr_booking_id := Some bid, sr_updated_at := now\<rparr>"

definition confirm_matches :: "int list \<Rightarrow> session_id \<Rightarrow> instant \<Rightarrow> seat_row \<Rightarrow> bool" where
  "confirm_matches ids session now r \<longleftrightarrow> sr_id r \<in> set ids \<and> held_by_sql session now r"

definition link_rows :: "int \<Rightarrow> int list \<Rightarrow> booking_seat_row list" where
  "link_rows bid ids = map (\<lambda>s. \<lparr>bs_booking_id = bid, bs_seat_id = s, bs_released_at = None\<rparr>) ids"

text \<open>The primary key and the partial unique index of \<open>booking_seats\<close>, for a batch of new active rows.\<close>

definition links_insertable :: "bool \<Rightarrow> int \<Rightarrow> int list \<Rightarrow> db \<Rightarrow> bool" where
  "links_insertable empty_insert bid ids d \<longleftrightarrow>
     (ids = [] \<longrightarrow> empty_insert) \<and> distinct ids \<and>
     list_all (\<lambda>s. list_all (\<lambda>r. bs_pk r \<noteq> (bid, s) \<and> \<not> (bs_active r \<and> bs_seat_id r = s))
       (db_booking_seats d)) ids"

definition confirm_booking_row :: "string option \<Rightarrow> instant \<Rightarrow> booking_row \<Rightarrow> booking_row" where
  "confirm_booking_row key now b =
     b\<lparr>br_status := CONFIRMED, br_confirmed_at := Some now,
       br_idempotency_key := (case key of None \<Rightarrow> br_idempotency_key b | Some k \<Rightarrow> Some k)\<rparr>"

definition outbox_append :: "outbox_payload \<Rightarrow> instant \<Rightarrow> db \<Rightarrow> db" where
  "outbox_append p now d =
     d\<lparr>db_outbox := db_outbox d @ [\<lparr>ob_payload = p, ob_created_at = now, ob_published_at = None\<rparr>]\<rparr>"

definition attempt_confirm_write :: "bool \<Rightarrow> db \<Rightarrow> int \<Rightarrow> int list \<Rightarrow> session_id \<Rightarrow> instant \<Rightarrow> string option \<Rightarrow>
    db \<Rightarrow> metrics \<Rightarrow> (db_error + bool) \<times> db \<times> metrics" where
  "attempt_confirm_write empty_insert base bid ids session now key d m =
     (let n = rowcount (confirm_matches ids session now) (db_seats d);
          d1 = d\<lparr>db_seats := upd_where (confirm_matches ids session now) (book_row bid now) (db_seats d)\<rparr>;
          pending = (\<lambda>b. br_id b = bid \<and> br_status b = PENDING);
          bookings = upd_where pending (confirm_booking_row key now) (db_bookings d)
      in if 0 < n \<and> find_booking bid d = None then (Inl IntegrityError, base, m)
         else if n \<noteq> length ids then (Inr False, base, m)
         else if \<not> links_insertable empty_insert bid ids d1
           then (Inr False, base, inc (Oversell_blocked Database) m)
         else if \<not> booking_key_unique bookings then (Inl IntegrityError, base, m)
         else if rowcount pending (db_bookings d) \<noteq> 1 then (Inr False, base, m)
         else (Inr True,
               outbox_append (BookingConfirmed bid ids) now
                 (d1\<lparr>db_booking_seats := db_booking_seats d1 @ link_rows bid ids, db_bookings := bookings\<rparr>),
               m))"

datatype confirm_exn = BookingNotFound | ConfirmFailed confirm_failure | ConfirmDbError db_error | ConfirmRaised exn

text \<open>Which exceptions of the validation the route's caller sees as a clean rejection.\<close>

fun translate_confirm :: "exn \<Rightarrow> confirm_exn" where
  "translate_confirm (IllegalTransition i a b) = ConfirmFailed (seat_confirm_rejected (IllegalTransition i a b))"
| "translate_confirm (NotHoldOwner i a b) = ConfirmFailed (seat_confirm_rejected (NotHoldOwner i a b))"
| "translate_confirm (HoldExpired i) = ConfirmFailed (seat_confirm_rejected (HoldExpired i))"
| "translate_confirm (IllegalBookingTransition i a b) =
     ConfirmFailed (booking_confirm_rejected (IllegalBookingTransition i a b))"
| "translate_confirm e = ConfirmRaised e"

definition confirm_checks :: "seat_row list \<Rightarrow> booking_row \<Rightarrow> session_id \<Rightarrow> instant \<Rightarrow> exn + unit" where
  "confirm_checks rows b session now =
     bindE (forE (\<lambda>r. bindE (confirm (seat_to_domain r) session (br_id b) (Aware now)) (\<lambda>_. Inr ())) rows)
       (\<lambda>_. bindE (confirm_booking (booking_to_domain b) (Aware now)) (\<lambda>_. Inr ()))"

text \<open>
  \<open>env\<close> is what other sessions commit between the reads and the conditional UPDATE. Nothing is
  written before the UPDATE, so a rollback leads back to what they committed.
\<close>

definition confirm_booking_transaction :: "bool \<Rightarrow> (db \<Rightarrow> db) \<Rightarrow> int \<Rightarrow> session_id \<Rightarrow> string \<Rightarrow> instant \<Rightarrow>
    db \<Rightarrow> metrics \<Rightarrow> (confirm_exn + booking_response) \<times> db \<times> metrics" where
  "confirm_booking_transaction empty_insert env bid session key now d m =
     (case load_booking bid d of
        None \<Rightarrow> (Inl BookingNotFound, d, m)
      | Some b \<Rightarrow>
         (let ids = br_seat_ids b; rows = select_seats ids d
          in if length rows \<noteq> length ids then (Inl (ConfirmFailed booking_seats_missing), d, m)
             else case confirm_checks rows b session now of
                 Inl e \<Rightarrow> (Inl (translate_confirm e), d, m)
               | Inr _ \<Rightarrow>
                   (let d1 = env d
                    in case attempt_confirm_write empty_insert d1 bid ids session now (Some key) d1 m of
                         (Inl e, d2, m2) \<Rightarrow> (Inl (ConfirmDbError e), d2, m2)
                       | (Inr False, d2, m2) \<Rightarrow> (Inl (ConfirmFailed hold_no_longer_valid), d2, m2)
                       | (Inr True, d2, m2) \<Rightarrow>
                           (case load_booking bid d2 of
                              None \<Rightarrow> (Inl BookingNotFound, d2, m2)
                            | Some c \<Rightarrow> (Inr (build_booking_response c), d2, m2)))))"

end
