(* ===== verification/Idempotency.thy ===== *)
theory Idempotency
  imports Json_Text Booking_Flow
begin

text \<open>
  \<^verbatim>\<open>app/infra/idempotency.py\<close> and \<^verbatim>\<open>workers/idempotency_reaper.py\<close>: the four answers to a request
  that carries an Idempotency-Key, the completion marker, and the job that decides about requests
  that never completed. Every query is scoped by \<open>(user_id, key)\<close>.

  SHA-256 is a parameter. \<open>env\<close> is what other sessions commit between the look-up of the existing
  row and the conditional UPDATE that reclaims it.
\<close>

section \<open>Fingerprints\<close>

definition compute_fingerprint :: "(string \<Rightarrow> string) \<Rightarrow> string \<Rightarrow> string \<Rightarrow> json \<Rightarrow> string" where
  "compute_fingerprint sha256_hex http_method path body =
     sha256_hex (http_method @ [char_of (10 :: nat)] @ path @ [char_of (10 :: nat)] @ json_dumps body)"

section \<open>The four cases\<close>

datatype idem_outcome = New | Replay int response_body | Conflict | InProgress timedelta

definition new_key_row :: "string \<Rightarrow> int \<Rightarrow> string \<Rightarrow> instant \<Rightarrow> timedelta \<Rightarrow> idem_row" where
  "new_key_row key user_id fingerprint now ttl =
     \<lparr>ik_user_id = user_id, ik_key = key, ik_fingerprint = fingerprint, ik_status = IN_PROGRESS,
      ik_response_status = None, ik_response_body = None, ik_created_at = now, ik_expires_at = now + ttl\<rparr>"

definition reclaim_row :: "instant \<Rightarrow> timedelta \<Rightarrow> idem_row \<Rightarrow> idem_row" where
  "reclaim_row now ttl r = r\<lparr>ik_status := IN_PROGRESS, ik_created_at := now, ik_expires_at := now + ttl\<rparr>"

definition stored_replay :: "idem_row \<Rightarrow> idem_outcome" where
  "stored_replay r =
     Replay (case ik_response_status r of Some s \<Rightarrow> (if s = 0 then 500 else s) | None \<Rightarrow> 500)
       (case ik_response_body r of Some b \<Rightarrow> b | None \<Rightarrow> EmptyBody)"

definition begin_idempotent_request :: "(db \<Rightarrow> db) \<Rightarrow> string \<Rightarrow> int \<Rightarrow> string \<Rightarrow> instant \<Rightarrow> timedelta \<Rightarrow>
    timedelta \<Rightarrow> db \<Rightarrow> metrics \<Rightarrow> idem_outcome \<times> db \<times> metrics" where
  "begin_idempotent_request env key user_id fingerprint now ttl stale_timeout d m =
     (case find_idem user_id key d of
        None \<Rightarrow>
          (New, d\<lparr>db_idempotency_keys := db_idempotency_keys d @ [new_key_row key user_id fingerprint now ttl]\<rparr>, m)
      | Some existing \<Rightarrow>
          if ik_fingerprint existing \<noteq> fingerprint then (Conflict, d, inc Idempotency_conflict m)
          else
            (case ik_status existing of
               IN_PROGRESS \<Rightarrow>
                 (InProgress (max 1000000 (stale_timeout - (now - ik_created_at existing))), d,
                  inc Idempotency_in_progress m)
             | FAILED \<Rightarrow>
                 (let d1 = env d;
                      mine = (\<lambda>r. ik_pk r = (user_id, key) \<and> ik_status r = FAILED);
                      d2 = d1\<lparr>db_idempotency_keys := upd_where mine (reclaim_row now ttl) (db_idempotency_keys d1)\<rparr>
                  in if rowcount mine (db_idempotency_keys d1) = 1 then (New, d2, m)
                     else (InProgress stale_timeout, d2, inc Idempotency_in_progress m))
             | COMPLETED \<Rightarrow> (stored_replay existing, d, inc Idempotent_replay m)))"

definition complete_row :: "int \<Rightarrow> response_body \<Rightarrow> idem_row \<Rightarrow> idem_row" where
  "complete_row response_status body r =
     r\<lparr>ik_status := COMPLETED, ik_response_status := Some response_status, ik_response_body := Some body\<rparr>"

definition complete_idempotent_request :: "string \<Rightarrow> int \<Rightarrow> int \<Rightarrow> response_body \<Rightarrow> db \<Rightarrow> db" where
  "complete_idempotent_request key user_id response_status body d =
     d\<lparr>db_idempotency_keys :=
         upd_where (\<lambda>r. ik_pk r = (user_id, key)) (complete_row response_status body) (db_idempotency_keys d)\<rparr>"

section \<open>The reaper\<close>

text \<open>\<open>ORDER BY user_id, key\<close>.\<close>

datatype idem_order = Idem_Order (order_user: int) (order_key: string)

instantiation idem_order :: linorder
begin

definition less_eq_idem_order :: "idem_order \<Rightarrow> idem_order \<Rightarrow> bool" where
  "less_eq_idem_order a b \<longleftrightarrow>
     order_user a < order_user b \<or> order_user a = order_user b \<and> order_key a \<le> order_key b"

definition less_idem_order :: "idem_order \<Rightarrow> idem_order \<Rightarrow> bool" where
  "less_idem_order a b \<longleftrightarrow> a \<le> b \<and> \<not> b \<le> (a :: idem_order)"

instance
  by standard (auto simp: less_eq_idem_order_def less_idem_order_def intro: idem_order.expand)

end

definition idem_order_of :: "idem_row \<Rightarrow> idem_order" where
  "idem_order_of r = Idem_Order (ik_user_id r) (ik_key r)"

record reap_result =
  rp_stale_found :: nat
  rp_recovered :: nat
  rp_reaped :: nat

definition stale_row :: "instant \<Rightarrow> idem_row \<Rightarrow> bool" where
  "stale_row cutoff r \<longleftrightarrow> ik_status r = IN_PROGRESS \<and> ik_created_at r \<le> cutoff"

text \<open>\<open>locked\<close> are the keys whose rows other transactions hold locks on.\<close>

definition stale_rows :: "(int \<times> string) set \<Rightarrow> nat \<Rightarrow> instant \<Rightarrow> db \<Rightarrow> idem_row list" where
  "stale_rows locked batch cutoff d =
     take batch (filter (\<lambda>r. ik_pk r \<notin> locked)
       (sort_key idem_order_of (filter (stale_row cutoff) (db_idempotency_keys d))))"

definition bookings_with_key :: "int \<Rightarrow> string \<Rightarrow> db \<Rightarrow> booking_row list" where
  "bookings_with_key user_id key d =
     filter (\<lambda>b. br_user_id b = user_id \<and> br_idempotency_key b = Some key) (db_bookings d)"

definition reap_row :: "db \<Rightarrow> idem_row \<Rightarrow> idem_row" where
  "reap_row d r =
     (case bookings_with_key (ik_user_id r) (ik_key r) d of
        [] \<Rightarrow> r\<lparr>ik_status := FAILED\<rparr>
      | b # _ \<Rightarrow> r\<lparr>ik_status := COMPLETED, ik_response_status := Some 200,
                  ik_response_body := Some (BookingBody (build_booking_response b))\<rparr>)"

definition has_booking :: "db \<Rightarrow> idem_row \<Rightarrow> bool" where
  "has_booking d r \<longleftrightarrow> bookings_with_key (ik_user_id r) (ik_key r) d \<noteq> []"

definition reap_once :: "(int \<times> string) set \<Rightarrow> nat \<Rightarrow> timedelta \<Rightarrow> instant \<Rightarrow> db \<Rightarrow> metrics \<Rightarrow>
    reap_result \<times> db \<times> metrics" where
  "reap_once locked batch timeout now d m =
     (let rows = stale_rows locked batch (now - timeout) d;
          recovered = length (filter (has_booking d) rows);
          reaped = length (filter (\<lambda>r. \<not> has_booking d r) rows)
      in (\<lparr>rp_stale_found = length rows, rp_recovered = recovered, rp_reaped = reaped\<rparr>,
          d\<lparr>db_idempotency_keys :=
              upd_where (\<lambda>r. ik_pk r \<in> set (map ik_pk rows)) (reap_row d) (db_idempotency_keys d)\<rparr>,
          inc_by Stale_keys_reaped reaped (inc_by Stale_keys_recovered recovered m)))"

end
