(* ===== verification/Routes.thy ===== *)
theory Routes
  imports Config Cache Idempotency Strategies
begin

text \<open>
  The HTTP routes that change seats and bookings: \<^verbatim>\<open>app/api/routes/booking.py\<close> (holds),
  \<^verbatim>\<open>app/api/routes/bookings.py\<close> (bookings), and the exception handlers of \<^verbatim>\<open>app/main.py\<close>.

  A route returns its response or the exception that leaves it. Its database effects are those of
  the transactions it committed; what it publishes and mirrors goes to \<open>redis\<close>.
\<close>

record 'b http =
  hr_status :: int
  hr_retry_after :: "int option"
  hr_body :: 'b

definition respond :: "int \<Rightarrow> 'b \<Rightarrow> 'b http" where
  "respond code body = \<lparr>hr_status = code, hr_retry_after = None, hr_body = body\<rparr>"

lemma respond_sel [simp]:
  "hr_status (respond c b) = c" "hr_body (respond c b) = b" "hr_retry_after (respond c b) = None"
  by (simp_all add: respond_def)

datatype raised = RaisedByAcquire acquire_exn | RaisedByDb db_error | RaisedPy exn

text \<open>
  What a client sees of an exception: 503 from the handlers for \<open>StrategyUnavailable\<close> and
  \<open>DBAPIError\<close> (SQLAlchemy's base class of every database error, constraint violations
  included), 500 otherwise.
\<close>

fun exception_status :: "raised \<Rightarrow> int" where
  "exception_status (RaisedByAcquire (StrategyUnavailable why)) = 503"
| "exception_status (RaisedByAcquire (DBAPIError sqlstate)) = 503"
| "exception_status (RaisedByAcquire (PyError e)) = 500"
| "exception_status (RaisedByDb e) = 503"
| "exception_status (RaisedPy e) = 500"

section \<open>Holds\<close>

datatype hold_body =
    HoldResponse int "int list" session_id instant
  | HoldFailureResponse "int list" "reason option"

fun mirror_all :: "int list \<Rightarrow> session_id \<Rightarrow> instant \<Rightarrow> instant \<Rightarrow> redis \<Rightarrow> metrics \<Rightarrow> redis \<times> metrics" where
  "mirror_all [] session expires_at now r m = (r, m)"
| "mirror_all (i # is) session expires_at now r m =
     (let (r', m') = set_hold_mirror i session expires_at now r m in mirror_all is session expires_at now r' m')"

definition held_update :: "instant \<Rightarrow> seat_row \<Rightarrow> seat_update" where
  "held_update expires_at row =
     \<lparr>su_seat_id = sr_id row, su_status = HELD, su_expires = Some expires_at, su_version = sr_version row\<rparr>"

definition create_hold :: "settings \<Rightarrow> acquire_env \<Rightarrow> int \<Rightarrow> int list \<Rightarrow> session_id \<Rightarrow> instant \<Rightarrow>
    db \<Rightarrow> redis \<Rightarrow> metrics \<Rightarrow> (raised + hold_body http) \<times> db \<times> redis \<times> metrics" where
  "create_hold cfg e evt seat_ids session now d r m =
     (case get_strategy (cfg_strategy cfg) of
        Inl x \<Rightarrow> (Inl (RaisedPy x), d, r, m)
      | Inr s \<Rightarrow>
         (case acquire s (e\<lparr>ae_max_attempts := cfg_optimistic_max_attempts cfg\<rparr>) seat_ids session
                 (cfg_hold_duration cfg) now d m of
            (Inl x, d', m') \<Rightarrow> (Inl (RaisedByAcquire x), d', r, m')
          | (Inr res, d', m') \<Rightarrow>
              if \<not> ar_success res
              then (Inr (respond 409 (HoldFailureResponse (ar_failed res) (ar_reason res))), d', r, m')
              else
                (let expires_at = now + cfg_hold_duration cfg;
                     (r1, m1) = mirror_all (ar_acquired res) session expires_at now r m';
                     r2 = (if ar_acquired res \<noteq> []
                           then publish_rows (held_update expires_at) (\<lambda>_. evt) (select_seats (ar_acquired res) d') r1
                           else r1)
                 in (Inr (respond 201 (HoldResponse evt (ar_acquired res) session expires_at)), d', r2, m1))))"

definition extend_matches :: "int \<Rightarrow> session_id \<Rightarrow> instant \<Rightarrow> seat_row \<Rightarrow> bool" where
  "extend_matches i session now row \<longleftrightarrow> sr_id row = i \<and> held_by_sql session now row"

definition extend_row :: "instant \<Rightarrow> instant \<Rightarrow> seat_row \<Rightarrow> seat_row" where
  "extend_row expires_at now row =
     row\<lparr>sr_expires := Some expires_at, sr_version := sr_version row + 1, sr_updated_at := now\<rparr>"

definition extend_hold_at :: "int \<Rightarrow> session_id \<Rightarrow> instant \<Rightarrow> instant \<Rightarrow> db \<Rightarrow> redis \<Rightarrow> metrics \<Rightarrow>
    bool \<times> db \<times> redis \<times> metrics" where
  "extend_hold_at i session now expires_at d r m =
     (case filter (extend_matches i session now) (db_seats d) of
        [] \<Rightarrow> (False, d, r, m)
      | row # _ \<Rightarrow>
         (let d' = d\<lparr>db_seats := upd_where (extend_matches i session now) (extend_row expires_at now) (db_seats d)\<rparr>;
              (r1, m1) = set_hold_mirror i session expires_at now r m;
              r2 = publish_seat_update (sr_event_id row) (sr_section row)
                     (held_update expires_at (extend_row expires_at now row)) r1
          in (True, d', r2, m1)))"

datatype extend_body = ExtendResponse int session_id instant | ExtendFailureResponse string

definition extend_hold :: "settings \<Rightarrow> int \<Rightarrow> session_id \<Rightarrow> instant \<Rightarrow> db \<Rightarrow> redis \<Rightarrow> metrics \<Rightarrow>
    extend_body http \<times> db \<times> redis \<times> metrics" where
  "extend_hold cfg i session now d r m =
     (let expires_at = now + cfg_hold_duration cfg
      in case extend_hold_at i session now expires_at d r m of
           (ok, d', r', m') \<Rightarrow>
             (if ok then respond 200 (ExtendResponse i session expires_at)
              else respond 409 (ExtendFailureResponse ''hold_not_found_or_already_expired''), d', r', m'))"

section \<open>Bookings\<close>

text \<open>\<open>round(seconds)\<close>: to the nearest integer, ties to even; the argument is in microseconds.\<close>

definition round_seconds :: "timedelta \<Rightarrow> int" where
  "round_seconds us =
     (let q = us div 1000000; rest = us mod 1000000
      in if rest < 500000 then q else if 500000 < rest then q + 1 else if even q then q else q + 1)"

fun handle_idempotency_outcome :: "idem_outcome \<Rightarrow> response_body http option" where
  "handle_idempotency_outcome (Replay code body) = Some (respond code body)"
| "handle_idempotency_outcome Conflict = Some (respond 422 KeyConflictBody)"
| "handle_idempotency_outcome (InProgress after) =
     Some \<lparr>hr_status = 409, hr_retry_after = Some (max 1 (round_seconds after)), hr_body = RequestInProgressBody\<rparr>"
| "handle_idempotency_outcome New = None"

text \<open>
  The body of \<open>POST /api/bookings\<close>. A \<open>Decimal\<close> is dumped as text, which keeps its trailing zeros,
  so the request carries that text beside the amount.
\<close>

record create_request =
  cq_event_id :: int
  cq_seat_ids :: "int list"
  cq_session_id :: session_id
  cq_user_id :: int
  cq_total_amount :: int
  cq_amount_text :: string
  cq_currency :: string

definition create_request_json :: "create_request \<Rightarrow> json" where
  "create_request_json q =
     JObj [(''event_id'', JInt (cq_event_id q)), (''seat_ids'', JArr (map JInt (cq_seat_ids q))),
           (''session_id'', JStr (cq_session_id q)), (''user_id'', JInt (cq_user_id q)),
           (''total_amount'', JStr (cq_amount_text q)), (''currency'', JStr (cq_currency q))]"

definition create_request_params :: "create_request \<Rightarrow> string \<Rightarrow> create_params" where
  "create_request_params q key =
     \<lparr>cp_event_id = cq_event_id q, cp_seat_ids = cq_seat_ids q, cp_session_id = cq_session_id q,
      cp_user_id = cq_user_id q, cp_total_amount = cq_total_amount q, cp_currency = cq_currency q,
      cp_idempotency_key = key\<rparr>"

text \<open>
  \<open>env1\<close>: other sessions while the key is looked up; \<open>env2\<close>: other sessions between the commit of
  the key's row and the booking's transaction.
\<close>

definition create_booking_route :: "(string \<Rightarrow> string) \<Rightarrow> settings \<Rightarrow> (db \<Rightarrow> db) \<Rightarrow> (db \<Rightarrow> db) \<Rightarrow> string \<Rightarrow>
    create_request \<Rightarrow> string \<Rightarrow> instant \<Rightarrow> db \<Rightarrow> metrics \<Rightarrow> (raised + response_body http) \<times> db \<times> metrics" where
  "create_booking_route sha cfg env1 env2 path q key now d m =
     (let fingerprint = compute_fingerprint sha ''POST'' path (create_request_json q);
          (outcome, d1, m1) = begin_idempotent_request env1 key (cq_user_id q) fingerprint now
            (cfg_idempotency_key_ttl cfg) (cfg_idempotency_stale_timeout cfg) d m
      in case handle_idempotency_outcome outcome of
           Some reply \<Rightarrow> (Inr reply, d1, m1)
         | None \<Rightarrow>
             (case create_booking (create_request_params q key) now (env2 d1) of
                (Inl (CreationDbError x), d2) \<Rightarrow> (Inl (RaisedByDb x), d2, m1)
              | (Inl (BookingCreationFailed failed), d2) \<Rightarrow>
                  (let body = CreationFailedBody failed
                   in (Inr (respond 409 body), complete_idempotent_request key (cq_user_id q) 409 body d2, m1))
              | (Inr resp, d2) \<Rightarrow>
                  (let body = BookingBody resp
                   in (Inr (respond 201 body), complete_idempotent_request key (cq_user_id q) 201 body d2, m1))))"

definition confirm_booking_route :: "(string \<Rightarrow> string) \<Rightarrow> settings \<Rightarrow> bool \<Rightarrow> (db \<Rightarrow> db) \<Rightarrow> (db \<Rightarrow> db) \<Rightarrow> (db \<Rightarrow> db) \<Rightarrow>
    string \<Rightarrow> int \<Rightarrow> session_id \<Rightarrow> string \<Rightarrow> instant \<Rightarrow> db \<Rightarrow> redis \<Rightarrow> metrics \<Rightarrow>
    (raised + response_body http) \<times> db \<times> redis \<times> metrics" where
  "confirm_booking_route sha cfg empty_insert env1 env2 env3 path bid session key now d r m =
     (case load_booking bid d of
        None \<Rightarrow> (Inr (respond 404 BookingNotFoundBody), d, r, m)
      | Some booking \<Rightarrow>
         (let fingerprint = compute_fingerprint sha ''POST'' path (JObj [(''session_id'', JStr session)]);
              (outcome, d1, m1) = begin_idempotent_request env1 key (br_user_id booking) fingerprint now
                (cfg_idempotency_key_ttl cfg) (cfg_idempotency_stale_timeout cfg) d m
          in case handle_idempotency_outcome outcome of
               Some reply \<Rightarrow> (Inr reply, d1, r, m1)
             | None \<Rightarrow>
                 (let (res, d2, m2) = confirm_booking_transaction empty_insert env3 bid session key now (env2 d1) m1;
                      finish = (\<lambda>code body. complete_idempotent_request key (br_user_id booking) code body d2)
                  in case res of
                       Inl (ConfirmDbError x) \<Rightarrow> (Inl (RaisedByDb x), d2, r, m2)
                     | Inl (ConfirmRaised x) \<Rightarrow> (Inl (RaisedPy x), d2, r, m2)
                     | Inl BookingNotFound \<Rightarrow>
                         (Inr (respond 404 BookingNotFoundBody), finish 404 BookingNotFoundBody, r, m2)
                     | Inl (ConfirmFailed why) \<Rightarrow>
                         (Inr (respond 409 (ConfirmFailedBody why)), finish 409 (ConfirmFailedBody why), r, m2)
                     | Inr resp \<Rightarrow>
                         (let d3 = finish 200 (BookingBody resp)
                          in (Inr (respond 200 (BookingBody resp)), d3,
                              publish_rows row_update sr_event_id (select_seats (resp_seat_ids resp) d3) r, m2)))))"

end
