(* ===== verification/Booking_Facts.thy ===== *)
theory Booking_Facts
  imports Booking_Flow Strategy_Contract
begin

text \<open>
  What creation and confirmation do on every branch, and that they keep the schema, the
  coherence of the seats and the linkage of seats and \<open>booking_seats\<close>.
\<close>

section \<open>Creation\<close>

lemma invalid_seats_Nil_iff:
  "invalid_seats p now d = [] \<longleftrightarrow>
    (\<forall>i \<in> set (cp_seat_ids p). \<exists>r. find_seat i d = Some r \<and> held_by_sql (cp_session_id p) now r)"
proof -
  have "(case find_seat i d of None \<Rightarrow> True
       | Some row \<Rightarrow> sr_status row \<noteq> HELD \<or> sr_held_by row \<noteq> Some (cp_session_id p) \<or>
           (case sr_expires row of None \<Rightarrow> True | Some e \<Rightarrow> e \<le> now)) \<longleftrightarrow>
     \<not> (\<exists>r. find_seat i d = Some r \<and> held_by_sql (cp_session_id p) now r)" for i
    by (auto simp: held_by_sql_def unexpired_sql_def split: option.splits)
  then show ?thesis by (auto simp: invalid_seats_def filter_empty_conv)
qed

lemma insert_booking_Inr:
  "insert_booking b d = Inr d' \<Longrightarrow>
   d' = d\<lparr>db_bookings := db_bookings d @ [b], db_next_booking := db_next_booking d + 1\<rparr> \<and>
   booking_key_unique (db_bookings d @ [b]) \<and> find_event (br_event_id b) d \<noteq> None"
  by (auto simp: insert_booking_def split: if_splits)

lemma create_booking_Inr:
  assumes "create_booking p now d = (Inr resp, d')"
  shows "\<forall>i \<in> set (cp_seat_ids p). \<exists>r. find_seat i d = Some r \<and> held_by_sql (cp_session_id p) now r"
    and "resp = build_booking_response (pending_row p now (db_next_booking d))"
    and "d' = d\<lparr>db_bookings := db_bookings d @ [pending_row p now (db_next_booking d)],
           db_next_booking := db_next_booking d + 1\<rparr>"
    and "booking_key_unique (db_bookings d @ [pending_row p now (db_next_booking d)])"
proof -
  have inv: "invalid_seats p now d = []"
    and ins: "insert_booking (pending_row p now (db_next_booking d)) d = Inr d'"
    and resp: "resp = build_booking_response (pending_row p now (db_next_booking d))"
    using assms by (auto simp: create_booking_def Let_def split: if_splits sum.splits)
  from inv show "\<forall>i \<in> set (cp_seat_ids p). \<exists>r. find_seat i d = Some r \<and> held_by_sql (cp_session_id p) now r"
    by (simp add: invalid_seats_Nil_iff)
  from resp show "resp = build_booking_response (pending_row p now (db_next_booking d))" .
  from insert_booking_Inr [OF ins] show "d' = d\<lparr>db_bookings := db_bookings d @ [pending_row p now (db_next_booking d)],
           db_next_booking := db_next_booking d + 1\<rparr>"
    and "booking_key_unique (db_bookings d @ [pending_row p now (db_next_booking d)])" by simp_all
qed

lemma create_booking_Inl: "create_booking p now d = (Inl e, d') \<Longrightarrow> d' = d"
  by (auto simp: create_booking_def Let_def split: if_splits sum.splits)

lemma create_booking_db:
  assumes "create_booking p now d = (res, d')"
  shows "d' = d \<or> d' = d\<lparr>db_bookings := db_bookings d @ [pending_row p now (db_next_booking d)],
           db_next_booking := db_next_booking d + 1\<rparr> \<and>
     booking_key_unique (db_bookings d @ [pending_row p now (db_next_booking d)])"
  using assms create_booking_Inl create_booking_Inr(3,4) by (cases res) blast+

lemma create_booking_keeps:
  assumes "create_booking p now d = (res, d')"
  shows "db_seats d' = db_seats d" "db_booking_seats d' = db_booking_seats d"
    "db_idempotency_keys d' = db_idempotency_keys d" "db_events d' = db_events d"
    "db_payment_events d' = db_payment_events d" "db_hold_audit d' = db_hold_audit d"
    "db_outbox d' = db_outbox d"
  using create_booking_db [OF assms] by auto

lemma create_booking_schema:
  assumes "schema_ok d" "create_booking p now d = (res, d')"
  shows "schema_ok d'"
proof (cases "d' = d")
  case True
  with assms show ?thesis by simp
next
  case False
  let ?b = "pending_row p now (db_next_booking d)"
  have d': "d' = d\<lparr>db_bookings := db_bookings d @ [?b], db_next_booking := db_next_booking d + 1\<rparr>"
    and u: "booking_key_unique (db_bookings d @ [?b])"
    using create_booking_db [OF assms(2)] False by auto
  have "br_id ?b = db_next_booking d" by (simp add: pending_row_def)
  moreover have "\<forall>b \<in> set (db_bookings d). br_id b < db_next_booking d"
    using assms(1) by (simp add: schema_ok_iff)
  ultimately show ?thesis
    using assms(1) u unfolding d'
    by (force simp: schema_ok_iff one_active_booking_per_seat_def)
qed

section \<open>Confirmation\<close>

lemma book_row_frame [simp]:
  "sr_id (book_row b t r) = sr_id r"
  "sr_event_id (book_row b t r) = sr_event_id r"
  "sr_section (book_row b t r) = sr_section r"
  "sr_row_label (book_row b t r) = sr_row_label r"
  "sr_seat_number (book_row b t r) = sr_seat_number r"
  "sr_status (book_row b t r) = BOOKED"
  "sr_booking_id (book_row b t r) = Some b"
  "sr_held_by (book_row b t r) = None"
  "sr_expires (book_row b t r) = None"
  "sr_version (book_row b t r) = sr_version r + 1"
  by (simp_all add: book_row_def)

lemma confirm_booking_row_frame [simp]:
  "br_id (confirm_booking_row k t b) = br_id b"
  "br_status (confirm_booking_row k t b) = CONFIRMED"
  "br_seat_ids (confirm_booking_row k t b) = br_seat_ids b"
  "br_user_id (confirm_booking_row k t b) = br_user_id b"
  "br_session_id (confirm_booking_row k t b) = br_session_id b"
  by (simp_all add: confirm_booking_row_def)

definition confirmed_db :: "int \<Rightarrow> int list \<Rightarrow> instant \<Rightarrow> string option \<Rightarrow> db \<Rightarrow> db" where
  "confirmed_db bid ids now key d =
     outbox_append (BookingConfirmed bid ids) now
       (d\<lparr>db_seats := upd_where (\<lambda>r. sr_id r \<in> set ids) (book_row bid now) (db_seats d),
          db_booking_seats := db_booking_seats d @ link_rows bid ids,
          db_bookings := upd_where (\<lambda>b. br_id b = bid \<and> br_status b = PENDING)
            (confirm_booking_row key now) (db_bookings d)\<rparr>)"

lemma confirmed_db_sel [simp]:
  "db_seats (confirmed_db bid ids now key d) = upd_where (\<lambda>r. sr_id r \<in> set ids) (book_row bid now) (db_seats d)"
  "db_booking_seats (confirmed_db bid ids now key d) = db_booking_seats d @ link_rows bid ids"
  "db_bookings (confirmed_db bid ids now key d) =
     upd_where (\<lambda>b. br_id b = bid \<and> br_status b = PENDING) (confirm_booking_row key now) (db_bookings d)"
  "db_events (confirmed_db bid ids now key d) = db_events d"
  "db_idempotency_keys (confirmed_db bid ids now key d) = db_idempotency_keys d"
  "db_payment_events (confirmed_db bid ids now key d) = db_payment_events d"
  "db_hold_audit (confirmed_db bid ids now key d) = db_hold_audit d"
  "db_next_booking (confirmed_db bid ids now key d) = db_next_booking d"
  "db_clock (confirmed_db bid ids now key d) = db_clock d"
  "db_outbox (confirmed_db bid ids now key d) = db_outbox d @
     [\<lparr>ob_payload = BookingConfirmed bid ids, ob_created_at = now, ob_published_at = None\<rparr>]"
  by (simp_all add: confirmed_db_def outbox_append_def)

text \<open>When the write can go through.\<close>

definition confirmable :: "bool \<Rightarrow> int \<Rightarrow> int list \<Rightarrow> session_id \<Rightarrow> instant \<Rightarrow> string option \<Rightarrow> db \<Rightarrow> bool" where
  "confirmable empty_insert bid ids session now key d \<longleftrightarrow>
     (\<forall>i \<in> set ids. \<exists>r. find_seat i d = Some r \<and> held_by_sql session now r) \<and>
     links_insertable empty_insert bid ids d \<and>
     (\<exists>b. find_booking bid d = Some b \<and> br_status b = PENDING) \<and>
     booking_key_unique (db_bookings (confirmed_db bid ids now key d))"

lemma confirm_matches_full:
  assumes "schema_ok d"
  shows "rowcount (confirm_matches ids session now) (db_seats d) = length ids \<longleftrightarrow>
    distinct ids \<and> (\<forall>i \<in> set ids. \<exists>r. find_seat i d = Some r \<and> held_by_sql session now r)"
proof -
  have dist: "distinct (map sr_id (db_seats d))" using assms by (simp add: schema_ok_iff)
  have e: "confirm_matches ids session now = (\<lambda>r. sr_id r \<in> set ids \<and> held_by_sql session now r)"
    by (simp add: confirm_matches_def fun_eq_iff)
  have "(\<exists>r \<in> set (db_seats d). sr_id r = i \<and> held_by_sql session now r) \<longleftrightarrow>
      (\<exists>r. find_seat i d = Some r \<and> held_by_sql session now r)" for i
    using assms by (auto simp: find_seat_iff)
  then show ?thesis
    unfolding e using rowcount_in_full_iff [OF dist, of ids "held_by_sql session now"] by simp
qed

lemma confirm_matches_upd:
  assumes "schema_ok d"
    and "\<forall>i \<in> set ids. \<exists>r. find_seat i d = Some r \<and> held_by_sql session now r"
  shows "upd_where (confirm_matches ids session now) f (db_seats d) =
    upd_where (\<lambda>r. sr_id r \<in> set ids) f (db_seats d)"
proof (rule upd_where_cong)
  fix r
  assume r: "r \<in> set (db_seats d)"
  show "confirm_matches ids session now r = (sr_id r \<in> set ids)"
  proof
    assume i: "sr_id r \<in> set ids"
    moreover have "find_seat (sr_id r) d = Some r" using r assms(1) by (simp add: find_seat_iff)
    ultimately show "confirm_matches ids session now r"
      using assms(2) by (fastforce simp: confirm_matches_def)
  qed (simp add: confirm_matches_def)
qed simp

lemma pending_rowcount:
  assumes "schema_ok d"
  shows "rowcount (\<lambda>b. br_id b = bid \<and> br_status b = PENDING) (db_bookings d) = 1 \<longleftrightarrow>
    (\<exists>b. find_booking bid d = Some b \<and> br_status b = PENDING)"
proof -
  have dist: "distinct (map br_id (db_bookings d))" using assms by (simp add: schema_ok_iff)
  have e: "(\<lambda>b. br_id b = bid \<and> br_status b = PENDING) = (\<lambda>b. br_id b \<in> set [bid] \<and> br_status b = PENDING)"
    by auto
  show ?thesis
    unfolding e using rowcount_in_full_iff [OF dist, of "[bid]" "\<lambda>b. br_status b = PENDING"] assms
    by (auto simp: find_booking_iff)
qed

lemma links_insertable_seats [simp]:
  "links_insertable e bid ids (d\<lparr>db_seats := s\<rparr>) = links_insertable e bid ids d"
  by (simp add: links_insertable_def)

lemma attempt_confirm_write_True_iff:
  assumes "schema_ok d"
  shows "fst (attempt_confirm_write e base bid ids session now key d m) = Inr True \<longleftrightarrow>
    confirmable e bid ids session now key d"
proof -
  let ?held = "\<forall>i \<in> set ids. \<exists>r. find_seat i d = Some r \<and> held_by_sql session now r"
  let ?pend = "\<exists>b. find_booking bid d = Some b \<and> br_status b = PENDING"
  have "fst (attempt_confirm_write e base bid ids session now key d m) = Inr True \<longleftrightarrow>
      \<not> (0 < rowcount (confirm_matches ids session now) (db_seats d) \<and> find_booking bid d = None) \<and>
      rowcount (confirm_matches ids session now) (db_seats d) = length ids \<and>
      links_insertable e bid ids d \<and> booking_key_unique (db_bookings (confirmed_db bid ids now key d)) \<and>
      rowcount (\<lambda>b. br_id b = bid \<and> br_status b = PENDING) (db_bookings d) = 1"
    unfolding attempt_confirm_write_def Let_def by simp
  also have "\<dots> \<longleftrightarrow> links_insertable e bid ids d \<and> ?held \<and>
      booking_key_unique (db_bookings (confirmed_db bid ids now key d)) \<and> ?pend"
    unfolding pending_rowcount [OF assms] confirm_matches_full [OF assms]
    by (auto simp: links_insertable_def)
  finally show ?thesis by (auto simp: confirmable_def)
qed

lemma attempt_confirm_write_True:
  assumes "schema_ok d" "attempt_confirm_write e base bid ids session now key d m = (Inr True, d', m')"
  shows "confirmable e bid ids session now key d" and "d' = confirmed_db bid ids now key d" and "m' = m"
proof -
  show c: "confirmable e bid ids session now key d"
    using attempt_confirm_write_True_iff [OF assms(1), of e base bid ids session now key m] assms(2) by simp
  then have "upd_where (confirm_matches ids session now) (book_row bid now) (db_seats d) =
      upd_where (\<lambda>r. sr_id r \<in> set ids) (book_row bid now) (db_seats d)"
    by (intro confirm_matches_upd [OF assms(1)]) (simp add: confirmable_def)
  then have "attempt_confirm_write e base bid ids session now key d m = (Inr True, confirmed_db bid ids now key d, m)"
    using attempt_confirm_write_True_iff [OF assms(1), of e base bid ids session now key m] c
    by (auto simp: attempt_confirm_write_def Let_def confirmed_db_def split: if_splits)
  with assms(2) show "d' = confirmed_db bid ids now key d" "m' = m" by simp_all
qed

lemma attempt_confirm_write_fails:
  "attempt_confirm_write e base bid ids session now key d m = (res, d', m') \<Longrightarrow> res \<noteq> Inr True \<Longrightarrow> d' = base"
  by (auto simp: attempt_confirm_write_def Let_def split: if_splits)

text \<open>Confirmation never touches these tables.\<close>

lemma attempt_confirm_write_frame:
  assumes "attempt_confirm_write e base bid ids session now key d m = (res, d', m')"
  shows "d' = base \<or> db_idempotency_keys d' = db_idempotency_keys d \<and> db_payment_events d' = db_payment_events d \<and>
    db_events d' = db_events d \<and> db_hold_audit d' = db_hold_audit d"
  using assms unfolding attempt_confirm_write_def Let_def outbox_append_def
  by (simp split: if_splits) auto

lemma confirm_transaction_cases:
  assumes "confirm_booking_transaction e env bid session key now d m = (res, d', m')"
  shows "d' = d \<or> (\<exists>b w. load_booking bid d = Some b \<and> confirm_checks (select_seats (br_seat_ids b) d) b session now = Inr () \<and>
      attempt_confirm_write e (env d) bid (br_seat_ids b) session now (Some key) (env d) m = (w, d', m'))"
  using assms unfolding confirm_booking_transaction_def Let_def
  by (simp split: option.splits if_splits sum.splits prod.splits bool.splits)

lemma confirm_transaction_keys:
  assumes "confirm_booking_transaction e env bid session key now d m = (res, d', m')"
    and "db_idempotency_keys (env d) = db_idempotency_keys d"
  shows "db_idempotency_keys d' = db_idempotency_keys d"
  using confirm_transaction_cases [OF assms(1)] attempt_confirm_write_frame assms(2) by metis

lemma confirmable_find_seat:
  "find_seat i (confirmed_db bid ids now key d) =
     (if i \<in> set ids then map_option (book_row bid now) (find_seat i d) else find_seat i d)"
proof (cases "find_seat i d")
  case None
  then show ?thesis by (simp add: find_seat_def by_key_upd_where)
next
  case (Some r)
  then show ?thesis using find_seat_SomeD [OF Some] by (simp add: find_seat_def by_key_upd_where)
qed

lemma confirmed_find_booking:
  "find_booking i (confirmed_db bid ids now key d) =
     map_option (\<lambda>b. if br_id b = bid \<and> br_status b = PENDING then confirm_booking_row key now b else b)
       (find_booking i d)"
  by (simp add: find_booking_def by_key_upd_where)

lemma active_link_rows [simp]: "filter bs_active (link_rows bid ids) = link_rows bid ids"
  by (induction ids) (simp_all add: link_rows_def bs_active_def)

lemma map_link_rows [simp]:
  "map bs_seat_id (link_rows bid ids) = ids"
  "map bs_pk (link_rows bid ids) = map (Pair bid) ids"
  "bs_seat_id ` set (link_rows bid ids) = set ids"
  by (simp_all add: link_rows_def bs_pk_def comp_def image_image)

lemma confirmed_active:
  "active_seat_ids (confirmed_db bid ids now key d) = active_seat_ids d \<union> set ids"
  by (simp add: active_seat_ids_def image_Un)

lemma links_insertable_fresh:
  "links_insertable e bid ids d \<Longrightarrow> set ids \<inter> active_seat_ids d = {} \<and> distinct ids \<and>
    Pair bid ` set ids \<inter> bs_pk ` set (db_booking_seats d) = {}"
  by (fastforce simp: links_insertable_def active_seat_ids_def list_all_iff)

text \<open>A seat with an active row in \<open>booking_seats\<close> is never confirmed again.\<close>

lemma active_link_blocks:
  assumes "schema_ok d" "i \<in> active_seat_ids d" "i \<in> set ids"
  shows "fst (attempt_confirm_write e base bid ids session now key d m) \<noteq> Inr True"
  using attempt_confirm_write_True_iff [OF assms(1)] links_insertable_fresh [of e bid ids d] assms(2,3)
  by (auto simp: confirmable_def)

lemma confirmed_schema:
  assumes "schema_ok d" "confirmable e bid ids session now key d"
  shows "schema_ok (confirmed_db bid ids now key d)"
proof -
  have f: "set ids \<inter> active_seat_ids d = {}" "distinct ids"
    "Pair bid ` set ids \<inter> bs_pk ` set (db_booking_seats d) = {}"
    using assms(2) links_insertable_fresh [of e bid ids d] by (auto simp: confirmable_def)
  have "one_active_booking_per_seat (confirmed_db bid ids now key d)"
    using assms(1) f by (auto simp: one_active_booking_per_seat_def schema_ok_iff active_seat_ids_def)
  moreover have "distinct (map bs_pk (db_booking_seats (confirmed_db bid ids now key d)))"
    using assms(1) f by (auto simp: schema_ok_iff distinct_map inj_on_def)
  moreover have "booking_key_unique (db_bookings (confirmed_db bid ids now key d))"
    using assms(2) by (simp add: confirmable_def)
  ultimately show ?thesis
    using assms(1)
    by (auto simp: schema_ok_iff map_upd_where seat_place_def set_upd_where)
qed

lemma confirmed_coherent:
  "seats_coherent d \<Longrightarrow> seats_coherent (confirmed_db bid ids now key d)"
  by (auto simp: seats_coherent_iff set_upd_where row_coherent_def coherent_def)

lemma confirmed_linkage:
  assumes "linkage_ok d"
  shows "linkage_ok (confirmed_db bid ids now key d)"
  using assms by (auto simp: linkage_ok_iff confirmed_active set_upd_where split: if_splits)

lemma attempt_confirm_write_keeps:
  assumes "schema_ok d" "seats_coherent d" "linkage_ok d"
    and "schema_ok base" "seats_coherent base" "linkage_ok base"
    and "attempt_confirm_write e base bid ids session now key d m = (res, d', m')"
  shows "schema_ok d' \<and> seats_coherent d' \<and> linkage_ok d'"
proof (cases "res = Inr True")
  case True
  then have w: "attempt_confirm_write e base bid ids session now key d m = (Inr True, d', m')"
    using assms(7) by simp
  note attempt_confirm_write_True [OF assms(1) w]
  with assms(1-3) show ?thesis
    by (simp add: confirmed_schema confirmed_coherent confirmed_linkage)
next
  case False
  with assms show ?thesis using attempt_confirm_write_fails [OF assms(7)] by simp
qed

section \<open>The domain checks and the SQL guard agree\<close>

lemma confirm_ok_iff_held:
  assumes "row_coherent r"
  shows "(\<exists>t. confirm (seat_to_domain r) session bid (Aware now) = Inr t) \<longleftrightarrow> held_by_sql session now r"
  using assms row_coherent_unexpired [OF assms, of now]
  by (auto simp: confirm_Inr_iff held_by_sql_def lapsed_to_domain)

lemma confirm_checks_iff:
  assumes "\<forall>r \<in> set rows. row_coherent r"
  shows "confirm_checks rows b session now = Inr () \<longleftrightarrow>
    (\<forall>r \<in> set rows. held_by_sql session now r) \<and> br_status b = PENDING"
proof -
  have "bindE (confirm (seat_to_domain r) session (br_id b) (Aware now)) (\<lambda>_. Inr ()) = Inr () \<longleftrightarrow>
      held_by_sql session now r" if "r \<in> set rows" for r
    using confirm_ok_iff_held assms that by (auto simp: bindE_eq_Inr_iff)
  moreover have "bindE (confirm_booking (booking_to_domain b) (Aware now)) (\<lambda>_. Inr ()) = Inr () \<longleftrightarrow>
      br_status b = PENDING"
    by (simp add: confirm_booking_aware)
  ultimately show ?thesis
    unfolding confirm_checks_def by (auto simp: bindE_eq_Inr_iff forE_eq_Inr_iff)
qed

text \<open>The row the UPDATE writes is the one the domain transition computes.\<close>

lemma book_row_refines_confirm:
  assumes "confirm (seat_to_domain r) session bid (Aware now) = Inr s"
  shows "seat_to_domain (book_row bid now r) = s"
proof -
  have "s = booked_seat (seat_to_domain r) bid" using assms by (simp add: confirm_Inr_iff)
  then show ?thesis by (simp add: seat_to_domain_def booked_seat_def book_row_def)
qed

lemma hold_row_refines_hold:
  assumes "row_coherent r" "hold (seat_to_domain r) session (Aware now) dur = Inr s"
  shows "seat_to_domain (hold_row session (now + dur) t r) = s"
proof -
  have "sr_booking_id r = None"
    using assms by (auto simp: hold_Inr_iff holdable_def row_coherent_def coherent_def)
  moreover have "s = held_seat (seat_to_domain r) session now dur" using assms(2) by (simp add: hold_Inr_iff)
  ultimately show ?thesis by (simp add: seat_to_domain_def held_seat_def hold_row_def)
qed

end
