(* ===== verification/Idempotency_Facts.thy ===== *)
theory Idempotency_Facts
  imports Routes Booking_Facts Samples
begin

text \<open>
  Requests with an Idempotency-Key: what a retry sees, that users do not see each other's keys,
  what the reaper may and may not decide, and that it drains its queue.
\<close>

section \<open>Rows\<close>

lemma ik_pk_frame [simp]:
  "ik_pk (complete_row c b r) = ik_pk r" "ik_pk (reclaim_row n t r) = ik_pk r" "ik_pk (reap_row d r) = ik_pk r"
  "ik_pk (new_key_row k u f n t) = (u, k)"
  by (simp_all add: ik_pk_def complete_row_def reclaim_row_def reap_row_def new_key_row_def split: list.split)

lemma complete_row_sel [simp]:
  "ik_status (complete_row c b r) = COMPLETED" "ik_response_status (complete_row c b r) = Some c"
  "ik_response_body (complete_row c b r) = Some b" "ik_fingerprint (complete_row c b r) = ik_fingerprint r"
  by (simp_all add: complete_row_def)

lemma find_idem_SomeD: "find_idem u k d = Some r \<Longrightarrow> r \<in> set (db_idempotency_keys d) \<and> ik_pk r = (u, k)"
  by (auto simp: find_idem_def dest: by_key_SomeD)

lemma find_idem_iff:
  "schema_ok d \<Longrightarrow> find_idem u k d = Some r \<longleftrightarrow> r \<in> set (db_idempotency_keys d) \<and> ik_pk r = (u, k)"
  by (simp add: find_idem_def schema_ok_iff by_key_iff)

lemma find_idem_cong: "db_idempotency_keys d = db_idempotency_keys e \<Longrightarrow> find_idem u k d = find_idem u k e"
  by (simp add: find_idem_def)

lemma find_idem_complete:
  "find_idem u k (complete_idempotent_request key user c b d) =
     map_option (\<lambda>r. if (u, k) = (user, key) then complete_row c b r else r) (find_idem u k d)"
proof (cases "find_idem u k d")
  case None
  then show ?thesis by (simp add: find_idem_def complete_idempotent_request_def by_key_upd_where)
next
  case (Some r)
  then show ?thesis
    using find_idem_SomeD [OF Some] by (auto simp: find_idem_def complete_idempotent_request_def by_key_upd_where)
qed

lemma complete_keeps [simp]:
  "db_seats (complete_idempotent_request k u c b d) = db_seats d"
  "db_bookings (complete_idempotent_request k u c b d) = db_bookings d"
  "db_booking_seats (complete_idempotent_request k u c b d) = db_booking_seats d"
  "db_events (complete_idempotent_request k u c b d) = db_events d"
  "db_next_booking (complete_idempotent_request k u c b d) = db_next_booking d"
  "db_payment_events (complete_idempotent_request k u c b d) = db_payment_events d"
  by (simp_all add: complete_idempotent_request_def)

section \<open>Beginning a request\<close>


lemma begin_new:
  "find_idem u key d = None \<Longrightarrow>
   begin_idempotent_request env key u f now ttl st d m =
     (New, d\<lparr>db_idempotency_keys := db_idempotency_keys d @ [new_key_row key u f now ttl]\<rparr>, m)"
  by (simp add: begin_idempotent_request_def)

lemma find_idem_appended:
  "find_idem u k d = None \<Longrightarrow>
   find_idem u k (d\<lparr>db_idempotency_keys := db_idempotency_keys d @ [new_key_row k u f now ttl]\<rparr>) =
     Some (new_key_row k u f now ttl)"
  by (simp add: find_idem_def)

lemma begin_completed:
  assumes "find_idem u key d = Some r" "ik_status r = COMPLETED" "ik_fingerprint r = f"
  shows "begin_idempotent_request env key u f now ttl st d m = (stored_replay r, d, inc Idempotent_replay m)"
  using assms by (simp add: begin_idempotent_request_def)

text \<open>The route's answer, once given, is what the key's row replays.\<close>

lemma create_route_stores:
  assumes "find_idem (cq_user_id q) key d = None"
    and "\<forall>x. db_idempotency_keys (env2 x) = db_idempotency_keys x"
    and "create_booking_route sha cfg env1 env2 path q key now d m = (Inr reply, d', m')"
  shows "hr_retry_after reply = None \<and> hr_status reply \<noteq> 0 \<and>
    (\<exists>r. find_idem (cq_user_id q) key d' = Some r \<and> ik_status r = COMPLETED \<and>
       ik_fingerprint r = compute_fingerprint sha ''POST'' path (create_request_json q) \<and>
       stored_replay r = Replay (hr_status reply) (hr_body reply))"
proof -
  let ?fp = "compute_fingerprint sha ''POST'' path (create_request_json q)"
  let ?row = "new_key_row key (cq_user_id q) ?fp now (cfg_idempotency_key_ttl cfg)"
  let ?d1 = "d\<lparr>db_idempotency_keys := db_idempotency_keys d @ [?row]\<rparr>"
  obtain res d2 where c: "create_booking (create_request_params q key) now (env2 ?d1) = (res, d2)"
    by (cases "create_booking (create_request_params q key) now (env2 ?d1)")
  have "db_idempotency_keys d2 = db_idempotency_keys ?d1"
    using create_booking_keeps(3) [OF c] assms(2) by simp
  then have row: "find_idem (cq_user_id q) key d2 = Some ?row"
    using find_idem_appended [OF assms(1)] find_idem_cong by metis
  have fin: "\<exists>r. find_idem (cq_user_id q) key (complete_idempotent_request key (cq_user_id q) code body d2) = Some r \<and>
      ik_status r = COMPLETED \<and> ik_fingerprint r = ?fp \<and> stored_replay r = Replay code body"
    if "code \<noteq> 0" for code body
    using row that by (simp add: find_idem_complete stored_replay_def) (simp add: new_key_row_def)
  from assms(3) c show ?thesis
    by (auto simp: create_booking_route_def begin_new [OF assms(1)] Let_def fin split: sum.splits creation_exn.splits)
qed

lemma create_route_replays:
  assumes "find_idem (cq_user_id q) key d = Some r" "ik_status r = COMPLETED"
    and "ik_fingerprint r = compute_fingerprint sha ''POST'' path (create_request_json q)"
    and "stored_replay r = Replay code body"
  shows "create_booking_route sha cfg env1 env2 path q key now d m =
    (Inr (respond code body), d, inc Idempotent_replay m)"
  using begin_completed [OF assms(1-3)] assms(4) by (simp add: create_booking_route_def)

section \<open>The reaper\<close>

lemma stale_rows_props:
  assumes "distinct (map ik_pk (db_idempotency_keys d))"
  shows "set (stale_rows locked b c d) \<subseteq> {r \<in> set (db_idempotency_keys d). stale_row c r \<and> ik_pk r \<notin> locked}"
    and "distinct (map ik_pk (stale_rows locked b c d))"
    and "length (stale_rows {} b c d) = min b (rowcount (stale_row c) (db_idempotency_keys d))"
proof -
  show "set (stale_rows locked b c d) \<subseteq> {r \<in> set (db_idempotency_keys d). stale_row c r \<and> ik_pk r \<notin> locked}"
    by (auto simp: stale_rows_def dest!: in_set_takeD)
  have "distinct (map ik_pk (filter (\<lambda>r. ik_pk r \<notin> locked)
      (sort_key idem_order_of (filter (stale_row c) (db_idempotency_keys d)))))"
    using assms by (intro distinct_map_filter) (simp add: distinct_map inj_on_def)
  then show "distinct (map ik_pk (stale_rows locked b c d))"
    by (simp add: stale_rows_def take_map [symmetric])
  show "length (stale_rows {} b c d) = min b (rowcount (stale_row c) (db_idempotency_keys d))"
    by (simp add: stale_rows_def rowcount_def)
qed

lemma reap_row_not_stale [simp]: "\<not> stale_row c (reap_row d r)"
  by (simp add: stale_row_def reap_row_def split: list.split)

lemma reap_once_db:
  "fst (snd (reap_once locked b t now d m)) =
     d\<lparr>db_idempotency_keys := upd_where (\<lambda>r. ik_pk r \<in> set (map ik_pk (stale_rows locked b (now - t) d)))
         (reap_row d) (db_idempotency_keys d)\<rparr>"
  by (simp add: reap_once_def Let_def)

lemma reap_backlog:
  assumes "distinct (map ik_pk (db_idempotency_keys d))"
  shows "rowcount (stale_row (now - t)) (db_idempotency_keys (fst (snd (reap_once {} b t now d m)))) =
    rowcount (stale_row (now - t)) (db_idempotency_keys d) - b"
proof -
  let ?rows = "stale_rows {} b (now - t) d"
  note props = stale_rows_props [OF assms]
  have "rowcount (\<lambda>r. ik_pk r \<in> set (map ik_pk ?rows) \<and> stale_row (now - t) r) (db_idempotency_keys d) =
      length (map ik_pk ?rows)"
    using props(1) [of "{}" b "now - t"] props(2) [of "{}" b "now - t"]
    by (subst rowcount_in_full_iff [OF assms]) fastforce
  then show ?thesis
    unfolding reap_once_db by (simp add: rowcount_upd_where props(3))
qed

interpretation reaper: batch_job "\<lambda>d. fst (snd (reap_once {} b t now d m))"
    "\<lambda>d. rowcount (stale_row (now - t)) (db_idempotency_keys d)" b
    "\<lambda>d. distinct (map ik_pk (db_idempotency_keys d))"
proof unfold_locales
  fix d :: db
  assume "distinct (map ik_pk (db_idempotency_keys d))"
  then show "rowcount (stale_row (now - t)) (db_idempotency_keys (fst (snd (reap_once {} b t now d m)))) =
      rowcount (stale_row (now - t)) (db_idempotency_keys d) - b"
    by (rule reap_backlog)
next
  fix d :: db
  assume "distinct (map ik_pk (db_idempotency_keys d))"
  then show "distinct (map ik_pk (db_idempotency_keys (fst (snd (reap_once {} b t now d m)))))"
    by (simp add: reap_once_db map_upd_where)
qed

lemma reap_find:
  assumes "schema_ok d"
  shows "find_idem u k (fst (snd (reap_once locked b t now d m))) =
    map_option (\<lambda>r. if r \<in> set (stale_rows locked b (now - t) d) then reap_row d r else r) (find_idem u k d)"
proof -
  have dist: "distinct (map ik_pk (db_idempotency_keys d))" using assms by (simp add: schema_ok_iff)
  have "find_idem u k (fst (snd (reap_once locked b t now d m))) =
      map_option (\<lambda>r. if ik_pk r \<in> set (map ik_pk (stale_rows locked b (now - t) d)) then reap_row d r else r)
        (find_idem u k d)"
    by (simp add: reap_once_db find_idem_def by_key_upd_where)
  moreover have "ik_pk r \<in> set (map ik_pk (stale_rows locked b (now - t) d)) \<longleftrightarrow>
      r \<in> set (stale_rows locked b (now - t) d)" if "find_idem u k d = Some r" for r
  proof
    assume "ik_pk r \<in> set (map ik_pk (stale_rows locked b (now - t) d))"
    then obtain s where s: "s \<in> set (stale_rows locked b (now - t) d)" "ik_pk s = ik_pk r" by auto
    then have "s \<in> set (db_idempotency_keys d)" using stale_rows_props(1) [OF dist] by blast
    with s(2) that dist have "s = r" by (intro keyed_unique [of ik_pk]) (auto dest: find_idem_SomeD)
    with s show "r \<in> set (stale_rows locked b (now - t) d)" by simp
  qed simp
  ultimately show ?thesis by (cases "find_idem u k d") auto
qed

end
