(* ===== verification/Idempotency_Properties.thy ===== *)
theory Idempotency_Properties
  imports Idempotency_Facts
begin

text \<open>
  What the Idempotency-Key machinery promises to clients.
\<close>

section \<open>Retries\<close>

definition sample_request :: create_request where
  "sample_request = \<lparr>cq_event_id = 1, cq_seat_ids = [2], cq_session_id = ''A'', cq_user_id = 9,
     cq_total_amount = 1000, cq_amount_text = ''10.00'', cq_currency = ''usd''\<rparr>"

lemma sample_create:
  "\<exists>d' m'. create_booking_route id default_settings id id ''/api/bookings'' sample_request ''k3'' 100 sample_db zero_metrics =
     (Inr (respond 201 (BookingBody (build_booking_response
        (pending_row (create_request_params sample_request ''k3'') 100 3)))), d', m')"
proof -
  let ?d1 = "sample_db\<lparr>db_idempotency_keys := [new_key_row ''k3'' 9
    (compute_fingerprint id ''POST'' ''/api/bookings'' (create_request_json sample_request)) 100 (seconds 86400)]\<rparr>"
  have f: "find_idem 9 ''k3'' sample_db = None" by (simp add: find_idem_def sample_db_def)
  have keys: "db_idempotency_keys sample_db = []" by (simp add: sample_db_def)
  have "invalid_seats (create_request_params sample_request ''k3'') 100 ?d1 = []"
    unfolding invalid_seats_Nil_iff
    by (simp add: create_request_params_def sample_request_def find_seat_def sample_defs held_by_sql_def unexpired_sql_def)
  moreover have "insert_booking (pending_row (create_request_params sample_request ''k3'') 100 3) ?d1 =
      Inr (?d1\<lparr>db_bookings := db_bookings ?d1 @ [pending_row (create_request_params sample_request ''k3'') 100 3],
        db_next_booking := 4\<rparr>)"
    by (simp add: insert_booking_def pending_row_def create_request_params_def sample_request_def sample_defs
        find_event_def booking_key_unique_def)
  moreover have "db_next_booking ?d1 = 3" by (simp add: sample_db_def)
  ultimately have "create_booking (create_request_params sample_request ''k3'') 100 ?d1 =
      (Inr (build_booking_response (pending_row (create_request_params sample_request ''k3'') 100 3)),
       ?d1\<lparr>db_bookings := db_bookings ?d1 @ [pending_row (create_request_params sample_request ''k3'') 100 3],
         db_next_booking := 4\<rparr>)"
    by (simp add: create_booking_def Let_def)
  then show ?thesis
    using begin_new [OF f] keys
    by (simp add: create_booking_route_def sample_request_def default_settings_def Let_def)
qed

text \<open>
  C14: Creating a booking is idempotent. Once a request with a fresh key has been answered, 201 or
  409, every later identical request of that user with that key gets the same answer and changes
  nothing, whatever else happened in between, as long as the key's row was left alone; so no
  second booking is made.
\<close>

theorem create_retry_replays:
  assumes "find_idem (cq_user_id q) key d = None"
    and "\<forall>x. db_idempotency_keys (env2 x) = db_idempotency_keys x"
    and "create_booking_route sha cfg env1 env2 path q key now d m = (Inr reply, d', m')"
    and "find_idem (cq_user_id q) key later = find_idem (cq_user_id q) key d'"
  shows "create_booking_route sha cfg env1' env2' path q key now2 later m2 = (Inr reply, later, inc Idempotent_replay m2)"
proof -
  obtain r where r: "hr_retry_after reply = None" "find_idem (cq_user_id q) key d' = Some r" "ik_status r = COMPLETED"
    "ik_fingerprint r = compute_fingerprint sha ''POST'' path (create_request_json q)"
    "stored_replay r = Replay (hr_status reply) (hr_body reply)"
    using create_route_stores [OF assms(1-3)] by blast
  have "reply = respond (hr_status reply) (hr_body reply)"
    using r(1) by (cases reply) (simp add: respond_def)
  with create_route_replays [OF _ r(3-5)] r(2) assms(4) show ?thesis by metis
qed

theorem create_retry_replays_witness:
  "\<exists>d' reply. hr_status reply = 201 \<and>
     create_booking_route id default_settings id id ''/api/bookings'' sample_request ''k3'' 500 d' zero_metrics =
       (Inr reply, d', inc Idempotent_replay zero_metrics)"
proof -
  obtain d' m' where c: "create_booking_route id default_settings id id ''/api/bookings'' sample_request ''k3'' 100 sample_db zero_metrics =
     (Inr (respond 201 (BookingBody (build_booking_response
        (pending_row (create_request_params sample_request ''k3'') 100 3)))), d', m')"
    using sample_create by blast
  have "find_idem (cq_user_id sample_request) ''k3'' sample_db = None" by (simp add: find_idem_def sample_db_def)
  from create_retry_replays [OF this _ c, of d' id id 500 zero_metrics] show ?thesis
    by (intro exI [of _ d']) auto
qed

text \<open>
  Confirming is idempotent in the same sense: the first answer of a key, 200, 404 or 409, is
  the answer to every identical retry, which changes no row, publishes nothing, and in particular
  confirms nothing a second time.
\<close>

theorem confirm_retry_replays:
  assumes "load_booking bid d = Some b" "find_idem (br_user_id b) key d = None"
    and "\<forall>x. db_idempotency_keys (env2 x) = db_idempotency_keys x"
    and "\<forall>x. db_idempotency_keys (env3 x) = db_idempotency_keys x"
    and "confirm_booking_route sha cfg e env1 env2 env3 path bid session key now d r m = (Inr reply, d', r', m')"
    and "find_idem (br_user_id b) key later = find_idem (br_user_id b) key d'"
    and "map_option br_user_id (load_booking bid later) = Some (br_user_id b)"
  shows "confirm_booking_route sha cfg e' env1' env2' env3' path bid session key now2 later r2 m2 =
    (Inr reply, later, r2, inc Idempotent_replay m2)"
proof -
  let ?fp = "compute_fingerprint sha ''POST'' path (JObj [(''session_id'', JStr session)])"
  let ?row = "new_key_row key (br_user_id b) ?fp now (cfg_idempotency_key_ttl cfg)"
  let ?d1 = "d\<lparr>db_idempotency_keys := db_idempotency_keys d @ [?row]\<rparr>"
  obtain res d2 m2' where c: "confirm_booking_transaction e env3 bid session key now (env2 ?d1) m = (res, d2, m2')"
    by (cases "confirm_booking_transaction e env3 bid session key now (env2 ?d1) m")
  have "db_idempotency_keys d2 = db_idempotency_keys (env2 ?d1)"
    using confirm_transaction_keys [OF c] assms(4) by simp
  with assms(3) have same: "db_idempotency_keys d2 = db_idempotency_keys ?d1" by simp
  have row: "find_idem (br_user_id b) key d2 = Some ?row"
    unfolding find_idem_cong [OF same] by (rule find_idem_appended [OF assms(2)])
  have fin: "\<exists>s. find_idem (br_user_id b) key (complete_idempotent_request key (br_user_id b) code body d2) = Some s \<and>
      ik_status s = COMPLETED \<and> ik_fingerprint s = ?fp \<and> stored_replay s = Replay code body"
    if "code \<noteq> 0" for code body
    using row that by (simp add: find_idem_complete stored_replay_def) (simp add: new_key_row_def)
  have "\<exists>s. find_idem (br_user_id b) key d' = Some s \<and> ik_status s = COMPLETED \<and> ik_fingerprint s = ?fp \<and>
      stored_replay s = Replay (hr_status reply) (hr_body reply) \<and> reply = respond (hr_status reply) (hr_body reply)"
    using assms(5) c
    by (auto simp: confirm_booking_route_def assms(1) begin_new [OF assms(2)] Let_def fin
        split: sum.splits confirm_exn.splits)
  then obtain s where s: "find_idem (br_user_id b) key later = Some s" "ik_status s = COMPLETED" "ik_fingerprint s = ?fp"
    "stored_replay s = Replay (hr_status reply) (hr_body reply)" "reply = respond (hr_status reply) (hr_body reply)"
    using assms(6) by auto
  obtain b2 where "load_booking bid later = Some b2" "br_user_id b2 = br_user_id b" using assms(7) by auto
  then have "confirm_booking_route sha cfg e' env1' env2' env3' path bid session key now2 later r2 m2 =
      (Inr (respond (hr_status reply) (hr_body reply)), later, r2, inc Idempotent_replay m2)"
    using begin_completed [OF s(1-3)] s(4) by (simp add: confirm_booking_route_def)
  then show ?thesis using s(5) by simp
qed

lemma sample_confirm_rejected:
  "\<exists>d' m'. confirm_booking_route id default_settings True id id id ''/api/bookings/2/confirm'' 2 ''B'' ''k4'' 100
       sample_db r zero_metrics =
     (Inr (respond 409 (ConfirmFailedBody (seat_confirm_rejected (NotHoldOwner 2 ''B'' (Some ''A''))))), d', r, m')"
proof -
  have f: "find_idem 9 ''k4'' sample_db = None" by (simp add: find_idem_def sample_db_def)
  have b: "load_booking 2 sample_db = Some (booking_at 2 ''A'' PENDING [2] ''k2'')" by (simp add: load_booking_def)
  have "confirm_booking_transaction True id 2 ''B'' ''k4'' 100 (sample_db\<lparr>db_idempotency_keys := ks\<rparr>) zero_metrics =
      (Inl (ConfirmFailed (seat_confirm_rejected (NotHoldOwner 2 ''B'' (Some ''A'')))),
       sample_db\<lparr>db_idempotency_keys := ks\<rparr>, zero_metrics)" for ks
    by (simp add: confirm_booking_transaction_def load_booking_def find_booking_def select_seats_def
        confirm_checks_def confirm_aware sample_defs)
  then show ?thesis
    using begin_new [OF f] b
    by (simp add: confirm_booking_route_def booking_at_def Let_def)
qed

theorem confirm_retry_replays_witness:
  "\<exists>d' reply. hr_status reply = 409 \<and>
     confirm_booking_route id default_settings True id id id ''/api/bookings/2/confirm'' 2 ''B'' ''k4'' 500 d' sample_redis zero_metrics =
       (Inr reply, d', sample_redis, inc Idempotent_replay zero_metrics)"
proof -
  obtain d' m' where c: "confirm_booking_route id default_settings True id id id ''/api/bookings/2/confirm'' 2 ''B'' ''k4'' 100
       sample_db sample_redis zero_metrics =
     (Inr (respond 409 (ConfirmFailedBody (seat_confirm_rejected (NotHoldOwner 2 ''B'' (Some ''A''))))), d', sample_redis, m')"
    using sample_confirm_rejected by blast
  have b: "load_booking 2 sample_db = Some (booking_at 2 ''A'' PENDING [2] ''k2'')" by (simp add: load_booking_def)
  have f: "find_idem (br_user_id (booking_at 2 ''A'' PENDING [2] ''k2'')) ''k4'' sample_db = None"
    by (simp add: find_idem_def sample_db_def)
  have "db_bookings d' = db_bookings sample_db"
    using c begin_new [OF f] b
    by (auto simp: confirm_booking_route_def confirm_booking_transaction_def load_booking_def find_booking_def
        select_seats_def confirm_checks_def confirm_aware sample_defs Let_def)
  then have "map_option br_user_id (load_booking 2 d') = Some (br_user_id (booking_at 2 ''A'' PENDING [2] ''k2''))"
    using b by (simp add: load_booking_def find_booking_def)
  from confirm_retry_replays [OF b f _ _ c refl this, of True id id id 500 sample_redis zero_metrics] show ?thesis
    by (intro exI [of _ d'] exI) auto
qed

text \<open>
  A key used again for a different request is refused with 422 and executes nothing, provided
  the hash tells the two requests apart; the row of the first request stays as it is.
\<close>

theorem key_reuse_conflicts:
  assumes "find_idem (cq_user_id q) key d = Some row"
    and "ik_fingerprint row = compute_fingerprint sha ''POST'' path (create_request_json q')"
    and "compute_fingerprint sha ''POST'' path (create_request_json q') \<noteq>
      compute_fingerprint sha ''POST'' path (create_request_json q)"
  shows "create_booking_route sha cfg env1 env2 path q key now d m =
    (Inr (respond 422 KeyConflictBody), d, inc Idempotency_conflict m)"
  using assms by (simp add: create_booking_route_def begin_idempotent_request_def)

theorem key_reuse_conflicts_witness:
  "\<exists>d. db_bookings d = db_bookings sample_db \<and>
     create_booking_route id default_settings id id ''/b'' (sample_request\<lparr>cq_seat_ids := [3]\<rparr>) ''k3'' 500 d zero_metrics =
     (Inr (respond 422 KeyConflictBody), d, inc Idempotency_conflict zero_metrics)"
proof -
  let ?fp = "compute_fingerprint id ''POST'' ''/b'' (create_request_json sample_request)"
  let ?q = "sample_request\<lparr>cq_seat_ids := [3]\<rparr>"
  let ?d = "sample_db\<lparr>db_idempotency_keys := [new_key_row ''k3'' 9 ?fp 100 0]\<rparr>"
  have row: "find_idem (cq_user_id ?q) ''k3'' ?d = Some (new_key_row ''k3'' 9 ?fp 100 0)"
    by (simp add: find_idem_def sample_request_def)
  have "json_dumps (create_request_json sample_request) \<noteq> json_dumps (create_request_json ?q)"
    by (simp add: create_request_json_def sample_request_def sort_key_def insort_key.simps less_eq_list_code int_dec_def
        nat_dec.simps digit_def)
  then have "?fp \<noteq> compute_fingerprint id ''POST'' ''/b'' (create_request_json ?q)"
    by (simp add: compute_fingerprint_def)
  from key_reuse_conflicts [OF row _ this, of default_settings id id 500 zero_metrics] show ?thesis
    by (intro exI [of _ ?d]) (simp add: new_key_row_def)
qed



section \<open>The reaper\<close>

text \<open>
  What a reaper pass does to a key's row, of at most \<open>batch\<close> rows it looks at: nothing unless
  the row is IN_PROGRESS, older than the timeout and unlocked. Such a row becomes COMPLETED with
  the current state of the booking that carries the key, if there is one, and FAILED otherwise:
  a row is never marked FAILED while a booking carries its key.
\<close>

theorem reaper_never_fails_a_booked_key:
  assumes "schema_ok d" "reap_once locked batch timeout now d m = (res, d', m')"
    and "find_idem u k d = Some r" "find_idem u k d' = Some r'"
  shows "(r' = r \<or>
      ik_status r = IN_PROGRESS \<and> ik_created_at r \<le> now - timeout \<and> (u, k) \<notin> locked \<and>
      (case bookings_with_key u k d of
         [] \<Rightarrow> r' = r\<lparr>ik_status := FAILED\<rparr>
       | b # _ \<Rightarrow> stored_replay r' = Replay 200 (BookingBody (build_booking_response b)) \<and> ik_status r' = COMPLETED)) \<and>
    (ik_status r' = FAILED \<and> ik_status r \<noteq> FAILED \<longrightarrow> bookings_with_key u k d = []) \<and>
    rp_stale_found res = rp_recovered res + rp_reaped res \<and> rp_stale_found res \<le> batch"
proof -
  have dist: "distinct (map ik_pk (db_idempotency_keys d))" using assms(1) by (simp add: schema_ok_iff)
  let ?rows = "stale_rows locked batch (now - timeout) d"
  have pk: "ik_user_id r = u" "ik_key r = k" using find_idem_SomeD [OF assms(3)] by (simp_all add: ik_pk_def)
  have r': "r' = (if r \<in> set ?rows then reap_row d r else r)"
    using reap_find [OF assms(1), of u k locked batch timeout now m] assms(2-4) by simp
  have row: "ik_status r = IN_PROGRESS \<and> ik_created_at r \<le> now - timeout \<and> (u, k) \<notin> locked" if "r \<in> set ?rows"
    using that stale_rows_props(1) [OF dist, of locked batch "now - timeout"] pk
    by (auto simp: stale_row_def ik_pk_def)
  have "length xs = length (filter P xs) + length (filter (\<lambda>x. \<not> P x) xs)" for P and xs :: "idem_row list"
    by (induction xs) auto
  then have "rp_stale_found res = rp_recovered res + rp_reaped res \<and> rp_stale_found res \<le> batch"
    using assms(2) by (auto simp: reap_once_def Let_def stale_rows_def)
  with r' row pk show ?thesis
    by (auto simp: reap_row_def stored_replay_def split: list.split)
qed

definition stale_sample :: db where
  "stale_sample = sample_db\<lparr>db_idempotency_keys := [new_key_row ''k2'' 9 ''f'' 10 60, new_key_row ''k3'' 9 ''f'' 10 60]\<rparr>"

lemma stale_sample_schema: "schema_ok stale_sample"
  using sample_schema by (simp add: schema_ok_iff one_active_booking_per_seat_def stale_sample_def)

lemma stale_sample_rows: "stale_rows {} 10 (100 - 60) stale_sample = db_idempotency_keys stale_sample"
  by (simp add: stale_sample_def stale_rows_def stale_row_def new_key_row_def idem_order_of_def
      less_eq_idem_order_def less_eq_list_code)

theorem reaper_never_fails_a_booked_key_witness:
  "\<exists>r'. find_idem 9 ''k2'' (fst (snd (reap_once {} 10 60 100 stale_sample zero_metrics))) = Some r' \<and> ik_status r' \<noteq> FAILED"
proof -
  obtain res d' m' where r: "reap_once {} 10 60 100 stale_sample zero_metrics = (res, d', m')" by (metis prod_cases3)
  have f: "find_idem 9 ''k2'' stale_sample = Some (new_key_row ''k2'' 9 ''f'' 10 60)"
    by (simp add: stale_sample_def find_idem_def)
  obtain r' where f': "find_idem 9 ''k2'' d' = Some r'"
    using reap_find [OF stale_sample_schema, of 9 "''k2''" "{}" 10 60 100 zero_metrics] r f by auto
  have "bookings_with_key 9 ''k2'' stale_sample \<noteq> []"
    by (simp add: bookings_with_key_def stale_sample_def sample_defs)
  moreover have "ik_status (new_key_row ''k2'' 9 ''f'' 10 60) \<noteq> FAILED" by (simp add: new_key_row_def)
  ultimately have "ik_status r' \<noteq> FAILED"
    using reaper_never_fails_a_booked_key [OF stale_sample_schema r f f'] by blast
  with r f' show ?thesis by auto
qed

text \<open>
  A crash does not lock a key forever. Let a request's row be IN_PROGRESS for longer than the
  timeout. After one reaper pass that is large enough for all stale rows and finds them unlocked,
  the client's retry goes ahead (\<open>New\<close>) if the crashed request left no booking with the key, and
  otherwise gets that booking; it is never answered with another 409.
\<close>

theorem crashed_request_can_retry:
  assumes "schema_ok d" "find_idem u k d = Some r" "ik_status r = IN_PROGRESS" "ik_created_at r \<le> now - timeout"
    and "length (filter (stale_row (now - timeout)) (db_idempotency_keys d)) \<le> batch"
    and "reap_once {} batch timeout now d m = (res, d', m')"
  shows "fst (begin_idempotent_request id k u (ik_fingerprint r) now2 ttl st d' m2) =
    (case bookings_with_key u k d of [] \<Rightarrow> New | b # _ \<Rightarrow> Replay 200 (BookingBody (build_booking_response b)))"
proof -
  have "r \<in> set (stale_rows {} batch (now - timeout) d)"
    using assms(3-5) find_idem_SomeD [OF assms(2)] by (simp add: stale_rows_def stale_row_def)
  then have f: "find_idem u k d' = Some (reap_row d r)"
    using reap_find [OF assms(1), of u k "{}" batch timeout now m] assms(2,6) by simp
  have pk: "ik_user_id r = u" "ik_key r = k" using find_idem_SomeD [OF assms(2)] by (simp_all add: ik_pk_def)
  have dist: "distinct (map ik_pk (db_idempotency_keys d'))"
    using reaper.pass_ok [of d batch timeout now m] assms(1,6) by (simp add: schema_ok_iff)
  show ?thesis
  proof (cases "bookings_with_key u k d")
    case Nil
    have "rowcount (\<lambda>r. ik_pk r = (u, k) \<and> ik_status r = FAILED) (db_idempotency_keys d') = 1"
      using rowcount_in_full_iff [OF dist, of "[(u, k)]" "\<lambda>r. ik_status r = FAILED"] f Nil pk
      by (auto simp: by_key_all_iff [OF dist] find_idem_def reap_row_def)
    with f Nil pk show ?thesis by (simp add: begin_idempotent_request_def reap_row_def)
  next
    case (Cons b bs)
    with f pk show ?thesis by (simp add: begin_idempotent_request_def reap_row_def stored_replay_def)
  qed
qed

theorem crashed_request_can_retry_witness:
  "fst (begin_idempotent_request id ''k3'' 9 ''f'' 100 60 60
     (fst (snd (reap_once {} 10 60 100 stale_sample zero_metrics))) zero_metrics) = New"
proof -
  obtain res d' m' where r: "reap_once {} 10 60 100 stale_sample zero_metrics = (res, d', m')" by (metis prod_cases3)
  have "find_idem 9 ''k3'' stale_sample = Some (new_key_row ''k3'' 9 ''f'' 10 60)"
    by (simp add: stale_sample_def find_idem_def new_key_row_def ik_pk_def)
  from crashed_request_can_retry [OF stale_sample_schema this _ _ _ r, of 100 60 60 zero_metrics] show ?thesis
    using r by (simp add: new_key_row_def stale_row_def bookings_with_key_def stale_sample_def sample_defs)
qed

text \<open>
  The reaper works its queue off. With a positive batch size and no locked rows, the stale
  rows there are now are gone after \<open>n div batch + 1\<close> passes.
\<close>

theorem reaper_drains:
  assumes "schema_ok d" "0 < batch"
  shows "\<not> list_ex (stale_row (now - timeout)) (db_idempotency_keys
    (((\<lambda>x. fst (snd (reap_once {} batch timeout now x m))) ^^
      (rowcount (stale_row (now - timeout)) (db_idempotency_keys d) div batch + 1)) d))"
  using reaper.drained_div [of d batch now timeout m] assms
  by (simp add: schema_ok_iff rowcount_0_iff list_ex_iff)

theorem reaper_drains_witness:
  "\<not> list_ex (stale_row (100 - 60)) (db_idempotency_keys
    (((\<lambda>x. fst (snd (reap_once {} 1 60 100 x zero_metrics))) ^^
      (rowcount (stale_row (100 - 60)) (db_idempotency_keys stale_sample) div 1 + 1)) stale_sample))"
  using reaper_drains [OF stale_sample_schema, of 1 100 60 zero_metrics] by simp

end
