(* ===== verification/Payments.thy ===== *)
theory Payments
  imports Routes
begin

text \<open>
  \<^verbatim>\<open>app/payments/\<close>, \<^verbatim>\<open>app/api/routes/webhooks.py\<close> and \<^verbatim>\<open>workers/payment_worker.py\<close>: a payment
  provider's events are authenticated, stored once, and applied to bookings later.

  HMAC-SHA256 and the JSON parser are parameters, and so is what the database driver makes of a
  Python \<open>bool\<close> where it expects an integer. \<open>refresh_raises\<close> says what reading an attribute of a
  row that a rollback has expired does in an asynchronous SQLAlchemy session: raise, or reload.
\<close>

section \<open>Signatures\<close>

definition sign :: "(string \<Rightarrow> string \<Rightarrow> string) \<Rightarrow> string \<Rightarrow> string \<Rightarrow> string" where
  "sign hmac_hex raw_body secret = hmac_hex secret raw_body"

text \<open>\<open>hmac.compare_digest\<close> on two strings raises \<open>TypeError\<close> if one is not ASCII.\<close>

definition ascii :: "string \<Rightarrow> bool" where
  "ascii s \<longleftrightarrow> list_all (\<lambda>c. (of_char c :: nat) < 128) s"

definition verify_signature :: "(string \<Rightarrow> string \<Rightarrow> string) \<Rightarrow> string \<Rightarrow> string option \<Rightarrow> string \<Rightarrow> exn + bool" where
  "verify_signature hmac_hex raw_body signature secret =
     (case signature of
        None \<Rightarrow> Inr False
      | Some s \<Rightarrow>
          if s = [] then Inr False
          else let expected = sign hmac_hex raw_body secret
               in if ascii expected \<and> ascii s then Inr (expected = s) else Inl TypeError)"

section \<open>Ingestion\<close>

datatype loaded = Loaded json | NotJson | LoadError string

datatype ingest_exn = MalformedPayload string | AttributeError | LoadRaised string | IngestDb db_error | IngestPy exn

datatype ingest_outcome = SignatureInvalid | Accepted string string | Duplicate string string | Unresolved string string

definition json_get :: "string \<Rightarrow> (string \<times> json) list \<Rightarrow> json" where
  "json_get k kvs = (case map_of kvs k of None \<Rightarrow> JNull | Some v \<Rightarrow> v)"

definition resolve_booking :: "(bool \<Rightarrow> db_error + int) \<Rightarrow> json \<Rightarrow> db \<Rightarrow> db_error + int option" where
  "resolve_booking bool_param raw d =
     bindE (case raw of JInt i \<Rightarrow> Inr (Some i) | JBool b \<Rightarrow> map_sum id Some (bool_param b) | _ \<Rightarrow> Inr None)
       (\<lambda>candidate. case candidate of
          None \<Rightarrow> Inr None
        | Some i \<Rightarrow> if find_booking i d = None then Inr None else Inr (Some i))"

definition payment_row :: "string \<Rightarrow> string \<Rightarrow> json \<Rightarrow> int option \<Rightarrow> instant \<Rightarrow> payment_event_row" where
  "payment_row eid typ payload bid now =
     \<lparr>pe_id = eid, pe_booking_id = bid, pe_type = typ, pe_payload = payload, pe_received_at = now,
      pe_processed_at = None, pe_status = (if bid = None then Some UNRESOLVED else None)\<rparr>"

definition store_event :: "string \<Rightarrow> string \<Rightarrow> json \<Rightarrow> int option \<Rightarrow> instant \<Rightarrow> db \<Rightarrow> metrics \<Rightarrow>
    ingest_outcome \<times> db \<times> metrics" where
  "store_event eid typ payload bid now d m =
     (if find_payment_event eid d \<noteq> None
      then (Duplicate eid typ, d, inc (Webhook_events typ Duplicate_outcome) (inc Webhook_duplicate m))
      else (let d' = d\<lparr>db_payment_events := db_payment_events d @ [payment_row eid typ payload bid now]\<rparr>
            in if bid = None
               then (Unresolved eid typ, d', inc (Webhook_events typ Unresolved_outcome) (inc Webhook_unresolved m))
               else (Accepted eid typ, d', inc (Webhook_events typ Accepted_outcome) m)))"

definition ingest_webhook :: "(string \<Rightarrow> string \<Rightarrow> string) \<Rightarrow> (string \<Rightarrow> loaded) \<Rightarrow> (bool \<Rightarrow> db_error + int) \<Rightarrow>
    string \<Rightarrow> string option \<Rightarrow> string \<Rightarrow> instant \<Rightarrow> db \<Rightarrow> metrics \<Rightarrow> (ingest_exn + ingest_outcome) \<times> db \<times> metrics" where
  "ingest_webhook hmac_hex json_loads bool_param raw_body signature secret now d m =
     (case verify_signature hmac_hex raw_body signature secret of
        Inl e \<Rightarrow> (Inl (IngestPy e), d, m)
      | Inr False \<Rightarrow> (Inr SignatureInvalid, d, inc Webhook_signature_failures m)
      | Inr True \<Rightarrow>
         (case json_loads raw_body of
            NotJson \<Rightarrow> (Inl (MalformedPayload ''body is not valid JSON''), d, m)
          | LoadError why \<Rightarrow> (Inl (LoadRaised why), d, m)
          | Loaded (JObj kvs) \<Rightarrow>
             (case (json_get ''event_id'' kvs, json_get ''event_type'' kvs) of
                (JStr eid, JStr typ) \<Rightarrow>
                  (case resolve_booking bool_param (json_get ''booking_id'' kvs) d of
                     Inl e \<Rightarrow> (Inl (IngestDb e), d, m)
                   | Inr bid \<Rightarrow>
                       (let (out, d', m') = store_event eid typ (JObj kvs) bid now d m in (Inr out, d', m')))
              | _ \<Rightarrow> (Inl (MalformedPayload ''payload missing string event_id/event_type''), d, m))
          | Loaded _ \<Rightarrow> (Inl AttributeError, d, m)))"

text \<open>The route: status code and the \<open>status\<close> or \<open>reason\<close> of the body; None is an exception (500).\<close>

fun webhook_response :: "ingest_exn + ingest_outcome \<Rightarrow> (int \<times> string) option" where
  "webhook_response (Inl (MalformedPayload why)) = Some (400, why)"
| "webhook_response (Inl _) = None"
| "webhook_response (Inr SignatureInvalid) = Some (401, ''invalid_signature'')"
| "webhook_response (Inr (Duplicate _ _)) = Some (200, ''duplicate'')"
| "webhook_response (Inr (Unresolved _ _)) = Some (200, ''unresolved'')"
| "webhook_response (Inr (Accepted _ _)) = Some (200, ''accepted'')"

definition receive_payment_webhook :: "(string \<Rightarrow> string \<Rightarrow> string) \<Rightarrow> (string \<Rightarrow> loaded) \<Rightarrow> (bool \<Rightarrow> db_error + int) \<Rightarrow>
    settings \<Rightarrow> string \<Rightarrow> string option \<Rightarrow> instant \<Rightarrow> db \<Rightarrow> metrics \<Rightarrow> (int \<times> string) option \<times> db \<times> metrics" where
  "receive_payment_webhook hmac_hex json_loads bool_param cfg raw_body signature now d m =
     (let (out, d', m') = ingest_webhook hmac_hex json_loads bool_param raw_body signature
            (cfg_webhook_hmac_secret cfg) now d m
      in (webhook_response out, d', m'))"

section \<open>Applying an event\<close>

definition seats_still_valid_for_booking :: "booking_row \<Rightarrow> instant \<Rightarrow> db \<Rightarrow> bool" where
  "seats_still_valid_for_booking b now d =
     (let rows = select_seats (br_seat_ids b) d
      in length rows = length (br_seat_ids b) \<and> list_all (held_by_sql (br_session_id b) now) rows)"

text \<open>
  A handler returns the event's terminal status with the seats whose status changed, whether it
  rolled the batch's transaction back (to \<open>base\<close>), the database and the metrics.
\<close>

record handled =
  hd_status :: processing_status
  hd_seats :: "int list"
  hd_rolled_back :: bool

definition handled_as :: "processing_status \<Rightarrow> int list \<Rightarrow> handled" where
  "handled_as st ids = \<lparr>hd_status = st, hd_seats = ids, hd_rolled_back = False\<rparr>"

definition pending_booking :: "int \<Rightarrow> booking_status \<Rightarrow> booking_row \<Rightarrow> bool" where
  "pending_booking bid st b \<longleftrightarrow> br_id b = bid \<and> br_status b = st"

definition require_refund_db :: "int \<Rightarrow> instant \<Rightarrow> db \<Rightarrow> db" where
  "require_refund_db bid now d =
     outbox_append (BookingRefundRequired bid) now
       (d\<lparr>db_bookings := upd_where (pending_booking bid PENDING) (\<lambda>b. b\<lparr>br_status := REFUND_REQUIRED\<rparr>) (db_bookings d)\<rparr>)"

definition apply_payment_succeeded :: "bool \<Rightarrow> db \<Rightarrow> int option \<Rightarrow> instant \<Rightarrow> db \<Rightarrow> metrics \<Rightarrow>
    (db_error + handled) \<times> db \<times> metrics" where
  "apply_payment_succeeded empty_insert base booking now d m =
     (case Option.bind booking (\<lambda>i. load_booking i d) of
        None \<Rightarrow> (Inr (handled_as REJECTED []), d, m)
      | Some b \<Rightarrow>
          if br_status b = CONFIRMED then (Inr (handled_as APPLIED []), d, m)
          else if br_status b \<noteq> PENDING then (Inr (handled_as REJECTED []), d, m)
          else if \<not> seats_still_valid_for_booking b now d then
            (case require_refund (booking_to_domain b) (Aware now) of
               Inl _ \<Rightarrow> (Inr (handled_as REJECTED []), d, m)
             | Inr _ \<Rightarrow>
                if rowcount (pending_booking (br_id b) PENDING) (db_bookings d) \<noteq> 1
                then (Inr (handled_as REJECTED []), d, m)
                else (Inr (handled_as APPLIED []), require_refund_db (br_id b) now d, inc Late_payment_refund_required m))
          else
            (case attempt_confirm_write empty_insert base (br_id b) (br_seat_ids b) (br_session_id b) now None d m of
               (Inl e, d', m') \<Rightarrow> (Inl e, d', m')
             | (Inr False, d', m') \<Rightarrow> (Inr ((handled_as REJECTED [])\<lparr>hd_rolled_back := True\<rparr>), d', m')
             | (Inr True, d', m') \<Rightarrow> (Inr (handled_as APPLIED (br_seat_ids b)), d', m')))"

definition unbook_row :: "instant \<Rightarrow> seat_row \<Rightarrow> seat_row" where
  "unbook_row now r =
     r\<lparr>sr_status := AVAILABLE, sr_version := sr_version r + 1, sr_booking_id := None, sr_updated_at := now\<rparr>"

definition unbook_matches :: "int list \<Rightarrow> int \<Rightarrow> seat_row \<Rightarrow> bool" where
  "unbook_matches ids bid r \<longleftrightarrow> sr_id r \<in> set ids \<and> sr_status r = BOOKED \<and> sr_booking_id r = Some bid"

definition refund_db :: "booking_row \<Rightarrow> booking_status \<Rightarrow> instant \<Rightarrow> db \<Rightarrow> db" where
  "refund_db b new_status now d =
     outbox_append (BookingRefunded (br_id b) (br_seat_ids b)) now
       (d\<lparr>db_bookings := upd_where (pending_booking (br_id b) CONFIRMED) (\<lambda>x. x\<lparr>br_status := new_status\<rparr>) (db_bookings d),
          db_seats := upd_where (unbook_matches (br_seat_ids b) (br_id b)) (unbook_row now) (db_seats d)\<rparr>)"

definition apply_payment_refunded :: "int option \<Rightarrow> instant \<Rightarrow> db \<Rightarrow> metrics \<Rightarrow> (db_error + handled) \<times> db \<times> metrics" where
  "apply_payment_refunded booking now d m =
     (case Option.bind booking (\<lambda>i. load_booking i d) of
        None \<Rightarrow> (Inr (handled_as REJECTED []), d, m)
      | Some b \<Rightarrow>
         (case refund_booking (booking_to_domain b) (Aware now) of
            Inl _ \<Rightarrow> (Inr (handled_as REJECTED []), d, m)
          | Inr refunded \<Rightarrow>
              if rowcount (pending_booking (br_id b) CONFIRMED) (db_bookings d) \<noteq> 1
              then (Inr (handled_as REJECTED []), d, m)
              else (Inr (handled_as APPLIED (br_seat_ids b)), refund_db b (bkg_status refunded) now d, m)))"

section \<open>The worker\<close>

definition finish_event :: "payment_event_row \<Rightarrow> processing_status \<Rightarrow> instant option \<Rightarrow> db \<Rightarrow> db" where
  "finish_event e st at d =
     d\<lparr>db_payment_events := upd_where (\<lambda>x. pe_id x = pe_id e)
         (\<lambda>x. x\<lparr>pe_status := Some st, pe_processed_at := (case at of None \<Rightarrow> pe_processed_at x | Some t \<Rightarrow> Some t)\<rparr>)
         (db_payment_events d)\<rparr>"

datatype worker_exn = WorkerDb db_error | MissingGreenlet

record batch =
  bt_applied :: nat
  bt_rejected :: nat
  bt_touched :: "int list"
  bt_expired :: bool

definition count_event :: "handled \<Rightarrow> batch \<Rightarrow> batch" where
  "count_event h s =
     s\<lparr>bt_applied := bt_applied s + (if hd_status h = APPLIED then 1 else 0),
       bt_rejected := bt_rejected s + (if hd_status h = APPLIED then 0 else 1),
       bt_touched := bt_touched s @ hd_seats h,
       bt_expired := bt_expired s \<or> hd_rolled_back h\<rparr>"

text \<open>
  The loop over the batch. An unknown event type is REJECTED without a processing time.
\<close>

fun process_events :: "bool \<Rightarrow> bool \<Rightarrow> db \<Rightarrow> instant \<Rightarrow> payment_event_row list \<Rightarrow> batch \<Rightarrow> db \<Rightarrow> metrics \<Rightarrow>
    (worker_exn + batch) \<times> db \<times> metrics" where
  "process_events refresh_raises empty_insert base now [] s d m = (Inr s, d, m)"
| "process_events refresh_raises empty_insert base now (e # es) s d m =
     (if bt_expired s \<and> refresh_raises then (Inl MissingGreenlet, base, m)
      else if pe_type e \<noteq> ''payment.succeeded'' \<and> pe_type e \<noteq> ''payment.refunded''
        then process_events refresh_raises empty_insert base now es
               (s\<lparr>bt_rejected := bt_rejected s + 1\<rparr>) (finish_event e REJECTED None d) m
      else
        (case (if pe_type e = ''payment.succeeded''
               then apply_payment_succeeded empty_insert base (pe_booking_id e) now d m
               else apply_payment_refunded (pe_booking_id e) now d m) of
           (Inl x, d', m') \<Rightarrow> (Inl (WorkerDb x), base, m')
         | (Inr h, d', m') \<Rightarrow>
             process_events refresh_raises empty_insert base now es (count_event h s)
               (finish_event e (hd_status h) (Some now) d') m'))"

text \<open>\<open>ORDER BY received_at\<close> over the unprocessed events no other transaction has locked.\<close>

definition queued_events :: "string set \<Rightarrow> nat \<Rightarrow> db \<Rightarrow> payment_event_row list" where
  "queued_events locked limit d =
     take limit (filter (\<lambda>e. pe_id e \<notin> locked)
       (sort_key pe_received_at (filter (\<lambda>e. pe_status e = None) (db_payment_events d))))"

record process_result =
  pr_processed :: nat
  pr_applied :: nat
  pr_rejected :: nat

definition process_once :: "bool \<Rightarrow> bool \<Rightarrow> string set \<Rightarrow> nat \<Rightarrow> instant \<Rightarrow> db \<Rightarrow> redis \<Rightarrow> metrics \<Rightarrow>
    (worker_exn + process_result) \<times> db \<times> redis \<times> metrics" where
  "process_once refresh_raises empty_insert locked limit now d r m =
     (let events = queued_events locked limit d
      in case process_events refresh_raises empty_insert d now events
             \<lparr>bt_applied = 0, bt_rejected = 0, bt_touched = [], bt_expired = False\<rparr> d m of
           (Inl x, d', m') \<Rightarrow> (Inl x, d', r, m')
         | (Inr s, d', m') \<Rightarrow>
             (Inr \<lparr>pr_processed = length events, pr_applied = bt_applied s, pr_rejected = bt_rejected s\<rparr>, d',
              (if bt_touched s = [] then r else publish_rows row_update sr_event_id (select_seats (bt_touched s) d') r),
              m'))"

end
