(* ===== verification/Payments_Facts.thy ===== *)
theory Payments_Facts
  imports Payments Booking_Facts Samples
begin

text \<open>
  What the webhook and the payment worker do on every branch, and what they keep.
\<close>

section \<open>Ingestion\<close>

lemma verify_signature_True_iff:
  "verify_signature hm body sig secret = Inr True \<longleftrightarrow>
    (\<exists>s. sig = Some s \<and> s \<noteq> [] \<and> s = sign hm body secret \<and> ascii s)"
  by (auto simp: verify_signature_def Let_def split: option.splits if_splits)

lemma find_payment_event_appended:
  "find_payment_event i (d\<lparr>db_payment_events := db_payment_events d @ [e]\<rparr>) =
     (case find_payment_event i d of None \<Rightarrow> (if pe_id e = i then Some e else None) | Some x \<Rightarrow> Some x)"
  by (simp add: find_payment_event_def split: option.split)

lemma payment_row_sel [simp]:
  "pe_id (payment_row i t p b n) = i" "pe_booking_id (payment_row i t p b n) = b"
  "pe_type (payment_row i t p b n) = t" "pe_status (payment_row i t p b n) = (if b = None then Some UNRESOLVED else None)"
  by (simp_all add: payment_row_def)

lemma store_event_new:
  assumes "find_payment_event i d = None" "store_event i t p b now d m = (out, d', m')"
  shows "d' = d\<lparr>db_payment_events := db_payment_events d @ [payment_row i t p b now]\<rparr>"
    and "out = (if b = None then Unresolved i t else Accepted i t)"
  using assms by (auto simp: store_event_def Let_def split: if_splits)

lemma store_event_again:
  "find_payment_event i d = Some e \<Longrightarrow> store_event i t p b now d m =
     (Duplicate i t, d, inc (Webhook_events t Duplicate_outcome) (inc Webhook_duplicate m))"
  by (simp add: store_event_def)

lemma resolve_booking_Inr:
  "resolve_booking bp raw d = Inr (Some i) \<Longrightarrow> find_booking i d \<noteq> None"
  by (auto simp: resolve_booking_def bindE_eq_Inr_iff split: json.splits option.splits if_splits)

section \<open>Handlers\<close>

lemma handled_as_sel [simp]:
  "hd_status (handled_as st ids) = st" "hd_seats (handled_as st ids) = ids" "\<not> hd_rolled_back (handled_as st ids)"
  by (simp_all add: handled_as_def)

lemma pending_booking_rowcount:
  assumes "schema_ok d"
  shows "rowcount (pending_booking bid st) (db_bookings d) = 1 \<longleftrightarrow>
    (\<exists>b. find_booking bid d = Some b \<and> br_status b = st)"
proof -
  have dist: "distinct (map br_id (db_bookings d))" using assms by (simp add: schema_ok_iff)
  have e: "pending_booking bid st = (\<lambda>b. br_id b \<in> set [bid] \<and> br_status b = st)"
    by (auto simp: pending_booking_def)
  show ?thesis
    unfolding e using rowcount_in_full_iff [OF dist, of "[bid]" "\<lambda>b. br_status b = st"] assms
    by (auto simp: find_booking_iff)
qed

lemma load_booking_id: "load_booking i d = Some b \<Longrightarrow> br_id b = i"
  by (auto simp: load_booking_def dest: find_booking_SomeD)

text \<open>The seats of a booking are validly held exactly if each is, and none is listed twice.\<close>

lemma seats_still_valid_iff:
  assumes "schema_ok d"
  shows "seats_still_valid_for_booking b now d \<longleftrightarrow> distinct (br_seat_ids b) \<and>
    (\<forall>i \<in> set (br_seat_ids b). \<exists>r. find_seat i d = Some r \<and> held_by_sql (br_session_id b) now r)"
proof -
  have dist: "distinct (map sr_id (db_seats d))" using assms by (simp add: schema_ok_iff)
  have "length (select_seats (br_seat_ids b) d) = rowcount (\<lambda>r. sr_id r \<in> set (br_seat_ids b) \<and> True) (db_seats d)"
    by (simp add: select_seats_def rowcount_def)
  then have len: "length (select_seats (br_seat_ids b) d) = length (br_seat_ids b) \<longleftrightarrow>
      distinct (br_seat_ids b) \<and> (\<forall>i \<in> set (br_seat_ids b). \<exists>r \<in> set (db_seats d). sr_id r = i)"
    using rowcount_in_full_iff [OF dist, of "br_seat_ids b" "\<lambda>_. True"] by simp
  show ?thesis
  proof
    assume v: "seats_still_valid_for_booking b now d"
    then have "\<forall>r \<in> set (db_seats d). sr_id r \<in> set (br_seat_ids b) \<longrightarrow> held_by_sql (br_session_id b) now r"
      by (auto simp: seats_still_valid_for_booking_def Let_def select_seats_def list_all_iff)
    with v len show "distinct (br_seat_ids b) \<and>
        (\<forall>i \<in> set (br_seat_ids b). \<exists>r. find_seat i d = Some r \<and> held_by_sql (br_session_id b) now r)"
      unfolding seats_still_valid_for_booking_def Let_def by (metis find_seat_iff [OF assms])
  next
    assume h: "distinct (br_seat_ids b) \<and>
        (\<forall>i \<in> set (br_seat_ids b). \<exists>r. find_seat i d = Some r \<and> held_by_sql (br_session_id b) now r)"
    have "held_by_sql (br_session_id b) now r" if "r \<in> set (select_seats (br_seat_ids b) d)" for r
    proof -
      from that have "find_seat (sr_id r) d = Some r" "sr_id r \<in> set (br_seat_ids b)"
        using assms by (auto simp: find_seat_iff select_seats_def)
      with h show ?thesis by auto
    qed
    moreover have "length (select_seats (br_seat_ids b) d) = length (br_seat_ids b)"
      using h len find_seat_SomeD by blast
    ultimately show "seats_still_valid_for_booking b now d"
      by (simp add: seats_still_valid_for_booking_def Let_def list_all_iff)
  qed
qed

lemma apply_succeeded_frame:
  assumes "apply_payment_succeeded e base bid now d m = (res, d', m')"
  shows "d' = d \<or> d' = base \<or> (\<exists>i b. bid = Some i \<and> load_booking i d = Some b \<and> br_status b = PENDING \<and>
      (d' = require_refund_db (br_id b) now d \<or>
       attempt_confirm_write e base (br_id b) (br_seat_ids b) (br_session_id b) now None d m = (Inr True, d', m')))"
  using assms unfolding apply_payment_succeeded_def
  by (cases bid) (auto split: option.splits if_splits sum.splits prod.splits bool.splits
      dest: attempt_confirm_write_fails)

lemma require_refund_db_sel [simp]:
  "db_seats (require_refund_db i now d) = db_seats d"
  "db_booking_seats (require_refund_db i now d) = db_booking_seats d"
  "db_events (require_refund_db i now d) = db_events d"
  "db_idempotency_keys (require_refund_db i now d) = db_idempotency_keys d"
  "db_payment_events (require_refund_db i now d) = db_payment_events d"
  "db_next_booking (require_refund_db i now d) = db_next_booking d"
  "db_bookings (require_refund_db i now d) =
     upd_where (pending_booking i PENDING) (\<lambda>b. b\<lparr>br_status := REFUND_REQUIRED\<rparr>) (db_bookings d)"
  "find_seat j (require_refund_db i now d) = find_seat j d"
  by (simp_all add: require_refund_db_def outbox_append_def find_seat_def)

lemma unbook_row_frame [simp]:
  "sr_id (unbook_row t r) = sr_id r" "seat_place (unbook_row t r) = seat_place r"
  "sr_status (unbook_row t r) = AVAILABLE" "sr_booking_id (unbook_row t r) = None"
  by (simp_all add: unbook_row_def seat_place_def)

lemma refund_db_sel [simp]:
  "db_seats (refund_db b st now d) = upd_where (unbook_matches (br_seat_ids b) (br_id b)) (unbook_row now) (db_seats d)"
  "db_booking_seats (refund_db b st now d) = db_booking_seats d"
  "db_events (refund_db b st now d) = db_events d"
  "db_idempotency_keys (refund_db b st now d) = db_idempotency_keys d"
  "db_payment_events (refund_db b st now d) = db_payment_events d"
  "db_next_booking (refund_db b st now d) = db_next_booking d"
  "db_bookings (refund_db b st now d) =
     upd_where (pending_booking (br_id b) CONFIRMED) (\<lambda>x. x\<lparr>br_status := st\<rparr>) (db_bookings d)"
  "active_seat_ids (refund_db b st now d) = active_seat_ids d"
  by (simp_all add: refund_db_def outbox_append_def active_seat_ids_def)

text \<open>Changing only the status of bookings cannot break a key.\<close>

lemma booking_key_unique_status:
  "booking_key_unique (upd_where P (\<lambda>b. b\<lparr>br_status := st\<rparr>) bs) = booking_key_unique bs"
proof -
  have "map (\<lambda>b. (br_user_id b, br_idempotency_key b)) (filter (\<lambda>b. br_idempotency_key b \<noteq> None)
      (upd_where P (\<lambda>b. b\<lparr>br_status := st\<rparr>) bs)) =
      map (\<lambda>b. (br_user_id b, br_idempotency_key b)) (filter (\<lambda>b. br_idempotency_key b \<noteq> None) bs)"
    by (induction bs) auto
  then show ?thesis by (simp add: booking_key_unique_def)
qed

lemma require_refund_schema: "schema_ok d \<Longrightarrow> schema_ok (require_refund_db i now d)"
  by (auto simp: schema_ok_iff booking_key_unique_status map_upd_where set_upd_where one_active_booking_per_seat_def)

lemma refund_schema: "schema_ok d \<Longrightarrow> schema_ok (refund_db b st now d)"
  by (auto simp: schema_ok_iff booking_key_unique_status map_upd_where set_upd_where one_active_booking_per_seat_def)

lemma refund_coherent:
  assumes "seats_coherent d"
  shows "seats_coherent (refund_db b st now d)"
proof -
  have "row_coherent (unbook_row now r)" if "row_coherent r" "sr_status r = BOOKED" for r
    using that by (simp add: row_coherent_def coherent_def unbook_row_def seat_to_domain_def)
  with assms show ?thesis by (auto simp: seats_coherent_iff set_upd_where unbook_matches_def)
qed

lemma linkage_cong:
  "db_seats d = db_seats e \<Longrightarrow> db_booking_seats d = db_booking_seats e \<Longrightarrow> linkage_ok d = linkage_ok e"
  by (simp add: linkage_ok_iff active_seat_ids_def)

definition healthy :: "db \<Rightarrow> bool" where
  "healthy d \<longleftrightarrow> schema_ok d \<and> seats_coherent d \<and> linkage_ok d"

lemma require_refund_healthy: "healthy d \<Longrightarrow> healthy (require_refund_db i now d)"
  using linkage_cong [of "require_refund_db i now d" d]
  by (simp add: healthy_def require_refund_schema seats_coherent_def)

lemma attempt_confirm_write_healthy:
  "healthy d \<Longrightarrow> healthy base \<Longrightarrow> attempt_confirm_write e base bid ids s now key d m = (res, d', m') \<Longrightarrow> healthy d'"
  using attempt_confirm_write_keeps [of d base e bid ids s now key m res d' m'] by (simp add: healthy_def)

lemma apply_succeeded_healthy:
  assumes "healthy d" "healthy base" "apply_payment_succeeded e base bid now d m = (res, d', m')"
  shows "healthy d'"
  using apply_succeeded_frame [OF assms(3)] assms(1,2) require_refund_healthy attempt_confirm_write_healthy by blast

lemma finish_event_sel [simp]:
  "db_seats (finish_event ev st at d) = db_seats d"
  "db_bookings (finish_event ev st at d) = db_bookings d"
  "db_booking_seats (finish_event ev st at d) = db_booking_seats d"
  "db_events (finish_event ev st at d) = db_events d"
  "db_idempotency_keys (finish_event ev st at d) = db_idempotency_keys d"
  "db_next_booking (finish_event ev st at d) = db_next_booking d"
  by (simp_all add: finish_event_def)

lemma finish_event_healthy: "healthy d \<Longrightarrow> healthy (finish_event ev st at d)"
  using linkage_cong [of "finish_event ev st at d" d]
  by (simp add: healthy_def schema_ok_iff seats_coherent_def one_active_booking_per_seat_def)
    (simp add: finish_event_def map_upd_where)

text \<open>
  The induction over a batch, once: what both handlers and the marking of an event keep, and the
  database to roll back to has, the pass keeps.
\<close>

lemma process_events_inv:
  assumes "P d" "P base" "process_events rr e base now es s d m = (res, d', m')"
    and succ: "\<And>bid x n y x' n'. P x \<Longrightarrow> apply_payment_succeeded e base bid now x n = (y, x', n') \<Longrightarrow> P x'"
    and refd: "\<And>ev x n y x' n'. ev \<in> set es \<Longrightarrow> pe_type ev = ''payment.refunded'' \<Longrightarrow> P x \<Longrightarrow>
      apply_payment_refunded (pe_booking_id ev) now x n = (y, x', n') \<Longrightarrow> P x'"
    and fin: "\<And>ev st at x. P x \<Longrightarrow> P (finish_event ev st at x)"
  shows "P d'"
  using assms(1,3) refd
proof (induction es arbitrary: s d m)
  case Nil
  then show ?case by simp
next
  case (Cons ev es)
  note IH = Cons.IH [OF _ _ Cons.prems(3) [OF list.set_intros(2)]]
  show ?case
  proof (cases "bt_expired s \<and> rr")
    case True
    with Cons.prems(2) assms(2) show ?thesis by simp
  next
    case go: False
    show ?thesis
    proof (cases "pe_type ev \<noteq> ''payment.succeeded'' \<and> pe_type ev \<noteq> ''payment.refunded''")
      case True
      have "process_events rr e base now es (s\<lparr>bt_rejected := bt_rejected s + 1\<rparr>)
          (finish_event ev REJECTED None d) m = (res, d', m')"
        using Cons.prems(2) unfolding process_events.simps(2) if_not_P [OF go] if_P [OF True] .
      then show ?thesis by (rule IH [OF fin [OF Cons.prems(1)]])
    next
      case False
      obtain x d1 m1 where a: "(if pe_type ev = ''payment.succeeded''
          then apply_payment_succeeded e base (pe_booking_id ev) now d m
          else apply_payment_refunded (pe_booking_id ev) now d m) = (x, d1, m1)"
        by (metis prod_cases3)
      have P1: "P d1"
      proof (cases "pe_type ev = ''payment.succeeded''")
        case True
        with a have "apply_payment_succeeded e base (pe_booking_id ev) now d m = (x, d1, m1)" by simp
        then show ?thesis by (rule succ [OF Cons.prems(1)])
      next
        case neq: False
        with False have "pe_type ev = ''payment.refunded''" by blast
        moreover from a neq have "apply_payment_refunded (pe_booking_id ev) now d m = (x, d1, m1)" by simp
        ultimately show ?thesis by (rule Cons.prems(3) [OF list.set_intros(1) _ Cons.prems(1)])
      qed
      show ?thesis
      proof (cases x)
        case (Inl y)
        with Cons.prems(2) assms(2) show ?thesis
          unfolding process_events.simps(2) if_not_P [OF go] if_not_P [OF False] a by simp
      next
        case (Inr h)
        with Cons.prems(2) have "process_events rr e base now es (count_event h s)
            (finish_event ev (hd_status h) (Some now) d1) m1 = (res, d', m')"
          unfolding process_events.simps(2) if_not_P [OF go] if_not_P [OF False] a by simp
        then show ?thesis by (rule IH [OF fin [OF P1]])
      qed
    qed
  qed
qed

lemma process_events_healthy:
  assumes "healthy d" "healthy base" "\<forall>ev \<in> set es. pe_type ev \<noteq> ''payment.refunded''"
    and "process_events rr e base now es s d m = (res, d', m')"
  shows "healthy d'"
  using assms(1,2,4)
proof (rule process_events_inv)
  show "healthy x'" if "healthy x" "apply_payment_succeeded e base bid now x n = (y, x', n')" for bid x n y x' n'
    using apply_succeeded_healthy [OF that(1) assms(2) that(2)] .
  show "healthy x'" if "ev \<in> set es" "pe_type ev = ''payment.refunded''" for ev x'
    using assms(3) that by simp
qed (rule finish_event_healthy)

end
