(* ===== verification/Payments_Properties.thy ===== *)
theory Payments_Properties
  imports Payments_Facts
begin

text \<open>
  What the payment path promises: authentication first, every event once, no resurrection of
  refunded bookings, no seat taken for a late payment - and where the refund path breaks the
  linkage the confirmations rely on.
\<close>

section \<open>The webhook\<close>


definition toy_hmac :: "string \<Rightarrow> string \<Rightarrow> string" where
  "toy_hmac secret body = ''mac'' @ body"


lemma ingest_stored:
  assumes "ingest_webhook hm loads bp body sig secret now d m = (Inr out, d', m')"
    and "out = Accepted eid typ \<or> out = Unresolved eid typ"
  shows "\<exists>kvs bid. verify_signature hm body sig secret = Inr True \<and> loads body = Loaded (JObj kvs) \<and>
    json_get ''event_id'' kvs = JStr eid \<and> json_get ''event_type'' kvs = JStr typ \<and>
    resolve_booking bp (json_get ''booking_id'' kvs) d = Inr bid \<and> find_payment_event eid d = None \<and>
    store_event eid typ (JObj kvs) bid now d m = (out, d', m')"
  using assms unfolding ingest_webhook_def
  by (auto split: sum.splits bool.splits loaded.splits json.splits prod.splits)
    (auto simp: store_event_def Let_def split: if_splits)

lemma resolve_booking_other_db:
  "resolve_booking bp raw d = Inr bid \<Longrightarrow> \<exists>bid'. resolve_booking bp raw e = Inr bid'"
proof -
  assume r: "resolve_booking bp raw d = Inr bid"
  let ?C = "case raw of JInt i \<Rightarrow> Inr (Some i) | JBool b \<Rightarrow> map_sum id Some (bp b) | _ \<Rightarrow> Inr None"
  obtain x where "?C = Inr x" using r unfolding resolve_booking_def bindE_eq_Inr_iff by blast
  then have "resolve_booking bp raw e = (case x of None \<Rightarrow> Inr None
      | Some i \<Rightarrow> if find_booking i e = None then Inr None else Inr (Some i))"
    by (simp add: resolve_booking_def)
  then show ?thesis by (cases x) simp_all
qed


definition sample_event :: json where
  "sample_event = JObj [(''event_id'', JStr ''e1''), (''event_type'', JStr ''payment.succeeded''), (''booking_id'', JInt 2)]"

lemma sample_ingest:
  "ingest_webhook toy_hmac (\<lambda>_. Loaded sample_event) (\<lambda>_. Inl DataError) ''b'' (Some ''macb'') ''s'' 100 sample_db zero_metrics =
     (Inr (Accepted ''e1'' ''payment.succeeded''),
      sample_db\<lparr>db_payment_events := [payment_row ''e1'' ''payment.succeeded'' sample_event (Some 2) 100]\<rparr>,
      inc (Webhook_events ''payment.succeeded'' Accepted_outcome) zero_metrics)"
proof -
  have "find_payment_event ''e1'' sample_db = None" "db_payment_events sample_db = []"
    by (simp_all add: find_payment_event_def sample_db_def)
  then show ?thesis
    by (simp add: ingest_webhook_def verify_signature_def sign_def toy_hmac_def ascii_def sample_event_def json_get_def
        resolve_booking_def store_event_def)
qed


section \<open>Applying events\<close>

lemma confirm_without_key_unique:
  assumes "booking_key_unique (db_bookings d)"
  shows "booking_key_unique (db_bookings (confirmed_db i ids now None d))"
proof -
  have "map (\<lambda>b. (br_user_id b, br_idempotency_key b)) (filter (\<lambda>b. br_idempotency_key b \<noteq> None)
      (upd_where P (confirm_booking_row None now) bs)) =
      map (\<lambda>b. (br_user_id b, br_idempotency_key b)) (filter (\<lambda>b. br_idempotency_key b \<noteq> None) bs)" for P bs
    by (induction bs) (auto simp: confirm_booking_row_def)
  with assms show ?thesis by (simp add: booking_key_unique_def)
qed

lemma attempt_blocked_by_link:
  assumes "schema_ok d" "find_booking i d \<noteq> None" "distinct ids"
    and "\<forall>j \<in> set ids. \<exists>r. find_seat j d = Some r \<and> held_by_sql s now r"
    and "\<not> links_insertable e i ids d"
  shows "attempt_confirm_write e base i ids s now key d m = (Inr False, base, inc (Oversell_blocked Database) m)"
  using assms confirm_matches_full [OF assms(1), of ids s now]
  by (auto simp: attempt_confirm_write_def Let_def)

lemma payment_succeeded_spec_fact:
  assumes "schema_ok d"
  shows "apply_payment_succeeded e base (Some i) now d m =
    (case find_booking i d of
       None \<Rightarrow> (Inr (handled_as REJECTED []), d, m)
     | Some b \<Rightarrow>
         (case br_status b of
            CONFIRMED \<Rightarrow> (Inr (handled_as APPLIED []), d, m)
          | PENDING \<Rightarrow>
              (if \<not> (distinct (br_seat_ids b) \<and>
                  (\<forall>j \<in> set (br_seat_ids b). \<exists>r. find_seat j d = Some r \<and> held_by_sql (br_session_id b) now r))
               then (Inr (handled_as APPLIED []), require_refund_db i now d, inc Late_payment_refund_required m)
               else if links_insertable e i (br_seat_ids b) d
               then (Inr (handled_as APPLIED (br_seat_ids b)), confirmed_db i (br_seat_ids b) now None d, m)
               else (Inr ((handled_as REJECTED [])\<lparr>hd_rolled_back := True\<rparr>), base, inc (Oversell_blocked Database) m))
          | _ \<Rightarrow> (Inr (handled_as REJECTED []), d, m)))"
proof (cases "find_booking i d")
  case None
  then show ?thesis by (simp add: apply_payment_succeeded_def load_booking_def)
next
  case (Some b)
  have id: "br_id b = i" using find_booking_SomeD [OF Some] by simp
  show ?thesis
  proof (cases "br_status b = PENDING")
    case False
    then show ?thesis
      using Some by (cases "br_status b") (simp_all add: apply_payment_succeeded_def load_booking_def)
  next
    case True
    have one: "rowcount (pending_booking i PENDING) (db_bookings d) = 1"
      using Some True by (simp add: pending_booking_rowcount [OF assms] del: One_nat_def)
    show ?thesis
    proof (cases "seats_still_valid_for_booking b now d")
      case False
      then show ?thesis
        using Some True id one unfolding seats_still_valid_iff [OF assms]
        by (auto simp: apply_payment_succeeded_def load_booking_def seats_still_valid_iff [OF assms]
            require_refund_aware booking_ok_to_domain)
    next
      case valid: True
      then have v: "distinct (br_seat_ids b)"
        "\<forall>j \<in> set (br_seat_ids b). \<exists>r. find_seat j d = Some r \<and> held_by_sql (br_session_id b) now r"
        by (simp_all add: seats_still_valid_iff [OF assms])
      show ?thesis
      proof (cases "links_insertable e i (br_seat_ids b) d")
        case True
        have "booking_key_unique (db_bookings d)" using assms by (simp add: schema_ok_iff)
        then have "confirmable e i (br_seat_ids b) (br_session_id b) now None d"
          unfolding confirmable_def
          using v True Some \<open>br_status b = PENDING\<close> confirm_without_key_unique [of d i "br_seat_ids b" now] by auto
        then obtain d' m' where a: "attempt_confirm_write e base i (br_seat_ids b) (br_session_id b) now None d m =
            (Inr True, d', m')"
          using attempt_confirm_write_True_iff [OF assms] by (metis prod.collapse fst_conv)
        note attempt_confirm_write_True(2,3) [OF assms a]
        with a True Some \<open>br_status b = PENDING\<close> valid v id show ?thesis
          by (simp add: apply_payment_succeeded_def load_booking_def)
      next
        case False
        have "attempt_confirm_write e base i (br_seat_ids b) (br_session_id b) now None d m =
            (Inr False, base, inc (Oversell_blocked Database) m)"
          using attempt_blocked_by_link [OF assms _ v False] Some by simp
        with False Some \<open>br_status b = PENDING\<close> valid v id show ?thesis
          by (simp add: apply_payment_succeeded_def load_booking_def)
      qed
    qed
  qed
qed

text \<open>
  What \<open>payment.succeeded\<close> does on every branch. A missing booking and one past PENDING are
  rejected without effect, a confirmed one is accepted without effect, a PENDING booking whose
  seats are all still held by its session is confirmed, and otherwise the payment came too late:
  the booking waits for a refund and no seat is touched. A confirmation the partial unique index
  refuses rolls the batch back.
\<close>

theorem payment_succeeded_spec:
  assumes "schema_ok d"
  shows "apply_payment_succeeded e base (Some i) now d m =
    (case find_booking i d of
       None \<Rightarrow> (Inr (handled_as REJECTED []), d, m)
     | Some b \<Rightarrow>
         (case br_status b of
            CONFIRMED \<Rightarrow> (Inr (handled_as APPLIED []), d, m)
          | PENDING \<Rightarrow>
              (if \<not> (distinct (br_seat_ids b) \<and>
                  (\<forall>j \<in> set (br_seat_ids b). \<exists>r. find_seat j d = Some r \<and> held_by_sql (br_session_id b) now r))
               then (Inr (handled_as APPLIED []), require_refund_db i now d, inc Late_payment_refund_required m)
               else if links_insertable e i (br_seat_ids b) d
               then (Inr (handled_as APPLIED (br_seat_ids b)), confirmed_db i (br_seat_ids b) now None d, m)
               else (Inr ((handled_as REJECTED [])\<lparr>hd_rolled_back := True\<rparr>), base, inc (Oversell_blocked Database) m))
          | _ \<Rightarrow> (Inr (handled_as REJECTED []), d, m)))"
  using assms by (rule payment_succeeded_spec_fact)

theorem payment_succeeded_spec_witness:
  "apply_payment_succeeded True sample_db (Some 2) 300 sample_db zero_metrics =
     (Inr (handled_as APPLIED []), require_refund_db 2 300 sample_db, inc Late_payment_refund_required zero_metrics)"
  using payment_succeeded_spec [OF sample_schema, of True sample_db 2 300 zero_metrics]
  by (simp add: booking_at_def held_by_sql_def unexpired_sql_def)

lemma apply_succeeded_rejects:
  "load_booking i d = Some b \<Longrightarrow> br_status b \<in> {REFUNDED, REFUND_REQUIRED, CANCELLED} \<Longrightarrow>
   apply_payment_succeeded e base (Some i) now d m = (Inr (handled_as REJECTED []), d, m)"
  by (auto simp: apply_payment_succeeded_def)

lemma apply_refunded_spec:
  assumes "schema_ok d" "load_booking i d = Some b"
  shows "apply_payment_refunded (Some i) now d m =
    (if br_status b = CONFIRMED then (Inr (handled_as APPLIED (br_seat_ids b)), refund_db b REFUNDED now d, m)
     else (Inr (handled_as REJECTED []), d, m))"
proof -
  have id: "br_id b = i" using load_booking_id [OF assms(2)] .
  have "rowcount (pending_booking i CONFIRMED) (db_bookings d) = 1" if "br_status b = CONFIRMED"
    using assms that by (simp add: pending_booking_rowcount load_booking_def del: One_nat_def)
  then show ?thesis
    using assms(2) id by (simp add: apply_payment_refunded_def refund_booking_aware)
qed



section \<open>The worker\<close>

definition money_back :: "booking_row \<Rightarrow> bool" where
  "money_back b \<longleftrightarrow> br_status b \<in> {REFUNDED, REFUND_REQUIRED, CANCELLED}"

lemma find_booking_outbox [simp]: "find_booking i (outbox_append p t d) = find_booking i d"
  by (simp add: find_booking_def outbox_append_def)

lemma find_booking_finish [simp]: "find_booking i (finish_event ev st at d) = find_booking i d"
  by (simp add: find_booking_def)

lemma apply_succeeded_keeps_money_back:
  assumes "schema_ok d" "find_booking i d = Some b" "money_back b" "find_booking i base = Some b"
    and "apply_payment_succeeded e base bid now d m = (res, d', m')"
  shows "find_booking i d' = Some b"
proof -
  have ref: "find_booking i (require_refund_db j now d) = Some b" for j
    using assms(2,3) by (auto simp: find_booking_def by_key_upd_where pending_booking_def money_back_def)
  have conf: "find_booking i (confirmed_db j ids now None d) = Some b" for j ids
    using assms(2,3) by (auto simp: confirmed_find_booking money_back_def)
  show ?thesis
    using apply_succeeded_frame [OF assms(5)] assms(2,4) ref conf attempt_confirm_write_True(2) [OF assms(1)] by metis
qed

lemma apply_refunded_keeps_money_back:
  assumes "schema_ok d" "find_booking i d = Some b" "money_back b"
    and "apply_payment_refunded bid now d m = (res, d', m')"
  shows "find_booking i d' = Some b"
proof (cases "Option.bind bid (\<lambda>j. load_booking j d)")
  case None
  then show ?thesis using assms(2,4) by (simp add: apply_payment_refunded_def)
next
  case (Some c)
  then obtain j where j: "bid = Some j" "load_booking j d = Some c" by (cases bid) auto
  have "find_booking i (refund_db c REFUNDED now d) = Some b"
    using assms(2,3) by (auto simp: find_booking_def by_key_upd_where pending_booking_def money_back_def)
  with assms(2,4) j apply_refunded_spec [OF assms(1) j(2)] show ?thesis by (auto split: if_splits)
qed

lemma apply_schema:
  assumes "schema_ok d" "schema_ok base"
  shows "apply_payment_succeeded e base bid now d m = (res, d', m') \<Longrightarrow> schema_ok d'"
    and "apply_payment_refunded bid now d m = (res, d', m') \<Longrightarrow> schema_ok d'"
proof -
  show "schema_ok d'" if "apply_payment_succeeded e base bid now d m = (res, d', m')"
  proof -
    have "schema_ok d'" if "attempt_confirm_write e base i ids s now None d m = (Inr True, d', m')" for i ids s
      using attempt_confirm_write_True(1,2) [OF assms(1) that] confirmed_schema [OF assms(1)] by simp
    then show ?thesis
      using apply_succeeded_frame [OF that] assms require_refund_schema by blast
  qed
  show "schema_ok d'" if "apply_payment_refunded bid now d m = (res, d', m')"
    using that assms(1) refund_schema [OF assms(1)]
    by (cases "Option.bind bid (\<lambda>j. load_booking j d)")
      (auto simp: apply_payment_refunded_def split: sum.splits if_splits)
qed

lemma finish_event_schema: "schema_ok d \<Longrightarrow> schema_ok (finish_event ev st at d)"
  by (simp add: schema_ok_iff one_active_booking_per_seat_def) (simp add: finish_event_def map_upd_where)

lemma process_events_money_back:
  assumes "schema_ok d" "schema_ok base" "find_booking i d = Some b" "money_back b" "find_booking i base = Some b"
    and "process_events rr e base now es s d m = (res, d', m')"
  shows "find_booking i d' = Some b"
proof -
  let ?P = "\<lambda>x. schema_ok x \<and> find_booking i x = Some b"
  have "?P d'"
  proof (rule process_events_inv [where P = ?P, OF _ _ assms(6)])
    show "?P d" "?P base" using assms(1-3,5) by simp_all
    show "?P x'" if "?P x" "apply_payment_succeeded e base bid now x n = (y, x', n')" for bid x n y x' n'
      using that apply_succeeded_keeps_money_back [OF _ _ assms(4,5) that(2)] apply_schema(1) [OF _ assms(2) that(2)] by blast
    show "?P x'" if "?P x" "apply_payment_refunded (pe_booking_id ev) now x n = (y, x', n')" for ev x n y x' n'
      using that apply_refunded_keeps_money_back [OF _ _ assms(4) that(2)] apply_schema(2) [OF _ assms(2) that(2)] by blast
    show "?P (finish_event ev st at x)" if "?P x" for ev st at x
      using that finish_event_schema by simp
  qed
  then show ?thesis by simp
qed

text \<open>
  No event resurrects a booking whose money went back. Whatever a worker pass finds in its
  queue, in whatever order, duplicates and late successes included, a booking that is REFUNDED,
  CANCELLED or REFUND_REQUIRED keeps every column.
\<close>

theorem worker_never_resurrects:
  assumes "schema_ok d" "find_booking i d = Some b" "br_status b \<in> {REFUNDED, REFUND_REQUIRED, CANCELLED}"
    and "process_once refresh_raises e locked limit now d r m = (res, d', r', m')"
  shows "find_booking i d' = Some b"
proof -
  have mb: "money_back b" using assms(3) by (simp add: money_back_def)
  obtain x d1 m1 where p: "process_events refresh_raises e d now (queued_events locked limit d)
      \<lparr>bt_applied = 0, bt_rejected = 0, bt_touched = [], bt_expired = False\<rparr> d m = (x, d1, m1)"
    by (metis prod_cases3)
  from process_events_money_back [OF assms(1,1,2) mb assms(2) p] assms(4) p show ?thesis
    by (cases x) (simp_all add: process_once_def Let_def)
qed

definition refunded_sample :: db where
  "refunded_sample = sample_db\<lparr>db_bookings := [booking_at 1 ''C'' REFUNDED [4] ''k1''],
     db_payment_events := [payment_row ''e1'' ''payment.succeeded'' JNull (Some 1) 90]\<rparr>"

lemma refunded_sample_schema: "schema_ok refunded_sample"
  using sample_schema
  by (simp add: refunded_sample_def schema_ok_iff one_active_booking_per_seat_def booking_key_unique_def)
    (simp add: sample_defs)

theorem worker_never_resurrects_witness:
  "find_booking 1 (fst (snd (process_once True True {} 10 100 refunded_sample sample_redis zero_metrics))) =
     Some (booking_at 1 ''C'' REFUNDED [4] ''k1'')"
proof -
  obtain res d' r' m' where p: "process_once True True {} 10 100 refunded_sample sample_redis zero_metrics = (res, d', r', m')"
    by (metis prod_cases4)
  have "find_booking 1 refunded_sample = Some (booking_at 1 ''C'' REFUNDED [4] ''k1'')"
    by (simp add: refunded_sample_def find_booking_def booking_at_def)
  from worker_never_resurrects [OF refunded_sample_schema this _ p] p show ?thesis
    by (simp add: booking_at_def)
qed

text \<open>
  Without refunds in the queue, a pass keeps everything that must hold of the database: the
  schema, the coherence of every seat and the linkage with \<open>booking_seats\<close>, so at most one active
  booking per seat. This also holds when the pass fails or rolls back.
\<close>

theorem worker_keeps_invariants:
  assumes "healthy d" "\<forall>ev \<in> set (queued_events locked limit d). pe_type ev \<noteq> ''payment.refunded''"
    and "process_once refresh_raises e locked limit now d r m = (res, d', r', m')"
  shows "schema_ok d' \<and> seats_coherent d' \<and>
    check_booking_linkage (map seat_to_domain (db_seats d')) (active_seat_ids d') = Inr ()"
proof -
  obtain x d1 m1 where p: "process_events refresh_raises e d now (queued_events locked limit d)
      \<lparr>bt_applied = 0, bt_rejected = 0, bt_touched = [], bt_expired = False\<rparr> d m = (x, d1, m1)"
    by (metis prod_cases3)
  have "d' = d1" using assms(3) p by (cases x) (simp_all add: process_once_def Let_def)
  with process_events_healthy [OF assms(1,1,2) p] show ?thesis by (simp add: healthy_def linkage_ok_def)
qed

theorem worker_keeps_invariants_witness:
  "schema_ok (fst (snd (process_once True True {} 10 100 sample_db sample_redis zero_metrics)))"
proof -
  obtain res d' r' m' where p: "process_once True True {} 10 100 sample_db sample_redis zero_metrics = (res, d', r', m')"
    by (metis prod_cases4)
  have "queued_events {} 10 sample_db = []" by (simp add: queued_events_def sample_db_def)
  with worker_keeps_invariants [OF _ _ p] p show ?thesis by (simp add: healthy_def)
qed

text \<open>
  A refund leaves the seats' rows in \<open>booking_seats\<close> active. After it the seats are AVAILABLE,
  the linkage check fails on that very database, and as long as the row is there no confirmation
  of any booking over such a seat goes through, although sessions can hold it and pay for it.
\<close>

theorem refund_orphans_link:
  assumes "schema_ok d" "find_booking i d = Some b" "br_status b = CONFIRMED"
    and "s \<in> set (br_seat_ids b)" "find_seat s d = Some row" "unbook_matches (br_seat_ids b) i row"
    and "s \<in> active_seat_ids d"
    and "apply_payment_refunded (Some i) now d m = (res, d', m')"
    and "schema_ok later" "s \<in> active_seat_ids later" "s \<in> set ids"
  shows "map_option sr_status (find_seat s d') = Some AVAILABLE \<and> \<not> linkage_ok d' \<and>
    fst (attempt_confirm_write e base j ids session now2 key later m2) \<noteq> Inr True"
proof -
  have load: "load_booking i d = Some b" using assms(2) by (simp add: load_booking_def)
  have d': "d' = refund_db b REFUNDED now d"
    using assms(3,8) apply_refunded_spec [OF assms(1) load] by simp
  have id: "br_id b = i" using load_booking_id [OF load] .
  have seat: "find_seat s d' = Some (unbook_row now row)"
    using assms(5,6) id unfolding d' by (simp add: find_seat_def by_key_upd_where)
  then have mem: "unbook_row now row \<in> set (db_seats d')" "sr_id (unbook_row now row) = s"
    using find_seat_SomeD by blast+
  have "s \<in> active_seat_ids d'" using assms(7) by (simp add: d')
  with mem have "\<not> linkage_ok d'"
    by (auto simp: linkage_ok_iff intro!: bexI [of _ "unbook_row now row"])
  moreover have "fst (attempt_confirm_write e base j ids session now2 key later m2) \<noteq> Inr True"
    by (rule active_link_blocks [OF assms(9-11)])
  ultimately show ?thesis using seat by simp
qed

theorem refund_orphans_link_witness:
  "let d' = fst (snd (apply_payment_refunded (Some 1) 100 sample_db zero_metrics)) in
     \<not> linkage_ok d' \<and> fst (attempt_confirm_write True d' 2 [4] ''D'' 150 None d' zero_metrics) \<noteq> Inr True"
proof -
  obtain res d' m' where p: "apply_payment_refunded (Some 1) 100 sample_db zero_metrics = (res, d', m')"
    by (metis prod_cases3)
  have act: "4 \<in> active_seat_ids sample_db" by (simp add: active_seat_ids_def bs_active_def sample_db_def)
  have "load_booking 1 sample_db = Some (booking_at 1 ''C'' CONFIRMED [4] ''k1'')" by (simp add: load_booking_def)
  then have d': "d' = refund_db (booking_at 1 ''C'' CONFIRMED [4] ''k1'') REFUNDED 100 sample_db"
    using p apply_refunded_spec [OF sample_schema, of 1 _ 100 zero_metrics] by (simp add: booking_at_def)
  have ok: "schema_ok d'" "4 \<in> active_seat_ids d'" using act by (simp_all add: d' refund_schema)
  from refund_orphans_link [OF sample_schema sample_find_booking(1) _ _ sample_find_seat(4) _ act p ok, of "[4]"] p show ?thesis
    by (simp add: booking_at_def unbook_matches_def)
qed

end
