(* ===== verification/Sweeper.thy ===== *)
theory Sweeper
  imports Cache Strategies
begin

text \<open>
  \<^verbatim>\<open>workers/sweeper.py\<close>: holds that ran out are turned back to AVAILABLE in batches, lowest seat
  id first, then their mirror keys are deleted and the change is published, in that order.
\<close>

record sweep_result =
  sw_candidates_found :: nat
  sw_seats_expired :: nat

definition lapsed_hold :: "instant \<Rightarrow> seat_row \<Rightarrow> bool" where
  "lapsed_hold now r \<longleftrightarrow> sr_status r = HELD \<and> expired_sql now r"

definition measure_backlog :: "instant \<Rightarrow> db \<Rightarrow> metrics \<Rightarrow> nat \<times> metrics" where
  "measure_backlog now d m =
     (let n = rowcount (lapsed_hold now) (db_seats d) in (n, set_gauge Sweeper_backlog n m))"

text \<open>\<open>locked\<close> are the seats other transactions hold row locks on.\<close>

definition sweep_rows :: "int set \<Rightarrow> nat \<Rightarrow> instant \<Rightarrow> db \<Rightarrow> seat_row list" where
  "sweep_rows locked batch now d =
     take batch (filter (\<lambda>r. sr_id r \<notin> locked) (sort_key sr_id (filter (lapsed_hold now) (db_seats d))))"

definition expire_ok :: "instant \<Rightarrow> seat_row \<Rightarrow> bool" where
  "expire_ok now r \<longleftrightarrow> (case expire (seat_to_domain r) (Aware now) of Inl _ \<Rightarrow> False | Inr _ \<Rightarrow> True)"

definition expired_row :: "instant \<Rightarrow> seat_row \<Rightarrow> seat_row" where
  "expired_row now r =
     (case expire (seat_to_domain r) (Aware now) of Inl _ \<Rightarrow> r | Inr s \<Rightarrow> seat_apply r s)"

definition sweep_write :: "seat_row list \<Rightarrow> instant \<Rightarrow> db \<Rightarrow> db" where
  "sweep_write rows now d =
     d\<lparr>db_seats := map (\<lambda>cur. case by_key sr_id (sr_id cur) rows of
           None \<Rightarrow> cur
         | Some loaded \<Rightarrow>
             if expire_ok now loaded then orm_flush (db_clock d) loaded (expired_row now loaded) cur else cur)
       (db_seats d)\<rparr>"

fun delete_mirrors :: "seat_row list \<Rightarrow> redis \<Rightarrow> metrics \<Rightarrow> redis \<times> metrics" where
  "delete_mirrors [] r m = (r, m)"
| "delete_mirrors (x # xs) r m = (let (r', m') = delete_hold_mirror (sr_id x) r m in delete_mirrors xs r' m')"

definition sweep_once :: "int set \<Rightarrow> nat \<Rightarrow> instant \<Rightarrow> db \<Rightarrow> redis \<Rightarrow> metrics \<Rightarrow> sweep_result \<times> db \<times> redis \<times> metrics" where
  "sweep_once locked batch now d r m =
     (let (_, m1) = measure_backlog now d m;
          rows = sweep_rows locked batch now d;
          expired_rows = filter (expire_ok now) rows;
          m2 = inc_by Sweeper_illegal_transition (length rows - length expired_rows) m1;
          d' = sweep_write rows now d;
          (r1, m3) = delete_mirrors expired_rows r m2;
          r2 = publish_rows row_update sr_event_id (map (expired_row now) expired_rows) r1
      in (\<lparr>sw_candidates_found = length rows, sw_seats_expired = length expired_rows\<rparr>, d', r2,
          inc_by Sweeper_seats_expired (length expired_rows) m3))"

section \<open>Facts\<close>

definition free_row :: "instant \<Rightarrow> seat_row \<Rightarrow> seat_row" where
  "free_row clock r =
     r\<lparr>sr_status := AVAILABLE, sr_version := sr_version r + 1, sr_held_by := None, sr_expires := None,
       sr_booking_id := None, sr_updated_at := clock\<rparr>"

lemma free_row_frame [simp]:
  "sr_id (free_row c r) = sr_id r" "seat_place (free_row c r) = seat_place r" "sr_status (free_row c r) = AVAILABLE"
  "sr_booking_id (free_row c r) = None" "\<not> lapsed_hold now (free_row c r)" "row_coherent (free_row c r)"
  by (simp_all add: free_row_def seat_place_def lapsed_hold_def row_coherent_def coherent_def)

lemma expire_ok_iff: "expire_ok now r \<longleftrightarrow> lapsed_hold now r"
  by (auto simp: expire_ok_def expire_aware lapsed_hold_def lapsed_to_domain)

lemma expired_row_lapsed: "lapsed_hold now r \<Longrightarrow> expired_row now r = seat_apply r (make_available (seat_to_domain r))"
  by (simp add: expired_row_def expire_aware lapsed_hold_def lapsed_to_domain)

lemma expired_row_sel [simp]:
  "sr_id (expired_row now r) = sr_id r" "sr_section (expired_row now r) = sr_section r"
  "sr_event_id (expired_row now r) = sr_event_id r"
  by (simp_all add: expired_row_def split: sum.split)

lemma orm_flush_expired: "lapsed_hold now r \<Longrightarrow> orm_flush c r (expired_row now r) r = free_row c r"
  by (auto simp: expired_row_lapsed orm_flush_def free_row_def seat_apply_def make_available_def)

lemma sweep_rows_props:
  assumes "schema_ok d"
  shows "set (sweep_rows locked batch now d) \<subseteq> {r \<in> set (db_seats d). lapsed_hold now r \<and> sr_id r \<notin> locked}"
    and "distinct (map sr_id (sweep_rows locked batch now d))"
    and "sorted (map sr_id (sweep_rows locked batch now d))"
    and "length (sweep_rows locked batch now d) =
      min batch (rowcount (\<lambda>r. lapsed_hold now r \<and> sr_id r \<notin> locked) (db_seats d))"
proof -
  let ?F = "filter (\<lambda>r. sr_id r \<notin> locked) (sort_key sr_id (filter (lapsed_hold now) (db_seats d)))"
  show "set (sweep_rows locked batch now d) \<subseteq> {r \<in> set (db_seats d). lapsed_hold now r \<and> sr_id r \<notin> locked}"
    by (auto simp: sweep_rows_def dest!: in_set_takeD)
  have "distinct (map sr_id ?F)"
    using assms by (intro distinct_map_filter) (simp add: schema_ok_iff distinct_map inj_on_def)
  then show "distinct (map sr_id (sweep_rows locked batch now d))"
    by (simp add: sweep_rows_def take_map [symmetric])
  have "sorted (map sr_id ?F)" by (rule sorted_filter) simp
  then show "sorted (map sr_id (sweep_rows locked batch now d))"
    by (simp add: sweep_rows_def take_map [symmetric] sorted_wrt_take)
  show "length (sweep_rows locked batch now d) =
      min batch (rowcount (\<lambda>r. lapsed_hold now r \<and> sr_id r \<notin> locked) (db_seats d))"
    by (simp add: sweep_rows_def filter_sort rowcount_def conj_commute)
qed

text \<open>What a pass writes: exactly its rows become free, all of them.\<close>

lemma sweep_write_free:
  assumes "schema_ok d"
  shows "sweep_write (sweep_rows locked batch now d) now d =
    d\<lparr>db_seats := upd_where (\<lambda>r. sr_id r \<in> set (map sr_id (sweep_rows locked batch now d)))
        (free_row (db_clock d)) (db_seats d)\<rparr>"
proof -
  let ?rows = "sweep_rows locked batch now d"
  note props = sweep_rows_props [OF assms, of locked batch now]
  have dist: "distinct (map sr_id (db_seats d))" using assms by (simp add: schema_ok_iff)
  have "(case by_key sr_id (sr_id cur) ?rows of None \<Rightarrow> cur
      | Some loaded \<Rightarrow> if expire_ok now loaded then orm_flush (db_clock d) loaded (expired_row now loaded) cur else cur) =
      (if sr_id cur \<in> set (map sr_id ?rows) then free_row (db_clock d) cur else cur)"
    if cur: "cur \<in> set (db_seats d)" for cur
  proof (cases "by_key sr_id (sr_id cur) ?rows")
    case None
    then have "sr_id cur \<notin> set (map sr_id ?rows)" by (simp add: by_key_None_iff)
    with None show ?thesis by simp
  next
    case (Some x)
    then have x: "x \<in> set ?rows" "sr_id x = sr_id cur" using by_key_SomeD by fastforce+
    then have "x = cur" using props(1) cur dist by (intro keyed_unique [of sr_id]) auto
    with x props(1) have "lapsed_hold now cur" "sr_id cur \<in> set (map sr_id ?rows)" by auto
    with Some \<open>x = cur\<close> show ?thesis by (simp add: expire_ok_iff orm_flush_expired)
  qed
  then show ?thesis by (simp add: sweep_write_def upd_where_def)
qed

lemma delete_mirrors_up:
  "rd_up r \<Longrightarrow> snd (delete_mirrors xs r m) = m \<and> rd_up (fst (delete_mirrors xs r m)) \<and>
    rd_published (fst (delete_mirrors xs r m)) = rd_published r \<and>
    (\<forall>i. redis_get (hold_key i) (fst (delete_mirrors xs r m)) =
      (if i \<in> sr_id ` set xs then None else redis_get (hold_key i) r))"
  by (induction xs arbitrary: r) (auto simp: delete_hold_mirror_def)

lemma sweep_expired: "schema_ok d \<Longrightarrow> filter (expire_ok now) (sweep_rows locked batch now d) = sweep_rows locked batch now d"
  using sweep_rows_props(1) [of d locked batch now] by (auto simp: filter_id_conv expire_ok_iff)

lemma sweep_once_eq:
  assumes "schema_ok d"
  shows "sweep_once locked batch now d r m =
    (let rows = sweep_rows locked batch now d;
         del = delete_mirrors rows r (inc_by Sweeper_illegal_transition 0
           (set_gauge Sweeper_backlog (rowcount (lapsed_hold now) (db_seats d)) m))
     in (\<lparr>sw_candidates_found = length rows, sw_seats_expired = length rows\<rparr>,
         d\<lparr>db_seats := upd_where (\<lambda>x. sr_id x \<in> set (map sr_id rows)) (free_row (db_clock d)) (db_seats d)\<rparr>,
         publish_rows row_update sr_event_id (map (expired_row now) rows) (fst del),
         inc_by Sweeper_seats_expired (length rows) (snd del)))"
  unfolding sweep_once_def measure_backlog_def Let_def sweep_expired [OF assms] sweep_write_free [OF assms]
  by (simp add: case_prod_beta)

lemma sweep_once_db:
  assumes "schema_ok d"
  shows "fst (snd (sweep_once locked batch now d r m)) =
    d\<lparr>db_seats := upd_where (\<lambda>x. sr_id x \<in> set (map sr_id (sweep_rows locked batch now d)))
        (free_row (db_clock d)) (db_seats d)\<rparr>"
  unfolding sweep_once_eq [OF assms] by (simp add: Let_def)

text \<open>A pass takes \<open>min batch backlog\<close> seats off the backlog.\<close>

lemma sweep_backlog:
  assumes "schema_ok d"
  shows "rowcount (lapsed_hold now) (db_seats (fst (snd (sweep_once {} batch now d r m)))) =
    rowcount (lapsed_hold now) (db_seats d) - batch"
proof -
  let ?rows = "sweep_rows {} batch now d"
  note props = sweep_rows_props [OF assms, of "{}" batch now]
  have dist: "distinct (map sr_id (db_seats d))" using assms by (simp add: schema_ok_iff)
  have "rowcount (\<lambda>r. sr_id r \<in> set (map sr_id ?rows) \<and> lapsed_hold now r) (db_seats d) = length (map sr_id ?rows)"
    using props(1,2) by (subst rowcount_in_full_iff [OF dist]) fastforce
  then show ?thesis
    unfolding sweep_once_db [OF assms] by (simp add: rowcount_upd_where props(4))
qed

lemma sweep_schema: "schema_ok d \<Longrightarrow> schema_ok (fst (snd (sweep_once locked batch now d r m)))"
  by (simp add: sweep_once_db)
    (auto simp: schema_ok_iff map_upd_where one_active_booking_per_seat_def)

interpretation sweeper: batch_job "\<lambda>d. fst (snd (sweep_once {} batch now d r m))"
    "\<lambda>d. rowcount (lapsed_hold now) (db_seats d)" batch schema_ok
  by unfold_locales (rule sweep_backlog sweep_schema, assumption)+

lemma sweep_coherent:
  assumes "schema_ok d" "seats_coherent d"
  shows "seats_coherent (fst (snd (sweep_once locked batch now d r m)))"
  using assms(2) unfolding sweep_once_db [OF assms(1)]
  by (auto simp: seats_coherent_iff set_upd_where)

lemma sweep_linkage:
  assumes "schema_ok d" "linkage_ok d"
  shows "linkage_ok (fst (snd (sweep_once locked batch now d r m)))"
proof -
  note props = sweep_rows_props(1) [OF assms(1), of locked batch now]
  have "sr_id y \<notin> active_seat_ids d" if "y \<in> set (sweep_rows locked batch now d)" for y
  proof -
    from that props have "y \<in> set (db_seats d)" "sr_status y = HELD" by (auto simp: lapsed_hold_def)
    moreover from this assms(2) have "sr_status y = BOOKED \<longleftrightarrow> sr_id y \<in> active_seat_ids d"
      unfolding linkage_ok_iff by blast
    ultimately show ?thesis by simp
  qed
  with assms(2) show ?thesis
    unfolding sweep_once_db [OF assms(1)]
    by (auto simp: linkage_ok_iff set_upd_where split: if_splits)
qed

end
