(* ===== verification/Sweeper_Properties.thy ===== *)
theory Sweeper_Properties
  imports Sweeper Samples
begin

text \<open>
  What the sweeper guarantees, in PostgreSQL and towards Redis.
\<close>

lemma sweep_once_result:
  assumes "schema_ok d" "sweep_once locked batch now d r m = (res, d', r', m')"
  shows "sw_seats_expired res = length (sweep_rows locked batch now d)"
    and "sw_candidates_found res = sw_seats_expired res"
    and "m' Sweeper_illegal_transition = m Sweeper_illegal_transition"
    and "d' = d\<lparr>db_seats := upd_where (\<lambda>x. sr_id x \<in> set (map sr_id (sweep_rows locked batch now d)))
        (free_row (db_clock d)) (db_seats d)\<rparr>"
proof -
  have del: "snd (delete_mirrors xs r0 m0) Sweeper_illegal_transition = m0 Sweeper_illegal_transition" for xs r0 m0
    by (induction xs arbitrary: r0 m0) (auto simp: delete_hold_mirror_def Let_def split: prod.splits)
  note eq = sweep_once_eq [OF assms(1), of locked batch now r m, unfolded assms(2) Let_def prod.inject]
  from eq show "d' = d\<lparr>db_seats := upd_where (\<lambda>x. sr_id x \<in> set (map sr_id (sweep_rows locked batch now d)))
        (free_row (db_clock d)) (db_seats d)\<rparr>" by simp
  from eq show "sw_seats_expired res = length (sweep_rows locked batch now d)"
    "sw_candidates_found res = sw_seats_expired res" by simp_all
  from eq del show "m' Sweeper_illegal_transition = m Sweeper_illegal_transition" by simp
qed

text \<open>
  C31: A sweeper pass frees exactly the lapsed holds it selects: at most \<open>batch\<close> of them, none that
  another transaction has locked, all of them if they fit in the batch. A seat it selects becomes
  AVAILABLE with every hold field cleared and its version one higher; every other seat, held and
  unexpired ones and booked ones in particular, stays as it was; the state machine refuses none.
\<close>

theorem sweep_exact:
  assumes "schema_ok d" "sweep_once locked batch now d r m = (res, d', r', m')" "find_seat i d = Some x"
  shows "(find_seat i d' = Some x \<or>
      lapsed_hold now x \<and> i \<notin> locked \<and> find_seat i d' = Some (free_row (db_clock d) x)) \<and>
    (lapsed_hold now x \<and> i \<notin> locked \<and>
        rowcount (\<lambda>y. lapsed_hold now y \<and> sr_id y \<notin> locked) (db_seats d) \<le> batch \<longrightarrow>
      find_seat i d' = Some (free_row (db_clock d) x)) \<and>
    sw_seats_expired res = min batch (rowcount (\<lambda>y. lapsed_hold now y \<and> sr_id y \<notin> locked) (db_seats d)) \<and>
    m' Sweeper_illegal_transition = m Sweeper_illegal_transition"
proof -
  let ?rows = "sweep_rows locked batch now d"
  note res = sweep_once_result [OF assms(1,2)]
  note props = sweep_rows_props [OF assms(1), of locked batch now]
  have dist: "distinct (map sr_id (db_seats d))" using assms(1) by (simp add: schema_ok_iff)
  have x: "x \<in> set (db_seats d)" "sr_id x = i" using find_seat_SomeD [OF assms(3)] by simp_all
  have mem: "i \<in> set (map sr_id ?rows) \<longleftrightarrow> x \<in> set ?rows"
  proof
    assume "i \<in> set (map sr_id ?rows)"
    then obtain y where y: "y \<in> set ?rows" "sr_id y = sr_id x" using x by auto
    then have "y = x" using props(1) x(1) dist by (intro keyed_unique [of sr_id]) auto
    with y show "x \<in> set ?rows" by simp
  qed (use x in auto)
  have find: "find_seat i d' = Some (if x \<in> set ?rows then free_row (db_clock d) x else x)"
    using assms(3) mem x(2) unfolding res(4) by (simp add: find_seat_def by_key_upd_where)
  have all: "x \<in> set ?rows" if "lapsed_hold now x" "i \<notin> locked"
    "rowcount (\<lambda>y. lapsed_hold now y \<and> sr_id y \<notin> locked) (db_seats d) \<le> batch"
    using that x by (simp add: sweep_rows_def filter_sort rowcount_def conj_commute)
  show ?thesis
    using find all props(1,4) x res(1,3) by auto
qed

lemma sample_sweep:
  "\<exists>res d' r' m'. sweep_once {} 10 100 sample_db sample_redis zero_metrics = (res, d', r', m')"
  by (metis prod_cases4)

theorem sweep_exact_witness:
  "find_seat 3 (fst (snd (sweep_once {} 10 100 sample_db sample_redis zero_metrics))) =
     Some (free_row 100 (seat_at 3 HELD 1 (Some ''B'') (Some 90) None))"
proof -
  obtain res d' r' m' where p: "sweep_once {} 10 100 sample_db sample_redis zero_metrics = (res, d', r', m')"
    using sample_sweep by blast
  have "rowcount (\<lambda>y. lapsed_hold 100 y \<and> sr_id y \<notin> {}) (db_seats sample_db) = 1" "db_clock sample_db = 100"
    by (simp_all add: sample_db_def lapsed_hold_def expired_sql_def)
  with sweep_exact [OF sample_schema p sample_find_seat(3)] p show ?thesis
    by (simp add: lapsed_hold_def expired_sql_def)
qed

text \<open>
  The sweeper never falls behind for good. Without locked rows, \<open>n\<close> lapsed holds are gone
  after \<open>n div batch + 1\<close> passes, and every pass keeps the schema, the coherence of the seats and
  their linkage.
\<close>

theorem sweeper_drains:
  assumes "schema_ok d" "seats_coherent d" "linkage_ok d" "0 < batch"
  shows "list_all (\<lambda>x. \<not> lapsed_hold now x) (db_seats
      (((\<lambda>x. fst (snd (sweep_once {} batch now x r m))) ^^ (rowcount (lapsed_hold now) (db_seats d) div batch + 1)) d)) \<and>
    (let d1 = fst (snd (sweep_once {} batch now d r m)) in schema_ok d1 \<and> seats_coherent d1 \<and> linkage_ok d1)"
  using sweeper.drained_div [of d batch now r m] assms sweep_schema sweep_coherent sweep_linkage
  by (simp add: rowcount_0_iff list_all_iff Let_def)

theorem sweeper_drains_witness:
  "list_all (\<lambda>x. \<not> lapsed_hold 100 x) (db_seats
      (((\<lambda>x. fst (snd (sweep_once {} 1 100 x sample_redis zero_metrics))) ^^
        (rowcount (lapsed_hold 100) (db_seats sample_db) div 1 + 1)) sample_db))"
  using sweeper_drains [OF sample_schema sample_coherent sample_linkage, of 1 100 sample_redis zero_metrics] by simp

text \<open>
  Towards Redis a pass only ever fails on the safe side. The mirror key of a freed seat is
  gone afterwards, provided Redis answers, and no other key changes; when Redis does not answer
  the seats are freed all the same, and each stale key is counted as an error.
\<close>

theorem sweep_mirror:
  assumes "schema_ok d" "sweep_once locked batch now d r m = (res, d', r', m')" "rd_up r"
  shows "redis_get (hold_key i) r' =
      (if i \<in> set (map sr_id (sweep_rows locked batch now d)) then None else redis_get (hold_key i) r) \<and>
    length (rd_published r') = length (rd_published r) + sw_seats_expired res"
proof -
  note eq = sweep_once_eq [OF assms(1), of locked batch now r m, unfolded assms(2) Let_def prod.inject]
  note del = delete_mirrors_up [OF assms(3), of "sweep_rows locked batch now d"]
  show ?thesis using eq del by (simp add: publish_rows_log)
qed

theorem sweep_mirror_witness:
  "redis_get (hold_key 2) (fst (snd (snd (sweep_once {} 10 100 sample_db sample_redis zero_metrics)))) = Some ''A''"
proof -
  obtain res d' r' m' where p: "sweep_once {} 10 100 sample_db sample_redis zero_metrics = (res, d', r', m')"
    using sample_sweep by blast
  have "map sr_id (sweep_rows {} 10 100 sample_db) = [3]"
    by (simp add: sweep_rows_def sample_db_def lapsed_hold_def expired_sql_def)
  with sweep_mirror [OF sample_schema p, of 2] p show ?thesis
    by (simp add: sample_redis_def redis_get_def)
qed

end
