(* ===== verification/Reconciler.thy ===== *)
theory Reconciler
  imports Cache
begin

text \<open>
  \<^verbatim>\<open>workers/reconciler.py\<close>: one pass compares every HELD seat with every mirror key, waits, looks at
  the candidates again and repairs the keys that still differ.

  \<open>(d1, r1)\<close> is what the first look sees, \<open>(d2, r2)\<close> the second; the order in which a set is
  iterated over is the order of its elements in the tables. A Redis that does not answer raises
  out of the scan and the second look, which do not go through the hold cache.
\<close>

datatype divergence = Missing | Unheld | Mismatch

record reconcile_result =
  rc_missing :: nat
  rc_unheld :: nat
  rc_mismatch :: nat
  rc_transient_missing :: nat
  rc_transient_unheld :: nat
  rc_transient_mismatch :: nat

definition no_divergence :: reconcile_result where
  "no_divergence = \<lparr>rc_missing = 0, rc_unheld = 0, rc_mismatch = 0, rc_transient_missing = 0,
     rc_transient_unheld = 0, rc_transient_mismatch = 0\<rparr>"

definition total_divergences :: "reconcile_result \<Rightarrow> nat" where
  "total_divergences s = rc_missing s + rc_unheld s + rc_mismatch s"

definition total_transient :: "reconcile_result \<Rightarrow> nat" where
  "total_transient s = rc_transient_missing s + rc_transient_unheld s + rc_transient_mismatch s"

section \<open>The first look\<close>

definition held_rows :: "db \<Rightarrow> seat_row list" where
  "held_rows d = filter (\<lambda>x. sr_status x = HELD) (db_seats d)"

text \<open>The dict of mirrored seats: a later key with the same seat id overwrites an earlier one.\<close>

definition mirrored :: "redis \<Rightarrow> (int \<times> session_id) list" where
  "mirrored r =
     fold (\<lambda>(k, _) acc. case seat_id_from_key k of
         None \<Rightarrow> acc
       | Some i \<Rightarrow> (case redis_get k r of None \<Rightarrow> acc | Some s \<Rightarrow> AList.update i s acc)) (rd_keys r) []"

definition recently_changed :: "timedelta \<Rightarrow> instant \<Rightarrow> instant option \<Rightarrow> bool" where
  "recently_changed grace now updated_at =
     (case updated_at of None \<Rightarrow> False | Some t \<Rightarrow> 0 \<le> now - t \<and> now - t < grace)"

definition candidates :: "timedelta \<Rightarrow> instant \<Rightarrow> db \<Rightarrow> redis \<Rightarrow> (int \<times> divergence) list" where
  "candidates grace now d r =
     (let held = held_rows d; mirror = mirrored r in
      map (\<lambda>x. (sr_id x, Missing))
        (filter (\<lambda>x. map_of mirror (sr_id x) = None \<and> \<not> recently_changed grace now (Some (sr_updated_at x))) held) @
      map (\<lambda>i. (i, Unheld))
        (filter (\<lambda>i. by_key sr_id i held = None \<and>
            \<not> recently_changed grace now (map_option sr_updated_at (find_seat i d))) (map fst mirror)) @
      map (\<lambda>x. (sr_id x, Mismatch))
        (filter (\<lambda>x. (case map_of mirror (sr_id x) of None \<Rightarrow> False | Some s \<Rightarrow> Some s \<noteq> sr_held_by x) \<and>
            \<not> recently_changed grace now (Some (sr_updated_at x))) held))"

section \<open>The second look\<close>

definition still_divergent :: "divergence \<Rightarrow> seat_row option \<Rightarrow> session_id option \<Rightarrow> bool" where
  "still_divergent kind row mirror =
     (let held = (case row of None \<Rightarrow> False | Some x \<Rightarrow> sr_status x = HELD) in
      case kind of
        Missing \<Rightarrow> held \<and> mirror = None
      | Unheld \<Rightarrow> \<not> held \<and> mirror \<noteq> None
      | Mismatch \<Rightarrow> held \<and> mirror \<noteq> None \<and> mirror \<noteq> Option.bind row sr_held_by)"

fun count_transient :: "divergence \<Rightarrow> reconcile_result \<Rightarrow> reconcile_result" where
  "count_transient Missing s = s\<lparr>rc_transient_missing := rc_transient_missing s + 1\<rparr>"
| "count_transient Unheld s = s\<lparr>rc_transient_unheld := rc_transient_unheld s + 1\<rparr>"
| "count_transient Mismatch s = s\<lparr>rc_transient_mismatch := rc_transient_mismatch s + 1\<rparr>"

fun count_divergence :: "divergence \<Rightarrow> reconcile_result \<Rightarrow> reconcile_result" where
  "count_divergence Missing s = s\<lparr>rc_missing := rc_missing s + 1\<rparr>"
| "count_divergence Unheld s = s\<lparr>rc_unheld := rc_unheld s + 1\<rparr>"
| "count_divergence Mismatch s = s\<lparr>rc_mismatch := rc_mismatch s + 1\<rparr>"

fun kind_label :: "divergence \<Rightarrow> divergence_kind" where
  "kind_label Missing = redis_key_missing_for_held_seat"
| "kind_label Unheld = redis_key_present_for_unheld_seat"
| "kind_label Mismatch = redis_session_mismatch"

datatype reconcile_exn = RedisUnavailable | ReconcilePy exn

text \<open>
  Repairing a key. A HELD row without an expiry raises \<open>TypeError\<close> in the subtraction; one without a
  holder is a value Redis refuses, which the hold cache counts.
\<close>

definition repair :: "divergence \<Rightarrow> int \<Rightarrow> seat_row option \<Rightarrow> instant \<Rightarrow> redis \<Rightarrow> metrics \<Rightarrow>
    reconcile_exn + redis \<times> metrics" where
  "repair kind i row now r m =
     (if kind = Unheld then Inr (delete_hold_mirror i r m)
      else case Option.bind row sr_expires of
          None \<Rightarrow> Inl (ReconcilePy TypeError)
        | Some e \<Rightarrow>
           (case Option.bind row sr_held_by of
              None \<Rightarrow> Inr (r, inc (Hold_cache_errors Cache_set) m)
            | Some s \<Rightarrow> Inr (set_hold_mirror i s e now r m)))"

fun second_look :: "instant \<Rightarrow> db \<Rightarrow> (int \<times> divergence) list \<Rightarrow> reconcile_result \<Rightarrow> redis \<Rightarrow> metrics \<Rightarrow>
    (reconcile_exn + reconcile_result) \<times> redis \<times> metrics" where
  "second_look now d [] s r m = (Inr s, r, m)"
| "second_look now d ((i, kind) # cs) s r m =
     (if \<not> rd_up r then (Inl RedisUnavailable, r, m)
      else if \<not> still_divergent kind (find_seat i d) (redis_get (hold_key i) r)
        then second_look now d cs (count_transient kind s) r (inc (Reconciliation_transient (kind_label kind)) m)
      else (case repair kind i (find_seat i d) now r m of
              Inl x \<Rightarrow> (Inl x, r, m)
            | Inr (r', m') \<Rightarrow>
                second_look now d cs (count_divergence kind s) r'
                  (inc (Reconciliation_divergence (kind_label kind)) m')))"

definition reconcile_once :: "timedelta \<Rightarrow> instant \<Rightarrow> db \<Rightarrow> redis \<Rightarrow> db \<Rightarrow> redis \<Rightarrow> metrics \<Rightarrow>
    (reconcile_exn + reconcile_result) \<times> redis \<times> metrics" where
  "reconcile_once grace now d1 r1 d2 r2 m =
     (if \<not> rd_up r1 then (Inl RedisUnavailable, r2, m)
      else let cs = candidates grace now d1 r1
           in if cs = [] then (Inr no_divergence, r2, m) else second_look now d2 cs no_divergence r2 m)"

section \<open>Facts\<close>

text \<open>A mirror whose keys are the canonical ones, each once.\<close>

definition canonical_keys :: "redis \<Rightarrow> bool" where
  "canonical_keys r \<longleftrightarrow> distinct (map fst (rd_keys r)) \<and> (\<forall>k \<in> fst ` set (rd_keys r). \<exists>i. k = hold_key i)"

lemma mirrored_fold:
  assumes "\<forall>k \<in> fst ` set ks. \<exists>i. k = hold_key i" "distinct (map fst ks)" "hold_key j \<notin> fst ` set ks \<or> map_of acc j = None"
  shows "map_of (fold (\<lambda>(k, _) acc. case seat_id_from_key k of
         None \<Rightarrow> acc
       | Some i \<Rightarrow> (case redis_get k r of None \<Rightarrow> acc | Some s \<Rightarrow> AList.update i s acc)) ks acc) j =
    (if hold_key j \<in> fst ` set ks then redis_get (hold_key j) r else map_of acc j)"
  using assms
proof (induction ks arbitrary: acc)
  case (Cons p ks)
  obtain k e where p: "p = (k, e)" by (cases p)
  with Cons.prems obtain i where k: "k = hold_key i" by auto
  show ?case
  proof (cases "i = j")
    case True
    with Cons.prems p k show ?thesis
      by (cases "redis_get (hold_key j) r") (auto simp: Cons.IH update_conv')
  next
    case False
    with Cons.prems p k show ?thesis
      by (cases "redis_get (hold_key i) r") (auto simp: Cons.IH update_conv')
  qed
qed simp

lemma mirrored_canonical:
  assumes "canonical_keys r"
  shows "map_of (mirrored r) i = redis_get (hold_key i) r"
proof -
  have "map_of (mirrored r) i = (if hold_key i \<in> fst ` set (rd_keys r) then redis_get (hold_key i) r else None)"
    using assms mirrored_fold [of "rd_keys r" i "[]" r] by (simp add: mirrored_def canonical_keys_def)
  moreover have "redis_get (hold_key i) r = None" if "hold_key i \<notin> fst ` set (rd_keys r)"
    using that by (simp add: redis_get_def map_of_eq_None_iff [symmetric])
  ultimately show ?thesis by auto
qed

lemma set_mirror_get:
  "rd_up r \<Longrightarrow> redis_get k (fst (set_hold_mirror i s e now r m)) = (if k = hold_key i then Some s else redis_get k r)"
  "rd_up (fst (set_hold_mirror i s e now r m)) = rd_up r"
  by (auto simp: set_hold_mirror_def Let_def)

lemma delete_mirror_get:
  "rd_up r \<Longrightarrow> redis_get k (fst (delete_hold_mirror i r m)) = (if k = hold_key i then None else redis_get k r)"
  "rd_up (fst (delete_hold_mirror i r m)) = rd_up r"
  by (auto simp: delete_hold_mirror_def)

text \<open>What the key of a seat should hold.\<close>

definition wanted_mirror :: "seat_row option \<Rightarrow> session_id option" where
  "wanted_mirror row = (case row of None \<Rightarrow> None | Some x \<Rightarrow> if sr_status x = HELD then sr_held_by x else None)"

lemma repair_result:
  assumes "rd_up r" "still_divergent kind row (redis_get (hold_key i) r)"
    and "\<forall>x. row = Some x \<longrightarrow> row_coherent x"
  shows "\<exists>r' m'. repair kind i row now r m = Inr (r', m') \<and> rd_up r' \<and>
    redis_get (hold_key i) r' = wanted_mirror row \<and> (\<forall>k. k \<noteq> hold_key i \<longrightarrow> redis_get k r' = redis_get k r)"
proof (cases kind)
  case Unheld
  obtain r' m' where d: "delete_hold_mirror i r m = (r', m')" by fastforce
  have "wanted_mirror row = None"
    using assms(2) Unheld by (auto simp: still_divergent_def wanted_mirror_def Let_def split: option.splits)
  then show ?thesis
    using Unheld d delete_mirror_get(1) [OF assms(1), of _ i m] delete_mirror_get(2) [of i r m] assms(1)
    by (auto simp: repair_def)
next
  case Missing
  then obtain x where x: "row = Some x" "sr_status x = HELD"
    using assms(2) by (auto simp: still_divergent_def Let_def split: option.splits)
  then obtain h e where he: "sr_held_by x = Some h" "sr_expires x = Some e" using assms(3) row_coherent_HELD by blast
  obtain r' m' where s: "set_hold_mirror i h e now r m = (r', m')" by fastforce
  show ?thesis
    using Missing x he s set_mirror_get(1) [OF assms(1), of _ i h e now m] set_mirror_get(2) [of i h e now r m] assms(1)
    by (auto simp: repair_def wanted_mirror_def)
next
  case Mismatch
  then obtain x where x: "row = Some x" "sr_status x = HELD"
    using assms(2) by (auto simp: still_divergent_def Let_def split: option.splits)
  then obtain h e where he: "sr_held_by x = Some h" "sr_expires x = Some e" using assms(3) row_coherent_HELD by blast
  obtain r' m' where s: "set_hold_mirror i h e now r m = (r', m')" by fastforce
  show ?thesis
    using Mismatch x he s set_mirror_get(1) [OF assms(1), of _ i h e now m] set_mirror_get(2) [of i h e now r m] assms(1)
    by (auto simp: repair_def wanted_mirror_def)
qed

lemma second_look_repairs:
  assumes "rd_up r" "\<forall>x \<in> set (db_seats d). row_coherent x" "distinct (map fst cs)"
  shows "\<exists>s' r' m'. second_look now d cs s r m = (Inr s', r', m') \<and> rd_up r' \<and>
    (\<forall>i kind. (i, kind) \<in> set cs \<longrightarrow> redis_get (hold_key i) r' =
       (if still_divergent kind (find_seat i d) (redis_get (hold_key i) r) then wanted_mirror (find_seat i d)
        else redis_get (hold_key i) r)) \<and>
    (\<forall>k. k \<notin> hold_key ` fst ` set cs \<longrightarrow> redis_get k r' = redis_get k r)"
  using assms(1,3)
proof (induction cs arbitrary: s r m)
  case Nil
  then show ?case by simp
next
  case (Cons c cs)
  obtain i kind where c: "c = (i, kind)" by (cases c)
  have coh: "\<forall>x. find_seat i d = Some x \<longrightarrow> row_coherent x" using assms(2) find_seat_SomeD by blast
  have new: "i \<notin> fst ` set cs" "distinct (map fst cs)" using Cons.prems(2) c by auto
  have ne: "j \<noteq> i" if "(j, k) \<in> set cs" for j k using that new(1) by force
  show ?case
  proof (cases "still_divergent kind (find_seat i d) (redis_get (hold_key i) r)")
    case False
    obtain s' r' m' where IH: "second_look now d cs (count_transient kind s) r (inc (Reconciliation_transient (kind_label kind)) m) =
        (Inr s', r', m')" "rd_up r'"
      "\<forall>j kk. (j, kk) \<in> set cs \<longrightarrow> redis_get (hold_key j) r' =
        (if still_divergent kk (find_seat j d) (redis_get (hold_key j) r) then wanted_mirror (find_seat j d)
         else redis_get (hold_key j) r)"
      "\<forall>k. k \<notin> hold_key ` fst ` set cs \<longrightarrow> redis_get k r' = redis_get k r"
      using Cons.IH [OF Cons.prems(1) new(2)] by blast
    have "redis_get (hold_key i) r' = redis_get (hold_key i) r"
      using IH(4) new(1) by (simp add: image_iff)
    with False c Cons.prems(1) IH show ?thesis by auto
  next
    case True
    obtain r1 m1 where r1: "repair kind i (find_seat i d) now r m = Inr (r1, m1)" "rd_up r1"
      "redis_get (hold_key i) r1 = wanted_mirror (find_seat i d)"
      "\<forall>k. k \<noteq> hold_key i \<longrightarrow> redis_get k r1 = redis_get k r"
      using repair_result [OF Cons.prems(1) True coh, of now m] by blast
    obtain s' r' m' where IH: "second_look now d cs (count_divergence kind s) r1 (inc (Reconciliation_divergence (kind_label kind)) m1) =
        (Inr s', r', m')" "rd_up r'"
      "\<forall>j kk. (j, kk) \<in> set cs \<longrightarrow> redis_get (hold_key j) r' =
        (if still_divergent kk (find_seat j d) (redis_get (hold_key j) r1) then wanted_mirror (find_seat j d)
         else redis_get (hold_key j) r1)"
      "\<forall>k. k \<notin> hold_key ` fst ` set cs \<longrightarrow> redis_get k r' = redis_get k r1"
      using Cons.IH [OF r1(2) new(2)] by blast
    have "redis_get (hold_key i) r' = wanted_mirror (find_seat i d)"
      using IH(4) new(1) r1(3) by (simp add: image_iff)
    moreover have "redis_get (hold_key j) r' =
        (if still_divergent kk (find_seat j d) (redis_get (hold_key j) r) then wanted_mirror (find_seat j d)
         else redis_get (hold_key j) r)" if "(j, kk) \<in> set cs" for j kk
      using IH(3) that r1(4) ne [OF that] by simp
    ultimately show ?thesis
      using c True Cons.prems(1) r1 IH(1,2,4) by auto
  qed
qed

end
