(* ===== verification/Cache_Properties.thy ===== *)
theory Cache_Properties
  imports Reconciler Samples
begin

text \<open>
  What the mirror of holds in Redis may and may not say, and what the reconciler makes of it.
\<close>

section \<open>Keys and channels\<close>

text \<open>
  Keys and channel names read back as what they were made of, for every event id, section
  (colons included) and seat id, so no two seats share a key and no two sections a channel.
\<close>

theorem key_and_channel_round_trip:
  "seat_id_from_key (hold_key i) = Some i \<and> parse_channel (channel_name evt sec) = Some (evt, sec) \<and>
   (hold_key i = hold_key j \<longleftrightarrow> i = j) \<and>
   (channel_name evt sec = channel_name evt' sec' \<longleftrightarrow> evt = evt' \<and> sec = sec')"
  by (simp add: parse_channel_name channel_name_inject)

section \<open>Availability\<close>

text \<open>
  The availability check never reports a seat free that PostgreSQL would not give away, with
  Redis up or down; and it agrees with PostgreSQL exactly, unless Redis answers with a stale key
  for a seat that is no longer held, which errs towards "taken".
\<close>

theorem availability_is_safe:
  assumes "check_seat_available i now r d m = (free, m')"
  shows "(free \<longrightarrow> (\<exists>x. find_seat i d = Some x \<and> reclaimable_sql now x)) \<and>
    (rd_up r \<and> redis_get (hold_key i) r \<noteq> None \<or> (free \<longleftrightarrow> (\<exists>x. find_seat i d = Some x \<and> reclaimable_sql now x))) \<and>
    (\<not> rd_up r \<longrightarrow> m' (Hold_cache_errors Cache_get) = m (Hold_cache_errors Cache_get) + 1)"
  using assms
  by (auto simp: check_seat_available_def get_hold_mirror_def reclaimable_sql_def expired_sql_def
      split: if_splits option.splits)

theorem availability_is_safe_witness:
  "check_seat_available 3 100 sample_redis sample_db zero_metrics = (True, zero_metrics) \<and>
   (\<exists>x. find_seat 3 sample_db = Some x \<and> reclaimable_sql 100 x)"
proof -
  have c: "check_seat_available 3 100 sample_redis sample_db zero_metrics = (True, zero_metrics)"
    by (simp add: check_seat_available_def get_hold_mirror_def sample_redis_def redis_get_def)
  with availability_is_safe [OF c] show ?thesis by simp
qed

section \<open>The reconciler\<close>

lemma mirrored_distinct: "distinct (map fst (mirrored r))"
proof -
  have "distinct (map fst (fold (\<lambda>(k, _) acc. case seat_id_from_key k of
         None \<Rightarrow> acc
       | Some i \<Rightarrow> (case redis_get k r of None \<Rightarrow> acc | Some s \<Rightarrow> AList.update i s acc)) ks acc))"
    if "distinct (map fst acc)" for ks acc
    using that
  proof (induction ks arbitrary: acc)
    case (Cons p ks)
    then show ?case by (cases p) (auto simp: distinct_update split: option.split)
  qed simp
  from this [of "[]" "rd_keys r"] show ?thesis by (simp add: mirrored_def)
qed

lemma mirrored_dom: "i \<in> fst ` set (mirrored r) \<longleftrightarrow> map_of (mirrored r) i \<noteq> None"
  by (simp add: map_of_eq_None_iff)

lemma held_by_key:
  "schema_ok d \<Longrightarrow> by_key sr_id i (held_rows d) = (case find_seat i d of None \<Rightarrow> None
    | Some x \<Rightarrow> if sr_status x = HELD then Some x else None)"
proof -
  assume ok: "schema_ok d"
  then have dist: "distinct (map sr_id (db_seats d))" by (simp add: schema_ok_iff)
  have "distinct (map sr_id (held_rows d))" unfolding held_rows_def by (rule distinct_map_filter [OF dist])
  then have held: "by_key sr_id i (held_rows d) = Some x \<longleftrightarrow> find_seat i d = Some x \<and> sr_status x = HELD" for x
    unfolding by_key_iff [OF \<open>distinct (map sr_id (held_rows d))\<close>] find_seat_iff [OF ok]
    by (auto simp: held_rows_def)
  show ?thesis
  proof (cases "by_key sr_id i (held_rows d)")
    case (Some x)
    then show ?thesis using held [of x] by simp
  next
    case None
    then have "\<not> (find_seat i d = Some x \<and> sr_status x = HELD)" for x using held [of x] by simp
    with None show ?thesis by (cases "find_seat i d") simp_all
  qed
qed

lemma candidates_distinct:
  assumes "schema_ok d" "canonical_keys r"
  shows "distinct (map fst (candidates grace now d r))"
proof -
  have "distinct (map sr_id (db_seats d))" using assms(1) by (simp add: schema_ok_iff)
  then have h: "distinct (map sr_id (filter P (held_rows d)))" for P
    unfolding held_rows_def by (intro distinct_map_filter)
  have u: "distinct (filter P (map fst (mirrored r)))" for P
    using mirrored_distinct by (rule distinct_filter)
  show ?thesis
    using h u unfolding candidates_def Let_def
    by (auto simp: comp_def mirrored_dom by_key_None_iff split: option.splits)
qed

text \<open>Which divergence a seat shows, if any.\<close>

lemma candidate_iff:
  assumes "schema_ok d" "canonical_keys r"
  shows "(i, kind) \<in> set (candidates 0 now d r) \<longleftrightarrow> still_divergent kind (find_seat i d) (redis_get (hold_key i) r)"
proof -
  have rc: "\<not> recently_changed 0 now t" for t by (simp add: recently_changed_def split: option.split)
  have held: "(\<exists>x \<in> set (held_rows d). sr_id x = i \<and> P x) \<longleftrightarrow>
      (\<exists>x. find_seat i d = Some x \<and> sr_status x = HELD \<and> P x)" for P
    using assms(1) by (auto simp: held_rows_def find_seat_iff)
  note get = mirrored_canonical [OF assms(2)]
  show ?thesis
  proof (cases kind)
    case Missing
    have "(i, Missing) \<in> set (candidates 0 now d r) \<longleftrightarrow>
        (\<exists>x \<in> set (held_rows d). sr_id x = i \<and> redis_get (hold_key i) r = None)"
      by (auto simp: candidates_def Let_def rc get)
    with Missing show ?thesis unfolding held by (auto simp: still_divergent_def split: option.splits)
  next
    case Unheld
    have "(i, Unheld) \<in> set (candidates 0 now d r) \<longleftrightarrow>
        i \<in> fst ` set (mirrored r) \<and> by_key sr_id i (held_rows d) = None"
      by (auto simp: candidates_def Let_def rc)
    with Unheld show ?thesis
      unfolding mirrored_dom get held_by_key [OF assms(1)] by (auto simp: still_divergent_def split: option.splits)
  next
    case Mismatch
    have "(i, Mismatch) \<in> set (candidates 0 now d r) \<longleftrightarrow> (\<exists>x \<in> set (held_rows d). sr_id x = i \<and>
        (case redis_get (hold_key i) r of None \<Rightarrow> False | Some s \<Rightarrow> Some s \<noteq> sr_held_by x))"
      by (auto simp: candidates_def Let_def rc get)
    with Mismatch show ?thesis unfolding held by (auto simp: still_divergent_def split: option.splits)
  qed
qed

lemma reconcile_undisturbed:
  assumes "schema_ok d" "seats_coherent d" "canonical_keys r" "rd_up r"
    and "reconcile_once 0 now d r d r m = (res, r', m')"
  shows "(\<exists>s. res = Inr s) \<and> rd_up r' \<and> redis_get (hold_key i) r' = wanted_mirror (find_seat i d)"
proof -
  have coh: "\<forall>x \<in> set (db_seats d). row_coherent x" using assms(2) by (simp add: seats_coherent_iff)
  let ?cs = "candidates 0 now d r"
  have agree: "redis_get (hold_key i) r = wanted_mirror (find_seat i d)"
    if "\<forall>kind. \<not> still_divergent kind (find_seat i d) (redis_get (hold_key i) r)"
  proof -
    have "\<not> still_divergent Missing (find_seat i d) (redis_get (hold_key i) r)"
      "\<not> still_divergent Unheld (find_seat i d) (redis_get (hold_key i) r)"
      "\<not> still_divergent Mismatch (find_seat i d) (redis_get (hold_key i) r)"
      using that by blast+
    then show ?thesis
      by (auto simp: still_divergent_def wanted_mirror_def Let_def split: option.splits if_splits)
  qed
  show ?thesis
  proof (cases "?cs = []")
    case True
    then have "\<forall>kind. \<not> still_divergent kind (find_seat i d) (redis_get (hold_key i) r)"
      using candidate_iff [OF assms(1,3)] by (metis empty_iff list.set(1))
    with agree True assms(4,5) show ?thesis by (auto simp: reconcile_once_def)
  next
    case False
    obtain s' r2 m2 where s: "second_look now d ?cs no_divergence r m = (Inr s', r2, m2)" "rd_up r2"
      "\<forall>i kind. (i, kind) \<in> set ?cs \<longrightarrow> redis_get (hold_key i) r2 =
         (if still_divergent kind (find_seat i d) (redis_get (hold_key i) r) then wanted_mirror (find_seat i d)
          else redis_get (hold_key i) r)"
      "\<forall>k. k \<notin> hold_key ` fst ` set ?cs \<longrightarrow> redis_get k r2 = redis_get k r"
      using second_look_repairs [OF assms(4) coh candidates_distinct [OF assms(1,3), of 0 now], of now no_divergence m]
      by blast
    have "r2 = r'" "res = Inr s'" using assms(4,5) s(1) False by (simp_all add: reconcile_once_def)
    moreover have "redis_get (hold_key i) r2 = wanted_mirror (find_seat i d)"
    proof (cases "\<exists>kind. (i, kind) \<in> set ?cs")
      case True
      then show ?thesis using s(3) candidate_iff [OF assms(1,3)] by metis
    next
      case False
      then have "\<forall>kind. \<not> still_divergent kind (find_seat i d) (redis_get (hold_key i) r)"
        using candidate_iff [OF assms(1,3)] by metis
      moreover have "hold_key i \<notin> hold_key ` fst ` set ?cs" using False by force
      ultimately show ?thesis using s(4) agree by simp
    qed
    ultimately show ?thesis using s(2) by simp
  qed
qed

text \<open>
  C20: An undisturbed reconciler pass with no grace period repairs the whole mirror: afterwards the
  key of every seat holds exactly the session that holds the seat in PostgreSQL, and no seat that
  is not HELD has a key.
\<close>

theorem reconciler_repairs:
  assumes "schema_ok d" "seats_coherent d" "canonical_keys r" "rd_up r"
    and "reconcile_once 0 now d r d r m = (res, r', m')"
  shows "(\<exists>s. res = Inr s) \<and>
    (\<forall>i. redis_get (hold_key i) r' =
      (case find_seat i d of None \<Rightarrow> None | Some x \<Rightarrow> if sr_status x = HELD then sr_held_by x else None))"
  using reconcile_undisturbed [OF assms] by (simp add: wanted_mirror_def)

lemma sample_canonical: "canonical_keys sample_redis" "rd_up sample_redis"
  by (auto simp: canonical_keys_def sample_redis_def)

theorem reconciler_repairs_witness:
  "redis_get (hold_key 3) (fst (snd (reconcile_once 0 100 sample_db sample_redis sample_db sample_redis zero_metrics))) =
     Some ''B''"
proof -
  obtain res r' m' where p: "reconcile_once 0 100 sample_db sample_redis sample_db sample_redis zero_metrics = (res, r', m')"
    by (metis prod_cases3)
  from reconciler_repairs [OF sample_schema sample_coherent sample_canonical p] p show ?thesis by simp
qed

text \<open>
  The repair also revives what should stay dead. A hold that has run out but was not swept yet
  has, rightly, no key, and the seat is available; the pass counts it as a divergence, writes the
  key again for at least a second, and the availability check then says "taken".
\<close>

theorem reconciler_revives_lapsed_hold:
  assumes "schema_ok d" "seats_coherent d" "canonical_keys r" "rd_up r"
    and "find_seat i d = Some x" "sr_status x = HELD" "expired_sql now x" "redis_get (hold_key i) r = None"
    and "reconcile_once 0 now d r d r m = (res, r', m')"
  shows "fst (check_seat_available i now r d m0) \<and> \<not> fst (check_seat_available i now r' d m0)"
proof -
  obtain h where "sr_held_by x = Some h"
    using assms(2,5,6) find_seat_SomeD row_coherent_HELD unfolding seats_coherent_iff by metis
  then have "redis_get (hold_key i) r' = Some h \<and> rd_up r'"
    using reconcile_undisturbed [OF assms(1-4,9), of i] assms(5,6) by (simp add: wanted_mirror_def)
  moreover from assms(4,5,6,7,8) have "fst (check_seat_available i now r d m0)"
    by (simp add: check_seat_available_def get_hold_mirror_def expired_sql_def split: option.splits)
  ultimately show ?thesis
    by (simp add: check_seat_available_def get_hold_mirror_def assms(5,6) split: if_splits)
qed

theorem reconciler_revives_lapsed_hold_witness:
  "\<not> fst (check_seat_available 3 100
      (fst (snd (reconcile_once 0 100 sample_db sample_redis sample_db sample_redis zero_metrics))) sample_db zero_metrics)"
proof -
  obtain res r' m' where p: "reconcile_once 0 100 sample_db sample_redis sample_db sample_redis zero_metrics = (res, r', m')"
    by (metis prod_cases3)
  have "redis_get (hold_key 3) sample_redis = None" by (simp add: sample_redis_def redis_get_def)
  from reconciler_revives_lapsed_hold [OF sample_schema sample_coherent sample_canonical sample_find_seat(3) _ _ this p] p
  show ?thesis by (simp add: expired_sql_def)
qed

end
