(* ===== verification/Booking_Properties.thy ===== *)
theory Booking_Properties
  imports Booking_Facts Strategy_Properties Routes
begin

text \<open>
  What creating and confirming a booking promise, what the hold routes leave in the database, in
  Redis and on the wire, and how a confirmed seat is out of everybody's reach.
\<close>

section \<open>Creation\<close>

definition insertable :: "create_params \<Rightarrow> db \<Rightarrow> bool" where
  "insertable p d \<longleftrightarrow>
     length (cp_currency p) \<le> 3 \<and> \<bar>cp_total_amount p\<bar> < 10 ^ 12 \<and> find_event (cp_event_id p) d \<noteq> None \<and>
     (\<forall>b \<in> set (db_bookings d). br_user_id b = cp_user_id p \<longrightarrow> br_idempotency_key b \<noteq> Some (cp_idempotency_key p))"

lemma key_unique_append:
  assumes "schema_ok d"
  shows "booking_key_unique (db_bookings d @ [pending_row p now i]) \<longleftrightarrow>
    (\<forall>b \<in> set (db_bookings d). br_user_id b = cp_user_id p \<longrightarrow> br_idempotency_key b \<noteq> Some (cp_idempotency_key p))"
  using assms by (auto simp: booking_key_unique_def schema_ok_iff pending_row_def image_iff; metis option.distinct(1))

lemma insert_booking_iff:
  assumes "schema_ok d"
  shows "(\<exists>d'. insert_booking (pending_row p now i) d = Inr d') \<longleftrightarrow> insertable p d"
  using key_unique_append [OF assms, of p now i]
  by (auto simp: insert_booking_def insertable_def pending_row_def not_less)

text \<open>
  C21: A booking is created exactly over seats its session holds. The call succeeds if and only if
  every requested seat exists and is held by the session with time left, and the row fits the
  table; then one PENDING row with a fresh id is appended and nothing else changes. Otherwise
  nothing changes at all, and a seat that fails the test is named.
\<close>

theorem create_booking_exact:
  assumes "schema_ok d" "create_booking p now d = (res, d')"
  shows "((\<exists>resp. res = Inr resp) \<longleftrightarrow>
      (\<forall>i \<in> set (cp_seat_ids p). \<exists>r. find_seat i d = Some r \<and> held_by_sql (cp_session_id p) now r) \<and> insertable p d) \<and>
    (case res of
       Inr resp \<Rightarrow> resp = build_booking_response (pending_row p now (db_next_booking d)) \<and>
         find_booking (db_next_booking d) d = None \<and>
         d' = d\<lparr>db_bookings := db_bookings d @ [pending_row p now (db_next_booking d)], db_next_booking := db_next_booking d + 1\<rparr>
     | Inl (BookingCreationFailed bad) \<Rightarrow> d' = d \<and> bad \<noteq> [] \<and>
         set bad = {i \<in> set (cp_seat_ids p). \<not> (\<exists>r. find_seat i d = Some r \<and> held_by_sql (cp_session_id p) now r)}
     | Inl (CreationDbError x) \<Rightarrow> d' = d)"
proof -
  let ?held = "\<lambda>i. \<exists>r. find_seat i d = Some r \<and> held_by_sql (cp_session_id p) now r"
  have set_invalid: "set (invalid_seats p now d) = {i \<in> set (cp_seat_ids p). \<not> ?held i}"
  proof -
    have "(case by_key sr_id i (select_seats (cp_seat_ids p) d) of None \<Rightarrow> True
        | Some row \<Rightarrow> sr_status row \<noteq> HELD \<or> sr_held_by row \<noteq> Some (cp_session_id p) \<or>
            (case sr_expires row of None \<Rightarrow> True | Some e \<Rightarrow> e \<le> now)) \<longleftrightarrow> \<not> ?held i"
      if "i \<in> set (cp_seat_ids p)" for i
      using that by (auto simp: held_by_sql_def unexpired_sql_def split: option.splits)
    then show ?thesis unfolding invalid_seats_def set_filter by blast
  qed
  have fresh: "find_booking (db_next_booking d) d = None"
    using assms(1) by (auto simp: schema_ok_iff find_booking_def by_key_None_iff)
  have eff: "d' = d\<lparr>db_bookings := db_bookings d @ [pending_row p now (db_next_booking d)], db_next_booking := db_next_booking d + 1\<rparr> \<and>
      resp = build_booking_response (pending_row p now (db_next_booking d))" if "res = Inr resp" for resp
    using create_booking_Inr [of p now d resp d'] assms(2) that by simp
  have iff: "(\<exists>resp. res = Inr resp) \<longleftrightarrow> (\<forall>i \<in> set (cp_seat_ids p). ?held i) \<and> insertable p d"
    using assms(2) insert_booking_iff [OF assms(1), of p now "db_next_booking d"]
    unfolding invalid_seats_Nil_iff [symmetric]
    by (auto simp: create_booking_def Let_def split: if_splits sum.splits)
  show ?thesis
  proof (cases res)
    case (Inr resp)
    with iff fresh eff show ?thesis by simp
  next
    case (Inl x)
    then have "d' = d" using create_booking_Inl assms(2) by simp
    moreover have "x = BookingCreationFailed (invalid_seats p now d)" "invalid_seats p now d \<noteq> []"
      if "x = BookingCreationFailed bad" for bad
      using that assms(2) Inl by (auto simp: create_booking_def Let_def split: if_splits sum.splits)
    ultimately show ?thesis using Inl iff set_invalid by (cases x) auto
  qed
qed

section \<open>Confirmation\<close>

lemma confirm_transaction_failed:
  assumes "schema_ok (env d)" "confirm_booking_transaction e env bid session key now d m = (Inl x, d', m')"
  shows "d' = d \<or> d' = env d"
proof (cases "d' = d")
  case neq: False
  then obtain b w where w: "attempt_confirm_write e (env d) bid (br_seat_ids b) session now (Some key) (env d) m = (w, d', m')"
      "load_booking bid d = Some b"
    using confirm_transaction_cases [OF assms(2)] by blast
  show ?thesis
  proof (cases "w = Inr True")
    case True
    note t = attempt_confirm_write_True [OF assms(1) w(1) [unfolded True]]
    then obtain c where "find_booking bid (env d) = Some c" by (auto simp: confirmable_def)
    then have "load_booking bid d' \<noteq> None"
      unfolding t(2) load_booking_def by (simp add: find_booking_def by_key_upd_where)
    with assms(2) w True neq have False
      unfolding confirm_booking_transaction_def Let_def by (auto split: option.splits if_splits sum.splits)
    then show ?thesis ..
  qed (use attempt_confirm_write_fails [OF w(1)] in simp)
qed simp

lemma confirm_transaction_succeeded:
  assumes "schema_ok (env d)" "confirm_booking_transaction e env bid session key now d m = (Inr resp, d', m')"
  shows "\<exists>b. find_booking bid d = Some b \<and> d' = confirmed_db bid (br_seat_ids b) now (Some key) (env d) \<and>
    confirmable e bid (br_seat_ids b) session now (Some key) (env d) \<and>
    set (br_seat_ids b) \<inter> active_seat_ids (env d) = {} \<and> resp_id resp = bid \<and> resp_status resp = CONFIRMED"
proof -
  from assms(2) obtain b d2 m2 c where b: "load_booking bid d = Some b"
      and w: "attempt_confirm_write e (env d) bid (br_seat_ids b) session now (Some key) (env d) m = (Inr True, d', m')"
      and c: "load_booking bid d' = Some c" "resp = build_booking_response c"
    unfolding confirm_booking_transaction_def Let_def
    by (auto split: option.splits if_splits sum.splits prod.splits bool.splits)
  note t = attempt_confirm_write_True [OF assms(1) w]
  have "set (br_seat_ids b) \<inter> active_seat_ids (env d) = {}"
    using t(1) links_insertable_fresh [of e bid "br_seat_ids b" "env d"] by (auto simp: confirmable_def)
  moreover have "br_id c = bid \<and> br_status c = CONFIRMED"
  proof -
    obtain c0 where c0: "find_booking bid (env d) = Some c0" "br_status c0 = PENDING"
      using t(1) by (auto simp: confirmable_def)
    then have "c = confirm_booking_row (Some key) now c0"
      using c(1) find_booking_SomeD [OF c0(1)] unfolding t(2) load_booking_def confirmed_find_booking by simp
    with find_booking_SomeD [OF c0(1)] show ?thesis by simp
  qed
  ultimately show ?thesis using b c t by (auto simp: load_booking_def build_booking_response_def)
qed

text \<open>
  C9: Confirming is all or nothing, decided on what the write finds. Whatever other sessions
  committed since the booking was read, a success means that on their database every seat of the
  booking was held by the session with time left, had no active booking, the booking was PENDING;
  and the result is that database with exactly these seats BOOKED, one active link per seat, the
  booking CONFIRMED and one outbox entry. A failure leaves what the others committed.
\<close>

theorem confirm_all_or_nothing:
  assumes "schema_ok (env d)" "confirm_booking_transaction e env bid session key now d m = (res, d', m')"
  shows "case res of
      Inr resp \<Rightarrow> (\<exists>b. find_booking bid d = Some b \<and> d' = confirmed_db bid (br_seat_ids b) now (Some key) (env d) \<and>
        confirmable e bid (br_seat_ids b) session now (Some key) (env d) \<and>
        set (br_seat_ids b) \<inter> active_seat_ids (env d) = {} \<and>
        resp_id resp = bid \<and> resp_status resp = CONFIRMED)
    | Inl x \<Rightarrow> d' = d \<or> d' = env d"
  using assms confirm_transaction_failed [of env d e bid session key now m _ d' m']
    confirm_transaction_succeeded [of env d e bid session key now m _ d' m']
  by (cases res) simp_all

text \<open>What a success says about every seat of the booking.\<close>

lemma confirmed_seat:
  assumes "schema_ok d" "confirm_booking_transaction e id bid session key now d m = (Inr resp, d', m')"
    and "i \<in> set (resp_seat_ids resp)"
  shows "\<exists>r. find_seat i d' = Some r \<and> sr_status r = BOOKED \<and> sr_booking_id r = Some bid"
proof -
  from confirm_all_or_nothing [of id d, OF _ assms(2)] assms(1)
  obtain b where b: "find_booking bid d = Some b" "d' = confirmed_db bid (br_seat_ids b) now (Some key) d"
      "confirmable e bid (br_seat_ids b) session now (Some key) d" by auto
  have "load_booking bid d' = Some c \<Longrightarrow> br_seat_ids c = br_seat_ids b" for c
    using b(1) unfolding b(2) load_booking_def by (auto simp: find_booking_def by_key_upd_where split: if_splits)
  moreover obtain c where "load_booking bid d' = Some c" "resp = build_booking_response c"
    using assms(2) unfolding confirm_booking_transaction_def Let_def
    by (auto split: option.splits if_splits sum.splits prod.splits bool.splits)
  ultimately have "i \<in> set (br_seat_ids b)" using assms(3) by (simp add: build_booking_response_def)
  with b(3) show ?thesis unfolding b(2) confirmable_find_seat by (auto simp: confirmable_def)
qed

lemma confirmable_select:
  assumes "schema_ok d" "confirmable e bid ids session now key d"
  shows "length (select_seats ids d) = length ids" "\<forall>r \<in> set (select_seats ids d). held_by_sql session now r"
proof -
  have dist: "distinct (map sr_id (db_seats d))" using assms(1) by (simp add: schema_ok_iff)
  have held: "\<forall>i \<in> set ids. \<exists>r. find_seat i d = Some r \<and> held_by_sql session now r" and "distinct ids"
    using assms(2) by (simp_all add: confirmable_def links_insertable_def)
  then have "rowcount (\<lambda>r. sr_id r \<in> set ids \<and> True) (db_seats d) = length ids"
    using rowcount_in_full_iff [OF dist, of ids "\<lambda>_. True"] by (auto simp: find_seat_iff [OF assms(1)])
  then show "length (select_seats ids d) = length ids" by (simp add: select_seats_def rowcount_def)
  show "\<forall>r \<in> set (select_seats ids d). held_by_sql session now r"
    using held by (fastforce simp: select_seats_def find_seat_iff [OF assms(1)] dest: keyed_unique [OF dist])
qed

lemma confirm_succeeds:
  assumes "schema_ok d" "seats_coherent d" "find_booking bid d = Some b"
    and "confirmable e bid (br_seat_ids b) session now (Some key) d"
  shows "confirm_booking_transaction e id bid session key now d m =
    (Inr (build_booking_response (confirm_booking_row (Some key) now b)),
     confirmed_db bid (br_seat_ids b) now (Some key) d, m)"
proof -
  let ?ids = "br_seat_ids b" and ?d' = "confirmed_db bid (br_seat_ids b) now (Some key) d"
  have pend: "br_status b = PENDING" using assms(3,4) by (auto simp: confirmable_def)
  have "\<forall>r \<in> set (select_seats ?ids d). row_coherent r"
    using assms(2) by (auto simp: seats_coherent_iff select_seats_def)
  then have checks: "confirm_checks (select_seats ?ids d) b session now = Inr ()"
    using confirmable_select(2) [OF assms(1,4)] pend by (simp add: confirm_checks_iff)
  have "fst (attempt_confirm_write e d bid ?ids session now (Some key) d m) = Inr True"
    using assms(4) by (simp add: attempt_confirm_write_True_iff [OF assms(1)])
  then have wrote: "attempt_confirm_write e d bid ?ids session now (Some key) d m = (Inr True, ?d', m)"
    using attempt_confirm_write_True [OF assms(1)] by (metis prod.collapse)
  have "load_booking bid ?d' = Some (confirm_booking_row (Some key) now b)"
    using assms(3) pend find_booking_SomeD [OF assms(3)]
    by (simp add: load_booking_def find_booking_def by_key_upd_where)
  then show ?thesis
    using checks wrote confirmable_select(1) [OF assms(1,4)] assms(3)
    by (simp add: confirm_booking_transaction_def load_booking_def)
qed

text \<open>
  A seat is booked once. After a confirmation, no confirmation of any booking over one of its
  seats succeeds, in whatever session and at whatever time, and no acquisition of one of them by
  any strategy; neither changes anything.
\<close>

theorem seat_booked_once:
  assumes "schema_ok d" "seats_coherent d"
    and "confirm_booking_transaction e id bid session key now d m = (Inr resp, d', m')" "i \<in> set (resp_seat_ids resp)"
    and "confirm_booking_transaction e2 id bid2 session2 key2 now2 d' m2 = (res2, d2, m3)"
    and "find_booking bid2 d' = Some b2" "i \<in> set (br_seat_ids b2)"
    and "acquire s (undisturbed ae) ids h dur now3 d' m4 = (res3, d3, m5)" "i \<in> set ids"
  shows "(\<exists>x. res2 = Inl x) \<and> d2 = d' \<and> \<not> (\<exists>r. res3 = Inr r \<and> ar_success r) \<and> d3 = d'"
proof -
  obtain r where r: "find_seat i d' = Some r" "sr_status r = BOOKED"
    using confirmed_seat [OF assms(1,3,4)] by blast
  obtain b :: booking_row where b: "d' = confirmed_db bid (br_seat_ids b) now (Some key) d"
      "confirmable e bid (br_seat_ids b) session now (Some key) d"
    using confirm_all_or_nothing [of id d, OF _ assms(3)] assms(1) by auto
  have ok: "schema_ok d'" "seats_coherent d'"
    using confirmed_schema [OF assms(1) b(2)] confirmed_coherent [OF assms(2)] b(1) by simp_all
  have "\<not> confirmable e2 bid2 (br_seat_ids b2) session2 now2 (Some key2) d'"
  proof
    assume "confirmable e2 bid2 (br_seat_ids b2) session2 now2 (Some key2) d'"
    with assms(7) obtain x where "find_seat i d' = Some x" "held_by_sql session2 now2 x"
      unfolding confirmable_def by blast
    with r show False by (simp add: held_by_sql_def)
  qed
  then have no: "\<exists>x. res2 = Inl x"
    using confirm_all_or_nothing [of id d', OF _ assms(5)] ok(1) assms(6) by (cases res2) auto
  moreover have "d2 = d'" using confirm_all_or_nothing [of id d', OF _ assms(5)] ok(1) no by auto
  moreover have lost: "\<not> (\<exists>r. res3 = Inr r \<and> ar_success r)"
  proof
    assume "\<exists>r. res3 = Inr r \<and> ar_success r"
    then obtain ar where "res3 = Inr ar" "ar_success ar" by blast
    from configured.won [OF ok assms(8) [unfolded this(1)] this(2)] assms(9)
    obtain x where "find_seat i d' = Some x" "reclaimable_sql now3 x" by blast
    with r show False by (simp add: reclaimable_sql_def)
  qed
  moreover have "d3 = d'" using configured.not_won [OF assms(8)] lost by blast
  ultimately show ?thesis by blast
qed

text \<open>
  Whose booking it is does not matter. The checks compare the seats' holder with the session of
  the request, never the booking's own session: a session that holds the seats of a PENDING booking
  made by another session confirms that booking, and its seats become BOOKED under it.
\<close>

theorem confirm_ignores_the_booking_session:
  assumes "schema_ok d" "seats_coherent d" "find_booking bid d = Some b" "br_session_id b \<noteq> session"
    and "confirmable e bid (br_seat_ids b) session now (Some key) d"
  shows "\<exists>resp d'. confirm_booking_transaction e id bid session key now d m = (Inr resp, d', m) \<and>
    resp_status resp = CONFIRMED \<and> resp_session_id resp = br_session_id b \<and> resp_session_id resp \<noteq> session"
  using confirm_succeeds [OF assms(1-3,5)] assms(4) by (simp add: build_booking_response_def)

section \<open>Hold routes\<close>

lemma mirror_all_facts:
  assumes "rd_up r" "mirror_all is session e now r m = (r', m')"
  shows "rd_up r' \<and> rd_published r' = rd_published r \<and>
    redis_get (hold_key i) r' = (if i \<in> set is then Some session else redis_get (hold_key i) r)"
  using assms
proof (induction "is" arbitrary: r m)
  case (Cons j js)
  obtain r1 m1 where s: "set_hold_mirror j session e now r m = (r1, m1)" by fastforce
  then have "rd_up r1" "rd_published r1 = rd_published r"
      "redis_get (hold_key i) r1 = (if i = j then Some session else redis_get (hold_key i) r)"
    using Cons.prems(1) by (auto simp: set_hold_mirror_def Let_def)
  with Cons s show ?case by (auto simp: Let_def)
qed simp

text \<open>What a hold that was committed, mirrored and published leaves of one of its seats.\<close>

lemma hold_shown:
  assumes "d1 = held_db ids aud session until t now d"
    and "\<forall>i \<in> set ids. \<exists>row. find_seat i d = Some row \<and> reclaimable_sql now row"
    and "set acquired = set ids"
    and mirrored: "\<And>i. rd_up r1 \<and> rd_published r1 = rd_published r \<and>
      redis_get (hold_key i) r1 = (if i \<in> set acquired then Some session else redis_get (hold_key i) r)"
    and i: "i \<in> set ids"
  shows "\<exists>row. find_seat i d1 = Some row \<and> sr_status row = HELD \<and> sr_held_by row = Some session \<and>
    sr_expires row = Some until \<and>
    (let r' = publish_rows (held_update until) (\<lambda>_. evt) (select_seats acquired d1) r1
     in redis_get (hold_key i) r' = Some session \<and>
       (channel_name evt (sr_section row), \<lparr>su_seat_id = i, su_status = HELD, su_expires = Some until,
          su_version = sr_version row\<rparr>) \<in> set (rd_published r'))"
proof -
  obtain old where old: "find_seat i d = Some old" using assms(2) i by blast
  let ?row = "hold_row session until t old"
  have f: "find_seat i d1 = Some ?row" using old i by (simp add: assms(1) held_db_find_seat)
  have "?row \<in> set (select_seats acquired d1)"
    using find_seat_SomeD [OF f] i assms(3) by (simp add: select_seats_def)
  then have "(channel_name evt (sr_section ?row), held_update until ?row) \<in>
      (\<lambda>x. (channel_name evt (sr_section x), held_update until x)) ` set (select_seats acquired d1)"
    by (rule rev_image_eqI) simp
  moreover have "sr_id ?row = i" using find_seat_SomeD [OF f] by simp
  ultimately show ?thesis
    using f i assms(3) mirrored [of i] by (simp add: publish_rows_log held_update_def Let_def)
qed


text \<open>
  Extending a hold prolongs a hold that is still alive, and only its owner can. The answer is
  200 if and only if the seat is HELD by the session with time left; then the row's expiry is the
  new instant and its version one higher, the mirror follows if Redis answers, and no other seat
  changes. Otherwise nothing changes.
\<close>

theorem extend_hold_exact:
  assumes "schema_ok d" "extend_hold cfg i session now d r m = (reply, d', r', m')"
  shows "(hr_status reply = 200 \<longleftrightarrow> (\<exists>row. find_seat i d = Some row \<and> held_by_sql session now row)) \<and>
    (hr_status reply = 200 \<longrightarrow>
      (\<forall>j. find_seat j d' = (if j = i then map_option (extend_row (now + cfg_hold_duration cfg) now) (find_seat i d) else find_seat j d)) \<and>
      (rd_up r \<longrightarrow> redis_get (hold_key i) r' = Some session)) \<and>
    (hr_status reply \<noteq> 200 \<longrightarrow> hr_status reply = 409 \<and> d' = d \<and> r' = r)"
proof (cases "filter (extend_matches i session now) (db_seats d)")
  case Nil
  then have "\<not> (\<exists>row. find_seat i d = Some row \<and> held_by_sql session now row)"
    by (auto simp: filter_empty_conv extend_matches_def dest: find_seat_SomeD)
  with assms(2) Nil show ?thesis by (auto simp: extend_hold_def extend_hold_at_def Let_def)
next
  case (Cons row rows)
  then have "row \<in> set (filter (extend_matches i session now) (db_seats d))" by simp
  then have row: "find_seat i d = Some row" "held_by_sql session now row" "sr_id row = i"
    using find_seat_iff [OF assms(1)] by (auto simp: extend_matches_def)
  let ?exp = "now + cfg_hold_duration cfg"
  have d': "d' = d\<lparr>db_seats := upd_where (extend_matches i session now) (extend_row ?exp now) (db_seats d)\<rparr>"
      "hr_status reply = 200"
    using assms(2) Cons by (auto simp: extend_hold_def extend_hold_at_def Let_def split_beta)
  have redis: "rd_up r \<longrightarrow> redis_get (hold_key i) r' = Some session"
    using assms(2) Cons by (auto simp: extend_hold_def extend_hold_at_def Let_def split_beta set_hold_mirror_def)
  have "find_seat j d' = (if j = i then map_option (extend_row ?exp now) (find_seat i d) else find_seat j d)" for j
  proof -
    have "find_seat j d' = map_option (\<lambda>x. if extend_matches i session now x then extend_row ?exp now x else x) (find_seat j d)"
      unfolding d'(1) find_seat_def by (simp add: by_key_upd_where extend_row_def)
    moreover have "x = row" if "find_seat i d = Some x" for x using that row(1) by simp
    ultimately show ?thesis
      using row by (cases "find_seat j d") (auto simp: extend_matches_def dest: find_seat_SomeD)
  qed
  with d'(2) redis row show ?thesis by auto
qed

section \<open>Instances\<close>

theorem create_booking_exact_witness:
  "\<exists>resp d'. create_booking (create_request_params
      \<lparr>cq_event_id = 1, cq_seat_ids = [2], cq_session_id = ''A'', cq_user_id = 9, cq_total_amount = 1000,
       cq_amount_text = ''10.00'', cq_currency = ''usd''\<rparr> ''k9'') 100 sample_db = (Inr resp, d')"
proof -
  let ?p = "create_request_params \<lparr>cq_event_id = 1, cq_seat_ids = [2], cq_session_id = ''A'', cq_user_id = 9,
    cq_total_amount = 1000, cq_amount_text = ''10.00'', cq_currency = ''usd''\<rparr> ''k9''"
  obtain res d' where c: "create_booking ?p 100 sample_db = (res, d')" by fastforce
  have "insertable ?p sample_db"
    by (simp add: insertable_def create_request_params_def find_event_def sample_defs)
  moreover have "\<forall>i \<in> set (cp_seat_ids ?p). \<exists>r. find_seat i sample_db = Some r \<and> held_by_sql (cp_session_id ?p) 100 r"
    by (simp add: create_request_params_def held_by_sql_def unexpired_sql_def)
  ultimately have "\<exists>resp. res = Inr resp" using create_booking_exact [OF sample_schema c] by blast
  with c show ?thesis by blast
qed

lemma sample_confirmable: "confirmable True 2 [2] ''A'' 100 (Some ''c2'') sample_db"
  by (simp add: confirmable_def held_by_sql_def unexpired_sql_def links_insertable_def bs_pk_def bs_active_def
      booking_key_unique_def) (simp add: sample_defs confirm_booking_row_def)

lemma sample_confirm:
  "confirm_booking_transaction True id 2 ''A'' ''c2'' 100 sample_db zero_metrics =
    (Inr (build_booking_response (confirm_booking_row (Some ''c2'') 100 (booking_at 2 ''A'' PENDING [2] ''k2''))),
     confirmed_db 2 [2] 100 (Some ''c2'') sample_db, zero_metrics)"
  using confirm_succeeds [of sample_db 2 "booking_at 2 ''A'' PENDING [2] ''k2''" True "''A''" 100 "''c2''" zero_metrics]
    sample_confirmable by (simp add: booking_at_def)

theorem confirm_all_or_nothing_witness:
  "\<exists>b. find_booking 2 sample_db = Some b \<and> confirmable True 2 (br_seat_ids b) ''A'' 100 (Some ''c2'') sample_db"
  using confirm_all_or_nothing [of id sample_db, OF _ sample_confirm] by auto

theorem seat_booked_once_witness:
  "\<not> (\<exists>r. fst (acquire PessimisticStrategy quiet_env [2] ''D'' 60 500
      (confirmed_db 2 [2] 100 (Some ''c2'') sample_db) zero_metrics) = Inr r \<and> ar_success r)"
proof -
  let ?d = "confirmed_db 2 [2] 100 (Some ''c2'') sample_db"
  obtain res3 d3 m5 where a: "acquire PessimisticStrategy (undisturbed quiet_env) [2] ''D'' 60 500 ?d zero_metrics = (res3, d3, m5)"
    by (metis prod_cases3)
  obtain res2 d2 m3 where c: "confirm_booking_transaction True id 2 ''A'' ''x'' 150 ?d zero_metrics = (res2, d2, m3)"
    by (metis prod_cases3)
  have b: "find_booking 2 ?d = Some (confirm_booking_row (Some ''c2'') 100 (booking_at 2 ''A'' PENDING [2] ''k2''))"
    by (simp add: confirmed_find_booking) (simp add: booking_at_def)
  show ?thesis
    using seat_booked_once [OF sample_schema sample_coherent sample_confirm _ c b _ a, of 2] a
    by (simp add: build_booking_response_def) (simp add: booking_at_def)
qed

definition handed_over :: db where
  "handed_over = sample_db\<lparr>db_bookings := [booking_at 2 ''Z'' PENDING [2] ''k2'']\<rparr>"

theorem confirm_ignores_the_booking_session_witness:
  "\<exists>resp d'. confirm_booking_transaction True id 2 ''A'' ''c2'' 100 handed_over zero_metrics = (Inr resp, d', zero_metrics) \<and>
     resp_session_id resp \<noteq> ''A''"
proof -
  have s: "schema_ok handed_over"
    by (simp add: handed_over_def schema_ok_iff sample_defs booking_key_unique_def one_active_booking_per_seat_def
        bs_active_def bs_pk_def seat_place_def)
  have co: "seats_coherent handed_over" using sample_coherent by (simp add: handed_over_def seats_coherent_def)
  have b: "find_booking 2 handed_over = Some (booking_at 2 ''Z'' PENDING [2] ''k2'')"
    by (simp add: find_booking_def handed_over_def booking_at_def)
  have "confirmable True 2 [2] ''A'' 100 (Some ''c2'') handed_over"
    unfolding confirmable_def b by (simp add: handed_over_def find_seat_def links_insertable_def booking_key_unique_def
        held_by_sql_def unexpired_sql_def bs_pk_def bs_active_def) (simp add: sample_defs held_by_sql_def unexpired_sql_def)
  then show ?thesis
    using confirm_ignores_the_booking_session [OF s co b, of "''A''" True 100 "''c2''" zero_metrics]
    by (auto simp: booking_at_def)
qed


theorem extend_hold_exact_witness:
  "hr_status (fst (extend_hold default_settings 2 ''A'' 100 sample_db sample_redis zero_metrics)) = 200"
proof -
  obtain reply d' r' m' where x: "extend_hold default_settings 2 ''A'' 100 sample_db sample_redis zero_metrics = (reply, d', r', m')"
    by (metis prod_cases4)
  have "\<exists>row. find_seat 2 sample_db = Some row \<and> held_by_sql ''A'' 100 row"
    by (simp add: held_by_sql_def unexpired_sql_def)
  then show ?thesis using extend_hold_exact [OF sample_schema x] x by simp
qed

end
