(* ===== verification/Coalescer.thy ===== *)
theory Coalescer
  imports Models "HOL-Library.AList"
begin

text \<open>
  \<^verbatim>\<open>app/realtime/coalescer.py\<close>: the buffer that turns the raw seat changes of one section into at
  most one diff per window, and the reader of those diffs, \<^verbatim>\<open>web/src/realtime/client.ts\<close>, which
  drops every entry whose version is not above the one it holds. Python's dicts keep the order in
  which their keys were first inserted: they are association lists that \<open>AList.update\<close> writes.
\<close>

section \<open>The coalescer\<close>

record seat_state =
  ss_status :: seat_status
  ss_expires :: "instant option"
  ss_version :: int

definition rendered_equal :: "seat_state \<Rightarrow> seat_state \<Rightarrow> bool" where
  "rendered_equal s other \<longleftrightarrow> ss_status s = ss_status other \<and> ss_expires s = ss_expires other"

record seat_diff =
  sd_seat_id :: int
  sd_status :: seat_status
  sd_expires :: "instant option"
  sd_version :: int

record section_coalescer =
  last_state :: "(int \<times> seat_state) list"
  pending :: "(int \<times> seat_state) list"
  raw_event_count :: nat

definition new_coalescer :: section_coalescer where
  "new_coalescer = \<lparr>last_state = [], pending = [], raw_event_count = 0\<rparr>"

definition record_state :: "int \<Rightarrow> seat_state \<Rightarrow> section_coalescer \<Rightarrow> section_coalescer" where
  "record_state i s c = c\<lparr>pending := AList.update i s (pending c), raw_event_count := raw_event_count c + 1\<rparr>"

definition to_diff :: "int \<Rightarrow> seat_state \<Rightarrow> seat_diff" where
  "to_diff i s = \<lparr>sd_seat_id = i, sd_status = ss_status s, sd_expires = ss_expires s, sd_version = ss_version s\<rparr>"

definition differs :: "seat_state option \<Rightarrow> seat_state \<Rightarrow> bool" where
  "differs previous s \<longleftrightarrow> (case previous of None \<Rightarrow> True | Some p \<Rightarrow> \<not> rendered_equal p s)"

text \<open>The loop of \<open>flush\<close>: the diffs it appends and the new \<open>_last_state\<close>.\<close>

fun flush_loop :: "(int \<times> seat_state) list \<Rightarrow> (int \<times> seat_state) list \<Rightarrow> seat_diff list \<times> (int \<times> seat_state) list" where
  "flush_loop [] seen = ([], seen)"
| "flush_loop ((i, s) # ps) seen =
     (let (ds, seen') = flush_loop ps (AList.update i s seen)
      in (if differs (map_of seen i) s then to_diff i s # ds else ds, seen'))"

definition flush :: "section_coalescer \<Rightarrow> (seat_diff list \<times> nat) \<times> section_coalescer" where
  "flush c =
     (let (diffs, seen) = flush_loop (pending c) (last_state c)
      in ((diffs, raw_event_count c), \<lparr>last_state = seen, pending = [], raw_event_count = 0\<rparr>))"

definition is_dirty :: "section_coalescer \<Rightarrow> bool" where
  "is_dirty c \<longleftrightarrow> pending c \<noteq> []"

section \<open>The client\<close>

text \<open>What a client renders of each seat of its snapshot; a diff for another seat is ignored.\<close>

type_synonym seat_map = "int \<Rightarrow> seat_state option"

definition apply_seat_diff :: "seat_diff \<Rightarrow> seat_map \<Rightarrow> seat_map" where
  "apply_seat_diff d seats =
     (case seats (sd_seat_id d) of
        None \<Rightarrow> seats
      | Some existing \<Rightarrow>
          if sd_version d \<le> ss_version existing then seats
          else seats(sd_seat_id d \<mapsto> existing\<lparr>ss_status := sd_status d, ss_expires := sd_expires d, ss_version := sd_version d\<rparr>))"

definition apply_seat_diffs :: "seat_diff list \<Rightarrow> seat_map \<Rightarrow> seat_map" where
  "apply_seat_diffs ds seats = fold apply_seat_diff ds seats"

section \<open>A window\<close>

text \<open>One window: its raw events are recorded in arrival order, then the buffer is flushed.\<close>

definition record_all :: "(int \<times> seat_state) list \<Rightarrow> section_coalescer \<Rightarrow> section_coalescer" where
  "record_all evs c = fold (\<lambda>(i, s). record_state i s) evs c"

definition window :: "(int \<times> seat_state) list \<Rightarrow> section_coalescer \<times> seat_map \<Rightarrow> section_coalescer \<times> seat_map" where
  "window evs cv = (let ((ds, _), c) = flush (record_all evs (fst cv)) in (c, apply_seat_diffs ds (snd cv)))"

text \<open>Fan-out without a buffer: every raw event is sent as it is.\<close>

definition fanout :: "(int \<times> seat_state) list \<Rightarrow> seat_map \<Rightarrow> seat_map" where
  "fanout evs seats = apply_seat_diffs (map (\<lambda>(i, s). to_diff i s) evs) seats"

text \<open>Events that arrive in version order, seat by seat, above what is known already.\<close>

fun in_order :: "seat_map \<Rightarrow> (int \<times> seat_state) list \<Rightarrow> bool" where
  "in_order known [] \<longleftrightarrow> True"
| "in_order known ((i, s) # evs) \<longleftrightarrow>
     (case known i of None \<Rightarrow> True | Some p \<Rightarrow> ss_version p < ss_version s) \<and> in_order (known(i \<mapsto> s)) evs"

section \<open>Facts\<close>

lemma to_diff_sel [simp]:
  "sd_seat_id (to_diff i s) = i" "sd_status (to_diff i s) = ss_status s"
  "sd_expires (to_diff i s) = ss_expires s" "sd_version (to_diff i s) = ss_version s"
  by (simp_all add: to_diff_def)

lemma apply_to_diff:
  "apply_seat_diff (to_diff i s) v =
    (case v i of None \<Rightarrow> v | Some x \<Rightarrow> if ss_version s \<le> ss_version x then v else v(i \<mapsto> s))"
proof -
  have eq: "x\<lparr>ss_status := ss_status s, ss_expires := ss_expires s, ss_version := ss_version s\<rparr> = s"
    for x :: seat_state
    by (rule seat_state.equality) simp_all
  show ?thesis by (simp add: apply_seat_diff_def eq split: option.split)
qed

lemma flush_loop_seen:
  "map_of (snd (flush_loop ps seen)) = map_of seen ++ map_of (rev ps)"
proof (induction ps arbitrary: seen)
  case (Cons p ps)
  obtain i s where "p = (i, s)" by (cases p)
  moreover have "map_of (AList.update i s seen) = (map_of seen)(i \<mapsto> s)" by (rule update_conv')
  ultimately show ?case using Cons [of "AList.update i s seen"]
    by (simp add: split_beta Let_def map_add_assoc [symmetric])
       (simp add: map_add_def fun_eq_iff split: option.split)
qed simp

lemma flush_loop_diffs:
  "distinct (map fst ps) \<Longrightarrow>
   fst (flush_loop ps seen) = map (\<lambda>(i, s). to_diff i s) (filter (\<lambda>(i, s). differs (map_of seen i) s) ps)"
proof (induction ps arbitrary: seen)
  case (Cons p ps)
  obtain i s where p: "p = (i, s)" by (cases p)
  have "filter (\<lambda>a. differs (map_of (AList.update i s seen) (fst a)) (snd a)) ps =
      filter (\<lambda>a. differs (map_of seen (fst a)) (snd a)) ps"
    using Cons.prems p by (intro filter_cong) (force simp: update_conv')+
  with Cons p show ?case by (simp add: split_beta Let_def)
qed simp

lemma record_all_simps [simp]:
  "record_all [] c = c"
  "record_all (e # evs) c = record_all evs (record_state (fst e) (snd e) c)"
  by (simp_all add: record_all_def split_beta)

lemma record_all_facts:
  "map_of (pending (record_all evs c)) = map_of (pending c) ++ map_of (rev evs)"
  "last_state (record_all evs c) = last_state c"
  "raw_event_count (record_all evs c) = raw_event_count c + length evs"
  "distinct (map fst (pending c)) \<Longrightarrow> distinct (map fst (pending (record_all evs c)))"
proof (induction evs arbitrary: c)
  case (Cons e evs)
  { case 1 then show ?case using Cons(1) [of "record_state (fst e) (snd e) c"]
      by (cases e) (simp add: record_state_def update_conv' map_add_def fun_eq_iff split: option.split) }
  { case 2 then show ?case using Cons(2) by (simp add: record_state_def) }
  { case 3 then show ?case using Cons(3) by (simp add: record_state_def) }
  { case 4 then show ?case using Cons(4) by (simp add: record_state_def distinct_update) }
qed simp_all

lemma keys_record_all:
  "fst ` set (pending (record_all evs c)) = fst ` set (pending c) \<union> fst ` set evs"
  using record_all_facts(1) [of evs c] by (metis dom_map_add dom_map_of_conv_image_fst set_rev sup_commute)

text \<open>The effect of a batch of diffs with one entry per seat, seen at one seat.\<close>

lemma apply_diffs_at:
  "distinct (map fst ps) \<Longrightarrow>
   apply_seat_diffs (map (\<lambda>(i, s). to_diff i s) ps) v i =
    (case v i of None \<Rightarrow> None
     | Some x \<Rightarrow> (case map_of ps i of None \<Rightarrow> Some x
        | Some s \<Rightarrow> if ss_version s \<le> ss_version x then Some x else Some s))"
proof (induction ps arbitrary: v)
  case (Cons p ps)
  obtain j t where p: "p = (j, t)" by (cases p)
  have none: "map_of ps j = None" using Cons.prems p by (simp add: map_of_eq_None_iff)
  have "apply_seat_diffs (map (\<lambda>(i, s). to_diff i s) (p # ps)) v i =
      apply_seat_diffs (map (\<lambda>(i, s). to_diff i s) ps) (apply_seat_diff (to_diff j t) v) i"
    by (simp add: apply_seat_diffs_def p)
  also have "\<dots> = (case apply_seat_diff (to_diff j t) v i of None \<Rightarrow> None
     | Some x \<Rightarrow> (case map_of ps i of None \<Rightarrow> Some x
        | Some s \<Rightarrow> if ss_version s \<le> ss_version x then Some x else Some s))"
    using Cons by simp
  also have "\<dots> = (case v i of None \<Rightarrow> None
     | Some x \<Rightarrow> (case map_of (p # ps) i of None \<Rightarrow> Some x
        | Some s \<Rightarrow> if ss_version s \<le> ss_version x then Some x else Some s))"
    using none by (auto simp: p apply_to_diff split: option.split)
  finally show ?case .
qed (simp add: apply_seat_diffs_def split: option.split)

lemma map_of_filter_val:
  "distinct (map fst ps) \<Longrightarrow>
   map_of (filter (\<lambda>(i, s). P i s) ps) i = (case map_of ps i of None \<Rightarrow> None | Some s \<Rightarrow> if P i s then Some s else None)"
  by (induction ps) (auto simp: map_of_eq_None_iff image_iff split: option.split)

lemma map_of_rev: "distinct (map fst ps) \<Longrightarrow> map_of (rev ps) = map_of ps"
proof (induction ps)
  case (Cons p ps)
  then have "map_of ps (fst p) = None" by (simp add: map_of_eq_None_iff)
  with Cons show ?case by (auto simp: map_add_def fun_eq_iff split: option.split)
qed simp

lemma window_eq:
  assumes "pending c = []"
  shows "last_state (fst (window evs (c, v))) = snd (flush_loop (pending (record_all evs c)) (last_state c))"
    and "pending (fst (window evs (c, v))) = []"
    and "snd (window evs (c, v)) i =
      (case v i of None \<Rightarrow> None
       | Some x \<Rightarrow> (case map_of (rev evs) i of None \<Rightarrow> Some x
          | Some s \<Rightarrow> if differs (map_of (last_state c) i) s \<and> ss_version x < ss_version s then Some s else Some x))"
proof -
  let ?p = "pending (record_all evs c)"
  have d: "distinct (map fst ?p)" using assms by (simp add: record_all_facts(4))
  have m: "map_of ?p = map_of (rev evs)" using assms by (simp add: record_all_facts(1))
  show "last_state (fst (window evs (c, v))) = snd (flush_loop ?p (last_state c))"
    and "pending (fst (window evs (c, v))) = []"
    by (simp_all add: window_def flush_def split_beta Let_def record_all_facts(2))
  have "snd (window evs (c, v)) i = apply_seat_diffs (fst (flush_loop ?p (last_state c))) v i"
    by (simp add: window_def flush_def split_beta Let_def record_all_facts(2))
  also have "\<dots> = (case v i of None \<Rightarrow> None
     | Some x \<Rightarrow> (case map_of (filter (\<lambda>(i, s). differs (map_of (last_state c) i) s) ?p) i of None \<Rightarrow> Some x
        | Some s \<Rightarrow> if ss_version s \<le> ss_version x then Some x else Some s))"
    unfolding flush_loop_diffs [OF d] by (rule apply_diffs_at) (rule distinct_map_filter [OF d])
  also have "\<dots> = (case v i of None \<Rightarrow> None
       | Some x \<Rightarrow> (case map_of (rev evs) i of None \<Rightarrow> Some x
          | Some s \<Rightarrow> if differs (map_of (last_state c) i) s \<and> ss_version x < ss_version s then Some s else Some x))"
    unfolding map_of_filter_val [OF d] m by (auto split: option.split)
  finally show "snd (window evs (c, v)) i =
      (case v i of None \<Rightarrow> None
       | Some x \<Rightarrow> (case map_of (rev evs) i of None \<Rightarrow> Some x
          | Some s \<Rightarrow> if differs (map_of (last_state c) i) s \<and> ss_version x < ss_version s then Some s else Some x))" .
qed

lemma window_last:
  assumes "pending c = []"
  shows "map_of (last_state (fst (window evs (c, v)))) = map_of (last_state c) ++ map_of (rev evs)"
proof -
  let ?p = "pending (record_all evs c)"
  have "map_of (rev ?p) = map_of ?p"
    using assms by (intro map_of_rev) (simp add: record_all_facts(4))
  then show ?thesis
    using assms by (simp add: window_eq(1) flush_loop_seen record_all_facts(1))
qed

text \<open>The same for unbuffered events that arrive in order.\<close>

lemma in_order_above:
  "in_order known evs \<Longrightarrow> map_of (rev evs) i = Some s \<Longrightarrow> known i = Some p \<Longrightarrow> ss_version p < ss_version s"
proof (induction evs arbitrary: known p)
  case (Cons e evs)
  obtain j t where e: "e = (j, t)" by (cases e)
  show ?case
  proof (cases "map_of (rev evs) i")
    case None
    with Cons.prems e have "j = i" "t = s" by (simp_all add: map_add_def split: if_splits)
    with Cons.prems e show ?thesis by simp
  next
    case (Some u)
    with Cons.prems e have u: "u = s" by (simp add: map_add_def)
    show ?thesis
    proof (cases "j = i")
      case True
      with Cons.prems e u Some have "ss_version t < ss_version s" by (auto intro: Cons.IH)
      with True Cons.prems e show ?thesis by simp
    next
      case False
      with Cons.prems e u Some show ?thesis by (auto intro: Cons.IH)
    qed
  qed
qed simp

lemma fanout_at:
  assumes "in_order known evs" "\<forall>i x. v i = Some x \<longrightarrow> known i = Some x"
  shows "fanout evs v i = (case v i of None \<Rightarrow> None
    | Some x \<Rightarrow> (case map_of (rev evs) i of None \<Rightarrow> Some x | Some s \<Rightarrow> Some s))"
  using assms
proof (induction evs arbitrary: known v)
  case Nil
  then show ?case by (simp add: fanout_def apply_seat_diffs_def split: option.split)
next
  case (Cons e evs)
  obtain j t where e: "e = (j, t)" by (cases e)
  let ?v = "apply_seat_diff (to_diff j t) v"
  have v: "?v = (if v j = None then v else v(j \<mapsto> t))"
    using Cons.prems e by (auto simp: apply_to_diff split: option.split)
  have "fanout (e # evs) v i = fanout evs ?v i" by (simp add: fanout_def apply_seat_diffs_def e)
  also have "\<dots> = (case ?v i of None \<Rightarrow> None
    | Some x \<Rightarrow> (case map_of (rev evs) i of None \<Rightarrow> Some x | Some s \<Rightarrow> Some s))"
  proof (rule Cons.IH [of "known(j \<mapsto> t)"])
    show "in_order (known(j \<mapsto> t)) evs" using Cons.prems(1) e by simp
    show "\<forall>i x. ?v i = Some x \<longrightarrow> (known(j \<mapsto> t)) i = Some x" using Cons.prems(2) v by auto
  qed
  finally show ?case by (auto simp: v e map_add_def split: option.split)
qed

section \<open>Windows and fan-out\<close>

text \<open>
  A client of the coalescer and a client of the fan-out agree on what they render, the former
  possibly at a lower version; for every seat the coalescer has seen the latter has its state.
\<close>

definition in_sync :: "section_coalescer \<Rightarrow> seat_map \<Rightarrow> seat_map \<Rightarrow> bool" where
  "in_sync c v w \<longleftrightarrow>
     pending c = [] \<and>
     (\<forall>i. (case (v i, w i) of
        (None, None) \<Rightarrow> True
      | (Some x, Some y) \<Rightarrow> rendered_equal x y \<and> ss_version x \<le> ss_version y \<and>
          (case map_of (last_state c) i of None \<Rightarrow> x = y | Some p \<Rightarrow> y = p)
      | _ \<Rightarrow> False))"

lemma in_sync_at:
  "in_sync c v w \<Longrightarrow>
    (case (v i, w i) of
        (None, None) \<Rightarrow> True
      | (Some x, Some y) \<Rightarrow> rendered_equal x y \<and> ss_version x \<le> ss_version y \<and>
          (case map_of (last_state c) i of None \<Rightarrow> x = y | Some p \<Rightarrow> y = p)
      | _ \<Rightarrow> False)"
  by (simp add: in_sync_def)

lemma in_sync_known:
  assumes "in_sync c v w"
  shows "\<forall>i x. w i = Some x \<longrightarrow> (w ++ map_of (last_state c)) i = Some x"
proof (intro allI impI)
  fix i x assume "w i = Some x"
  with in_sync_at [OF assms, of i] show "(w ++ map_of (last_state c)) i = Some x"
    by (auto simp: map_add_def split: option.splits)
qed

lemma in_sync_window:
  assumes "in_sync c v w" "in_order (w ++ map_of (last_state c)) evs"
  shows "in_sync (fst (window evs (c, v))) (snd (window evs (c, v))) (fanout evs w)"
proof -
  have p: "pending c = []" using assms(1) by (simp add: in_sync_def)
  note known = in_sync_known [OF assms(1)]
  have f: "fanout evs w i = (case w i of None \<Rightarrow> None
      | Some x \<Rightarrow> (case map_of (rev evs) i of None \<Rightarrow> Some x | Some s \<Rightarrow> Some s))" for i
    by (rule fanout_at [OF assms(2) known])
  have above: "ss_version y < ss_version s" if "map_of (rev evs) i = Some s" "w i = Some y" for i s y
    using in_order_above [OF assms(2)] that known by blast
  show ?thesis
    unfolding in_sync_def
  proof (intro conjI allI)
    show "pending (fst (window evs (c, v))) = []" using p by (rule window_eq(2))
    fix i
    show "case (snd (window evs (c, v)) i, fanout evs w i) of (None, None) \<Rightarrow> True
      | (Some x, Some y) \<Rightarrow> rendered_equal x y \<and> ss_version x \<le> ss_version y \<and>
          (case map_of (last_state (fst (window evs (c, v)))) i of None \<Rightarrow> x = y | Some p \<Rightarrow> y = p)
      | _ \<Rightarrow> False"
      using in_sync_at [OF assms(1), of i] above [of i]
      unfolding window_eq(3) [OF p] f window_last [OF p]
      by (cases "v i"; cases "w i"; cases "map_of (rev evs) i"; cases "map_of (last_state c) i")
         (force simp: map_add_def differs_def rendered_equal_def)+
  qed
qed

lemma in_order_append:
  "in_order known (evs @ later) \<longleftrightarrow> in_order known evs \<and> in_order (known ++ map_of (rev evs)) later"
proof (induction evs arbitrary: known)
  case (Cons e evs)
  obtain i s where e: "e = (i, s)" by (cases e)
  have "known ++ map_of (rev (e # evs)) = known(i \<mapsto> s) ++ map_of (rev evs)"
    by (auto simp: e map_add_def fun_eq_iff split: option.split)
  with Cons [of "known(i \<mapsto> s)"] show ?case
    by (simp only: e append_Cons in_order.simps conj_assoc)
qed simp

lemma known_window:
  assumes "in_sync c v w" "in_order (w ++ map_of (last_state c)) (evs @ later)"
  shows "in_order (w ++ map_of (last_state c)) evs \<and>
    in_order (fanout evs w ++ map_of (last_state (fst (window evs (c, v))))) later"
proof -
  have p: "pending c = []" using assms(1) by (simp add: in_sync_def)
  note known = in_sync_known [OF assms(1)]
  have o: "in_order (w ++ map_of (last_state c)) evs"
    using assms(2) by (simp add: in_order_append)
  have "fanout evs w i = w i" if "map_of (rev evs) i = None" for i
    using fanout_at [OF o known, of i] that by (simp split: option.split)
  then have "fanout evs w ++ map_of (last_state (fst (window evs (c, v)))) =
      w ++ map_of (last_state c) ++ map_of (rev evs)"
    unfolding window_last [OF p] by (auto simp: map_add_def fun_eq_iff split: option.split)
  with assms(2) o show ?thesis by (simp add: in_order_append)
qed

lemma fanout_append: "fanout (evs @ later) w = fanout later (fanout evs w)"
  by (simp add: fanout_def apply_seat_diffs_def)

lemma in_sync_windows:
  assumes "in_sync c v w" "in_order (w ++ map_of (last_state c)) (concat evss)"
  shows "in_sync (fst (fold window evss (c, v))) (snd (fold window evss (c, v))) (fanout (concat evss) w)"
  using assms
proof (induction evss arbitrary: c v w)
  case Nil
  then show ?case by (simp add: fanout_def apply_seat_diffs_def)
next
  case (Cons evs evss)
  obtain c' v' where w: "window evs (c, v) = (c', v')" by (cases "window evs (c, v)")
  have o: "in_order (w ++ map_of (last_state c)) (evs @ concat evss)" using Cons.prems(2) by simp
  have "in_sync c' v' (fanout evs w)" and "in_order (fanout evs w ++ map_of (last_state c')) (concat evss)"
    using in_sync_window [OF Cons.prems(1), of evs] known_window [OF Cons.prems(1) o] unfolding w by simp_all
  from Cons.IH [OF this] show ?case by (simp add: w fanout_append)
qed

lemma in_sync_new: "in_sync new_coalescer v v"
  by (auto simp: in_sync_def new_coalescer_def rendered_equal_def split: option.split)

lemma in_sync_rendered:
  assumes "in_sync c v w"
  shows "map_option (\<lambda>s. (ss_status s, ss_expires s)) (v i) = map_option (\<lambda>s. (ss_status s, ss_expires s)) (w i)"
  using assms unfolding in_sync_def rendered_equal_def
  by (cases "v i"; cases "w i") (force dest!: spec [of _ i])+

section \<open>Properties\<close>

text \<open>
  C16: Coalescing loses nothing that is rendered. Take a client that holds the snapshot its section
  started from, and any sequence of windows whose raw events arrive in version order seat by seat.
  After every window it renders exactly what a client that was sent every single raw event renders,
  the same status and the same expiry of every seat, although whole windows may have been
  suppressed.
\<close>

theorem coalescing_renders_like_fanout:
  assumes "in_order seats (concat evss)"
  shows "map_option (\<lambda>s. (ss_status s, ss_expires s)) (snd (fold window evss (new_coalescer, seats)) i) =
    map_option (\<lambda>s. (ss_status s, ss_expires s)) (fanout (concat evss) seats i)"
proof (rule in_sync_rendered)
  show "in_sync (fst (fold window evss (new_coalescer, seats))) (snd (fold window evss (new_coalescer, seats)))
      (fanout (concat evss) seats)"
    using assms by (intro in_sync_windows in_sync_new) (simp add: new_coalescer_def)
qed

text \<open>
  What one flush sends: for every seat touched in the window, once, its last recorded state,
  if it renders differently from the state the previous flush left (or there was none); the raw
  count is the number of events; the buffer is empty and remembers every touched seat, sent or not.
\<close>

theorem flush_spec:
  assumes "pending c = []" "raw_event_count c = 0" "flush (record_all evs c) = ((diffs, raw), c')"
  shows "set diffs = {to_diff i s | i s. map_of (rev evs) i = Some s \<and> differs (map_of (last_state c) i) s} \<and>
    distinct (map sd_seat_id diffs) \<and> raw = length evs \<and> length diffs \<le> raw \<and> \<not> is_dirty c' \<and>
    map_of (last_state c') = map_of (last_state c) ++ map_of (rev evs)"
proof -
  let ?p = "pending (record_all evs c)"
  have d: "distinct (map fst ?p)" using assms(1) by (simp add: record_all_facts(4))
  have m: "map_of ?p = map_of (rev evs)" using assms(1) by (simp add: record_all_facts(1))
  have ds: "diffs = map (\<lambda>(i, s). to_diff i s) (filter (\<lambda>(i, s). differs (map_of (last_state c) i) s) ?p)"
    using assms(3) flush_loop_diffs [OF d, of "last_state c"]
    by (auto simp: flush_def split_beta Let_def record_all_facts(2))
  have in_p: "(i, s) \<in> set ?p \<longleftrightarrow> map_of (rev evs) i = Some s" for i s
    using d m by (metis map_of_eq_Some_iff)
  have set: "set diffs = {to_diff i s | i s. map_of (rev evs) i = Some s \<and> differs (map_of (last_state c) i) s}"
    unfolding ds using in_p by force
  have ids: "map sd_seat_id diffs = map fst (filter (\<lambda>(i, s). differs (map_of (last_state c) i) s) ?p)"
    by (simp add: ds comp_def split_beta)
  have raw: "raw = length evs" "\<not> is_dirty c'"
    using assms by (auto simp: flush_def split_beta Let_def record_all_facts(3) is_dirty_def)
  have "length ?p \<le> length evs"
  proof -
    have "length ?p = card (fst ` set evs)"
      using d keys_record_all [of evs c] assms(1) by (metis distinct_card image_empty length_map list.set(1) list.set_map sup_bot_left)
    also have "\<dots> \<le> length evs" by (metis card_length length_map list.set_map)
    finally show ?thesis .
  qed
  then have "length diffs \<le> raw" using raw(1) unfolding ds by (simp add: le_trans [OF length_filter_le])
  moreover have "map_of (last_state c') = map_of (last_state c) ++ map_of (rev evs)"
    using window_last [OF assms(1), of evs "\<lambda>_. None"] assms(3) by (simp add: window_def)
  ultimately show ?thesis
    using set ids raw distinct_map_filter [OF d] by simp
qed

text \<open>
  What the suppression costs a client that joined inside a window. If the last state of a
  window renders like the one the previous flush left, nothing is sent for that seat: a client
  whose snapshot was taken in between and rendered something else keeps rendering it, although its
  version is the older one and the true state has moved on.
\<close>

theorem late_joiner_stays_stale:
  assumes "pending c = []" "map_of (last_state c) i = Some p" "map_of (rev evs) i = Some s"
    and "rendered_equal p s" "seats i = Some x" "\<not> rendered_equal x s"
  shows "snd (window evs (c, seats)) i = Some x \<and>
    map_of (last_state (fst (window evs (c, seats)))) i = Some s \<and> \<not> rendered_equal x s"
  using assms by (simp add: window_eq(3) window_last differs_def)

text \<open>
  Versions decide at the client, arrival decides in the buffer. When an older event of a seat
  arrives last in its window, it is the one the buffer keeps: every client renders the older state,
  while a client that was sent both events would have dropped it.
\<close>

theorem reordering_regresses:
  assumes "pending c = []" "map_of (last_state c) i = Some x" "seats i = Some x"
    and "ss_version x < ss_version old" "ss_version old < ss_version new" "\<not> rendered_equal x old"
  shows "snd (window [(i, new), (i, old)] (c, seats)) i = Some old \<and>
    fanout [(i, new), (i, old)] seats i = Some new"
  using assms by (simp add: window_eq(3) differs_def fanout_def apply_seat_diffs_def apply_to_diff)

section \<open>Instances\<close>

definition held_at :: "instant \<Rightarrow> int \<Rightarrow> seat_state" where
  "held_at e v = \<lparr>ss_status = HELD, ss_expires = Some e, ss_version = v\<rparr>"

definition free_at :: "int \<Rightarrow> seat_state" where
  "free_at v = \<lparr>ss_status = AVAILABLE, ss_expires = None, ss_version = v\<rparr>"

lemmas state_defs = held_at_def free_at_def rendered_equal_def

theorem coalescing_renders_like_fanout_witness:
  "map_option (\<lambda>s. (ss_status s, ss_expires s))
     (snd (fold window [[(7, held_at 50 1), (7, free_at 2)], [(7, held_at 90 3), (7, free_at 4)]]
        (new_coalescer, [7 \<mapsto> free_at 0])) 7) = Some (AVAILABLE, None)"
  using coalescing_renders_like_fanout [of "[7 \<mapsto> free_at 0]"
      "[[(7, held_at 50 1), (7, free_at 2)], [(7, held_at 90 3), (7, free_at 4)]]" 7]
  by (simp add: state_defs fanout_def apply_seat_diffs_def apply_to_diff)

theorem flush_spec_witness:
  "distinct (map sd_seat_id (fst (fst (flush (record_all [(7, held_at 50 1), (8, held_at 50 1), (7, free_at 2)] new_coalescer)))))"
  using flush_spec [of new_coalescer "[(7, held_at 50 1), (8, held_at 50 1), (7, free_at 2)]"]
  by (simp add: new_coalescer_def split_beta prod_eq_iff)

theorem late_joiner_stays_stale_witness:
  "snd (window [(7, held_at 50 2), (7, free_at 3)]
     (\<lparr>last_state = [(7, free_at 1)], pending = [], raw_event_count = 0\<rparr>, [7 \<mapsto> held_at 50 2])) 7 = Some (held_at 50 2)"
  using late_joiner_stays_stale [of "\<lparr>last_state = [(7, free_at 1)], pending = [], raw_event_count = 0\<rparr>" 7 "free_at 1"
      "[(7, held_at 50 2), (7, free_at 3)]" "free_at 3" "[7 \<mapsto> held_at 50 2]" "held_at 50 2"]
  by (simp add: state_defs)

theorem reordering_regresses_witness:
  "snd (window [(7, free_at 3), (7, held_at 50 2)]
     (\<lparr>last_state = [(7, free_at 1)], pending = [], raw_event_count = 0\<rparr>, [7 \<mapsto> free_at 1])) 7 = Some (held_at 50 2)"
  using reordering_regresses [of "\<lparr>last_state = [(7, free_at 1)], pending = [], raw_event_count = 0\<rparr>" 7 "free_at 1"
      "[7 \<mapsto> free_at 1]" "held_at 50 2" "free_at 3"]
  by (simp add: state_defs)

end
