(* ===== verification/Hub.thy ===== *)
theory Hub
  imports Coalescer Cache "HOL-Library.Char_ord" "HOL-Library.List_Lexorder"
begin

text \<open>
  \<^verbatim>\<open>app/realtime/hub.py\<close> and \<^verbatim>\<open>app/api/routes/ws.py\<close>: the realtime hub of one worker process. It
  registers the worker's own web sockets per (event, section), holds one coalescer and one Redis
  subscription per registered section, records what Redis delivers, and sends each section's diff
  when its window ends.

  A web socket is a number. Operations run in the one event loop of the process; what another task
  does while one awaits is an explicit argument or another step. \<open>up\<close> tells whether Redis answers a
  SUBSCRIBE or UNSUBSCRIBE and \<open>send_ok\<close> whether a frame reaches a socket: both raise otherwise.
\<close>

section \<open>State\<close>

type_synonym section_key = "int \<times> string"
type_synonym web_socket = nat

record hub =
  hb_subscribers :: "(section_key \<times> web_socket set) list"
  hb_coalescers :: "(section_key \<times> section_coalescer) list"
  hb_channels :: "string set"

definition empty_hub :: hub where
  "empty_hub = \<lparr>hb_subscribers = [], hb_coalescers = [], hb_channels = {}\<rparr>"

definition subscribers_of :: "section_key \<Rightarrow> hub \<Rightarrow> web_socket set" where
  "subscribers_of k h = (case map_of (hb_subscribers h) k of None \<Rightarrow> {} | Some ws \<Rightarrow> ws)"

definition channel_of :: "section_key \<Rightarrow> string" where
  "channel_of k = channel_name (fst k) (snd k)"

section \<open>Snapshots\<close>

definition all_sections :: "int \<Rightarrow> db \<Rightarrow> string list" where
  "all_sections evt d = sort (remdups (map sr_section (filter (\<lambda>r. sr_event_id r = evt) (db_seats d))))"

record snapshot_seat =
  sn_id :: int
  sn_section :: string
  sn_row_label :: string
  sn_seat_number :: int
  sn_status :: seat_status
  sn_expires :: "instant option"
  sn_version :: int

definition snapshot_entry :: "instant \<Rightarrow> seat_row \<Rightarrow> snapshot_seat" where
  "snapshot_entry now r =
     (let expired = (sr_status r = HELD \<and> (case sr_expires r of None \<Rightarrow> False | Some e \<Rightarrow> e \<le> now))
      in \<lparr>sn_id = sr_id r, sn_section = sr_section r, sn_row_label = sr_row_label r,
          sn_seat_number = sr_seat_number r, sn_status = (if expired then AVAILABLE else sr_status r),
          sn_expires = (if expired then None else sr_expires r), sn_version = sr_version r\<rparr>)"

text \<open>\<open>ORDER BY section, row_label, seat_number\<close>: three stable sorts, the last key first.\<close>

definition load_snapshot_seats :: "int \<Rightarrow> string list \<Rightarrow> instant \<Rightarrow> db \<Rightarrow> snapshot_seat list" where
  "load_snapshot_seats evt sections now d =
     map (snapshot_entry now)
       (sort_key sr_section (sort_key sr_row_label (sort_key sr_seat_number
         (filter (\<lambda>r. sr_event_id r = evt \<and> sr_section r \<in> set sections) (db_seats d)))))"

text \<open>What the client builds from the snapshot frame.\<close>

definition seat_map_of :: "snapshot_seat list \<Rightarrow> seat_map" where
  "seat_map_of seats = fold (\<lambda>s m. m(sn_id s \<mapsto> \<lparr>ss_status = sn_status s, ss_expires = sn_expires s,
     ss_version = sn_version s\<rparr>)) seats Map.empty"

section \<open>Registration\<close>

text \<open>Each returns whether it ended normally, with the state it leaves either way.\<close>

definition add_subscriber :: "bool \<Rightarrow> section_key \<Rightarrow> web_socket \<Rightarrow> hub \<Rightarrow> bool \<times> hub" where
  "add_subscriber up k w h =
     (let subs = subscribers_of k h;
          h1 = h\<lparr>hb_subscribers := AList.update k (insert w subs) (hb_subscribers h),
                 hb_coalescers := (if map_of (hb_coalescers h) k = None
                   then AList.update k new_coalescer (hb_coalescers h) else hb_coalescers h)\<rparr>
      in if subs \<noteq> {} then (True, h1)
         else if up then (True, h1\<lparr>hb_channels := insert (channel_of k) (hb_channels h1)\<rparr>)
         else (False, h1))"

definition remove_subscriber :: "bool \<Rightarrow> section_key \<Rightarrow> web_socket \<Rightarrow> hub \<Rightarrow> bool \<times> hub" where
  "remove_subscriber up k w h =
     (case map_of (hb_subscribers h) k of
        None \<Rightarrow> (True, h)
      | Some ws \<Rightarrow>
          (let subs = ws - {w}
           in if subs \<noteq> {} then (True, h\<lparr>hb_subscribers := AList.update k subs (hb_subscribers h)\<rparr>)
              else (let h1 = h\<lparr>hb_subscribers := AList.delete k (hb_subscribers h),
                               hb_coalescers := AList.delete k (hb_coalescers h)\<rparr>
                    in if up then (True, h1\<lparr>hb_channels := hb_channels h1 - {channel_of k}\<rparr>) else (False, h1))))"

text \<open>A loop over sections that an exception ends.\<close>

fun each_section :: "(string \<Rightarrow> hub \<Rightarrow> bool \<times> hub) \<Rightarrow> string list \<Rightarrow> hub \<Rightarrow> bool \<times> hub" where
  "each_section f [] h = (True, h)"
| "each_section f (s # ss) h = (case f s h of (False, h') \<Rightarrow> (False, h') | (True, h') \<Rightarrow> each_section f ss h')"

definition resolve_sections :: "int \<Rightarrow> string list \<Rightarrow> db \<Rightarrow> string list" where
  "resolve_sections evt sections d = (if sections \<noteq> [] then sections else all_sections evt d)"

text \<open>
  \<open>connect\<close> reads the snapshot before it subscribes; \<open>interim\<close> is what the other tasks do to the
  hub in between. None: it raised, from a SUBSCRIBE or from sending the snapshot.
\<close>

definition connect :: "bool \<Rightarrow> bool \<Rightarrow> (hub \<Rightarrow> hub) \<Rightarrow> web_socket \<Rightarrow> int \<Rightarrow> string list \<Rightarrow> instant \<Rightarrow> db \<Rightarrow>
    hub \<Rightarrow> metrics \<Rightarrow> (string list \<times> snapshot_seat list) option \<times> hub \<times> metrics" where
  "connect up send_ok interim w evt sections now d h m =
     (let resolved = resolve_sections evt sections d;
          seats = load_snapshot_seats evt resolved now d
      in case each_section (\<lambda>s. add_subscriber up (evt, s) w) resolved (interim h) of
           (False, h1) \<Rightarrow> (None, h1, m)
         | (True, h1) \<Rightarrow>
             (let m1 = inc Ws_connections m
              in if send_ok then (Some (resolved, seats), h1, m1) else (None, h1, m1)))"

definition disconnect :: "bool \<Rightarrow> web_socket \<Rightarrow> int \<Rightarrow> string list \<Rightarrow> hub \<Rightarrow> metrics \<Rightarrow> hub \<times> metrics" where
  "disconnect up w evt sections h m =
     (case each_section (\<lambda>s. remove_subscriber up (evt, s) w) sections h of
        (False, h1) \<Rightarrow> (h1, m)
      | (True, h1) \<Rightarrow> (h1, set_gauge Ws_connections (m Ws_connections - 1) m))"

section \<open>The route\<close>

definition section_list :: "string \<Rightarrow> string list" where
  "section_list sections = filter (\<lambda>s. s \<noteq> []) (split_max (length sections) CHR '','' sections)"

text \<open>
  The handler of one socket. \<open>life\<close> is what happens to the hub until the client disconnects. An
  exception of \<open>connect\<close> leaves the handler before its \<open>try\<close> block.
\<close>

definition seat_map_ws :: "bool \<Rightarrow> bool \<Rightarrow> (hub \<Rightarrow> hub) \<Rightarrow> (hub \<Rightarrow> hub) \<Rightarrow> web_socket \<Rightarrow> int \<Rightarrow> string \<Rightarrow> instant \<Rightarrow>
    db \<Rightarrow> hub \<Rightarrow> metrics \<Rightarrow> hub \<times> metrics" where
  "seat_map_ws up send_ok interim life w evt sections now d h m =
     (case connect up send_ok interim w evt (section_list sections) now d h m of
        (None, h1, m1) \<Rightarrow> (h1, m1)
      | (Some (subscribed, _), h1, m1) \<Rightarrow> disconnect up w evt subscribed (life h1) m1)"

section \<open>The loops\<close>

text \<open>
  One message of \<open>_listen_loop\<close>; None where \<open>_parse_channel\<close> raises, which ends the loop. The body
  is the JSON text of the update; decoding gives its fields back.
\<close>

definition deliver :: "string \<times> seat_update \<Rightarrow> hub \<Rightarrow> hub option" where
  "deliver msg h =
     (case parse_channel (fst msg) of
        None \<Rightarrow> None
      | Some k \<Rightarrow>
          Some (case map_of (hb_coalescers h) k of
             None \<Rightarrow> h
           | Some c \<Rightarrow>
               (let u = snd msg;
                    s = \<lparr>ss_status = su_status u, ss_expires = su_expires u, ss_version = su_version u\<rparr>
                in h\<lparr>hb_coalescers := AList.update k (record_state (su_seat_id u) s c) (hb_coalescers h)\<rparr>)))"

text \<open>A broadcast: the section, its diff, and the sockets it reached.\<close>

record broadcast =
  bc_key :: section_key
  bc_diffs :: "seat_diff list"
  bc_sent :: "web_socket set"

definition flush_section :: "(web_socket \<Rightarrow> bool) \<Rightarrow> section_key \<Rightarrow> hub \<Rightarrow> metrics \<Rightarrow> broadcast option \<times> hub \<times> metrics" where
  "flush_section send_ok k h m =
     (case map_of (hb_coalescers h) k of
        None \<Rightarrow> (None, h, m)
      | Some c \<Rightarrow>
          if \<not> is_dirty c then (None, h, m)
          else
            (let ((diffs, raw), c') = flush c;
                 h' = h\<lparr>hb_coalescers := AList.update k c' (hb_coalescers h)\<rparr>;
                 m' = inc_by Ws_events_coalesced (raw - length diffs) m;
                 sent = {w \<in> subscribers_of k h. send_ok w}
             in if diffs = [] then (None, h', m')
                else (Some \<lparr>bc_key = k, bc_diffs = diffs, bc_sent = sent\<rparr>, h',
                      inc_by Ws_messages_sent (card sent) m')))"

text \<open>One round of \<open>_flush_loop\<close>, over the sections registered when it starts.\<close>

fun flush_tick :: "(web_socket \<Rightarrow> bool) \<Rightarrow> section_key list \<Rightarrow> hub \<Rightarrow> metrics \<Rightarrow> broadcast list \<times> hub \<times> metrics" where
  "flush_tick send_ok [] h m = ([], h, m)"
| "flush_tick send_ok (k # ks) h m =
     (let (b, h1, m1) = flush_section send_ok k h m;
          (bs, h2, m2) = flush_tick send_ok ks h1 m1
      in (case b of None \<Rightarrow> bs | Some x \<Rightarrow> x # bs, h2, m2))"

definition flush_round :: "(web_socket \<Rightarrow> bool) \<Rightarrow> hub \<Rightarrow> metrics \<Rightarrow> broadcast list \<times> hub \<times> metrics" where
  "flush_round send_ok h m = flush_tick send_ok (map fst (hb_coalescers h)) h m"

section \<open>Steps and their invariant\<close>

text \<open>
  The steps the event loop interleaves, while Redis answers: \<open>connect\<close> and \<open>disconnect\<close> are
  sequences of the first two.
\<close>

inductive hub_step :: "hub \<Rightarrow> hub \<Rightarrow> bool" where
  add: "hub_step h (snd (add_subscriber True k w h))"
| remove: "hub_step h (snd (remove_subscriber True k w h))"
| listen: "deliver msg h = Some h' \<Longrightarrow> hub_step h h'"
| tick: "hub_step h (fst (snd (flush_section send_ok k h m)))"

definition hub_ok :: "hub \<Rightarrow> bool" where
  "hub_ok h \<longleftrightarrow>
     dom (map_of (hb_coalescers h)) = dom (map_of (hb_subscribers h)) \<and>
     (\<forall>k. map_of (hb_subscribers h) k \<noteq> Some {}) \<and>
     hb_channels h = channel_of ` dom (map_of (hb_subscribers h))"

lemma channel_of_inject [simp]: "channel_of k = channel_of k' \<longleftrightarrow> k = k'"
  by (auto simp: channel_of_def channel_name_inject prod_eq_iff)

lemma parse_channel_of [simp]: "parse_channel (channel_of k) = Some k"
  by (simp add: channel_of_def parse_channel_name)

lemma hub_ok_add: "hub_ok h \<Longrightarrow> hub_ok (snd (add_subscriber True k w h))"
  by (auto simp: hub_ok_def add_subscriber_def Let_def subscribers_of_def update_conv' split: option.splits if_splits)

lemma hub_ok_remove: "hub_ok h \<Longrightarrow> hub_ok (snd (remove_subscriber True k w h))"
  by (auto simp: hub_ok_def remove_subscriber_def Let_def update_conv' delete_conv' split: option.splits if_splits)

text \<open>Overwriting a coalescer that is there keeps the invariant.\<close>

lemma hub_ok_touch:
  assumes "hub_ok h" "map_of (hb_coalescers h) k = Some c"
  shows "hub_ok (h\<lparr>hb_coalescers := AList.update k c' (hb_coalescers h)\<rparr>)"
proof -
  have "k \<in> dom (map_of (hb_coalescers h))" using assms(2) by blast
  with assms(1) show ?thesis by (simp add: hub_ok_def update_conv' insert_absorb)
qed

lemma hub_ok_deliver: "hub_ok h \<Longrightarrow> deliver msg h = Some h' \<Longrightarrow> hub_ok h'"
  using hub_ok_touch by (auto simp: deliver_def Let_def split: option.splits)

lemma hub_ok_flush: "hub_ok h \<Longrightarrow> hub_ok (fst (snd (flush_section send_ok k h m)))"
  using hub_ok_touch by (auto simp: flush_section_def Let_def split_beta split: option.split)

interpretation hub_system: transition_system "\<lambda>h. h = empty_hub" hub_step hub_ok
proof
  show "hub_ok s" if "s = empty_hub" for s
    using that by (simp add: hub_ok_def empty_hub_def)
  show "hub_ok t" if "hub_step s t" "hub_ok s" for s t
    using that by cases (simp_all add: hub_ok_add hub_ok_remove hub_ok_deliver hub_ok_flush)
qed

end
