(* ===== verification/Hub_Properties.thy ===== *)
theory Hub_Properties
  imports Hub Strategy_Properties
begin

text \<open>
  What the hub guarantees its web sockets: subscriptions follow the local sockets exactly, an
  update that renders differently reaches all of them, a snapshot agrees with what an acquisition
  would decide; and what a connection that fails leaves behind.
\<close>

section \<open>Facts\<close>

lemma subscribers_add: "subscribers_of k' (snd (add_subscriber up k w h)) =
    (if k' = k then insert w (subscribers_of k h) else subscribers_of k' h)"
  by (auto simp: add_subscriber_def Let_def subscribers_of_def update_conv' split: option.split)

lemma subscribers_remove: "subscribers_of k' (snd (remove_subscriber up k w h)) =
    (if k' = k then subscribers_of k h - {w} else subscribers_of k' h)"
  by (auto simp: remove_subscriber_def Let_def subscribers_of_def update_conv' delete_conv' split: option.split)

lemma fst_add_up [simp]: "fst (add_subscriber True k w h)"
  by (simp add: add_subscriber_def Let_def)

lemma fst_remove_up [simp]: "fst (remove_subscriber True k w h)"
  by (simp add: remove_subscriber_def Let_def split: option.split)

lemma each_add:
  "fst (each_section (\<lambda>s. add_subscriber True (evt, s) w) ss h) \<and>
   subscribers_of (evt, s) (snd (each_section (\<lambda>s. add_subscriber True (evt, s) w) ss h)) =
     (if s \<in> set ss then insert w (subscribers_of (evt, s) h) else subscribers_of (evt, s) h)"
proof (induction ss arbitrary: h)
  case (Cons t ss)
  obtain h' where h': "add_subscriber True (evt, t) w h = (True, h')"
    using fst_add_up [of "(evt, t)" w h] by (metis prod.collapse)
  with Cons [of h'] subscribers_add [of "(evt, s)" True "(evt, t)" w h] show ?case by auto
qed simp

lemma each_remove:
  "fst (each_section (\<lambda>s. remove_subscriber True (evt, s) w) ss h) \<and>
   subscribers_of (evt, s) (snd (each_section (\<lambda>s. remove_subscriber True (evt, s) w) ss h)) =
     (if s \<in> set ss then subscribers_of (evt, s) h - {w} else subscribers_of (evt, s) h)"
proof (induction ss arbitrary: h)
  case (Cons t ss)
  obtain h' where h': "remove_subscriber True (evt, t) w h = (True, h')"
    using fst_remove_up [of "(evt, t)" w h] by (metis prod.collapse)
  with Cons [of h'] subscribers_remove [of "(evt, s)" True "(evt, t)" w h] show ?case by auto
qed simp

lemma connect_up:
  "\<exists>h1. connect True ok interim w evt sections now d h m =
     (if ok then Some (resolve_sections evt sections d, load_snapshot_seats evt (resolve_sections evt sections d) now d)
      else None, h1, inc Ws_connections m) \<and>
    (\<forall>s. subscribers_of (evt, s) h1 = (if s \<in> set (resolve_sections evt sections d)
        then insert w (subscribers_of (evt, s) (interim h)) else subscribers_of (evt, s) (interim h)))"
proof -
  let ?r = "each_section (\<lambda>s. add_subscriber True (evt, s) w) (resolve_sections evt sections d) (interim h)"
  obtain h1 where "?r = (True, h1)"
    using each_add [of evt w "resolve_sections evt sections d" "interim h"] by (metis prod.collapse)
  with each_add [of evt w "resolve_sections evt sections d" "interim h"] show ?thesis
    by (auto simp: connect_def Let_def)
qed

lemma disconnect_up:
  "\<exists>h1. disconnect True w evt ss h m = (h1, set_gauge Ws_connections (m Ws_connections - 1) m) \<and>
    (\<forall>s \<in> set ss. w \<notin> subscribers_of (evt, s) h1)"
proof -
  obtain h1 where "each_section (\<lambda>s. remove_subscriber True (evt, s) w) ss h = (True, h1)"
    using each_remove [of evt w ss h] by (metis prod.collapse)
  with each_remove [of evt w ss h] show ?thesis by (auto simp: disconnect_def)
qed

lemma seat_map_of_fold:
  "fold (\<lambda>s m. m(sn_id s \<mapsto> f s)) xs m = m ++ map_of (rev (map (\<lambda>s. (sn_id s, f s)) xs))"
proof (induction xs arbitrary: m)
  case (Cons x xs)
  then show ?case by (auto simp: map_add_def fun_eq_iff split: option.split)
qed simp

lemma seat_map_of_at:
  assumes "distinct (map sn_id xs)" "x \<in> set xs"
  shows "seat_map_of xs (sn_id x) =
    Some \<lparr>ss_status = sn_status x, ss_expires = sn_expires x, ss_version = sn_version x\<rparr>"
proof -
  let ?f = "\<lambda>s. \<lparr>ss_status = sn_status s, ss_expires = sn_expires s, ss_version = sn_version s\<rparr>"
  have "distinct (map fst (map (\<lambda>s. (sn_id s, ?f s)) xs))" using assms(1) by (simp add: comp_def)
  moreover have "(sn_id x, ?f x) \<in> set (map (\<lambda>s. (sn_id s, ?f s)) xs)" using assms(2) by auto
  ultimately show ?thesis
    by (simp only: seat_map_of_def seat_map_of_fold empty_map_add map_of_rev map_of_eq_Some_iff)
qed

lemma snapshot_ids:
  assumes "schema_ok d"
  shows "distinct (map sn_id (load_snapshot_seats evt secs now d))"
proof -
  have "sn_id (snapshot_entry now r) = sr_id r" for r by (simp add: snapshot_entry_def Let_def)
  moreover have "inj_on sr_id (set (db_seats d))" "distinct (db_seats d)"
    using assms by (auto simp: schema_ok_iff distinct_map)
  ultimately show ?thesis
    by (auto simp: load_snapshot_seats_def distinct_map comp_def inj_on_def)
qed

lemma snapshot_status:
  "sn_status (snapshot_entry now r) = AVAILABLE \<longleftrightarrow> reclaimable_sql now r"
  by (auto simp: snapshot_entry_def reclaimable_sql_def expired_sql_def Let_def split: option.split)

section \<open>Properties\<close>


text \<open>
  An update that matters arrives. In a reachable hub, a message on the channel of a watched
  section whose seat renders differently from the last flush is broadcast by the next flush of the
  section: one entry, with the message's version, to every socket of the section that can be sent to.
\<close>

theorem update_reaches_watchers:
  assumes "hub_step\<^sup>*\<^sup>* empty_hub h" "map_of (hb_coalescers h) (evt, sec) = Some c" "\<not> is_dirty c"
    and "s = \<lparr>ss_status = su_status u, ss_expires = su_expires u, ss_version = su_version u\<rparr>"
    and "differs (map_of (last_state c) (su_seat_id u)) s"
  shows "\<exists>h1 h2 m'. deliver (channel_name evt sec, u) h = Some h1 \<and>
    flush_section ok (evt, sec) h1 m =
      (Some \<lparr>bc_key = (evt, sec), bc_diffs = [to_diff (su_seat_id u) s], bc_sent = {w \<in> subscribers_of (evt, sec) h. ok w}\<rparr>, h2, m') \<and>
    subscribers_of (evt, sec) h2 = subscribers_of (evt, sec) h \<and> subscribers_of (evt, sec) h \<noteq> {}"
proof -
  have ok: "hub_ok h" using hub_system.reachable_inv assms(1) by blast
  have watched: "subscribers_of (evt, sec) h \<noteq> {}"
  proof -
    have "(evt, sec) \<in> dom (map_of (hb_subscribers h))"
      using ok assms(2) unfolding hub_ok_def by blast
    then obtain ws where "map_of (hb_subscribers h) (evt, sec) = Some ws" by blast
    moreover from this have "ws \<noteq> {}" using ok unfolding hub_ok_def by metis
    ultimately show ?thesis by (simp add: subscribers_of_def)
  qed
  let ?c = "record_state (su_seat_id u) s c"
  let ?h1 = "h\<lparr>hb_coalescers := AList.update (evt, sec) ?c (hb_coalescers h)\<rparr>"
  have p: "pending ?c = [(su_seat_id u, s)]" using assms(3) by (simp add: record_state_def is_dirty_def)
  have "deliver (channel_name evt sec, u) h = Some ?h1"
    using assms(2,4) by (simp add: deliver_def parse_channel_name Let_def)
  moreover have "map_of (hb_coalescers ?h1) (evt, sec) = Some ?c" by (simp add: update_conv')
  moreover have "last_state ?c = last_state c" by (simp add: record_state_def)
  ultimately show ?thesis
    using p assms(5) watched
    by (simp add: flush_section_def is_dirty_def flush_def split_beta Let_def subscribers_of_def)
qed

text \<open>
  Cleaning up depends on the snapshot having been sent. A socket whose handler got past
  \<open>connect\<close> is in no set of its sections when the handler ends, and the gauge is back; if sending
  the snapshot raised, the handler ends with the socket still registered in every section and
  counted by the gauge, and nothing will ever remove it.
\<close>

theorem cleanup_needs_snapshot:
  assumes "sec \<in> set (resolve_sections evt (section_list sections) d)"
  shows "w \<notin> subscribers_of (evt, sec) (fst (seat_map_ws True True interim life w evt sections now d h m)) \<and>
    snd (seat_map_ws True True interim life w evt sections now d h m) = m \<and>
    w \<in> subscribers_of (evt, sec) (fst (seat_map_ws True False interim life w evt sections now d h m)) \<and>
    snd (seat_map_ws True False interim life w evt sections now d h m) Ws_connections = m Ws_connections + 1"
proof -
  let ?r = "resolve_sections evt (section_list sections) d"
  obtain h1 where a: "connect True True interim w evt (section_list sections) now d h m =
      (Some (?r, load_snapshot_seats evt ?r now d), h1, inc Ws_connections m)"
    using connect_up [of True interim w evt "section_list sections" now d h m] by auto
  obtain h2 where b: "disconnect True w evt ?r (life h1) (inc Ws_connections m) =
      (h2, set_gauge Ws_connections (inc Ws_connections m Ws_connections - 1) (inc Ws_connections m))"
      "w \<notin> subscribers_of (evt, sec) h2"
    using disconnect_up [of w evt ?r "life h1" "inc Ws_connections m"] assms by blast
  obtain h3 where c: "connect True False interim w evt (section_list sections) now d h m = (None, h3, inc Ws_connections m)"
      "w \<in> subscribers_of (evt, sec) h3"
    using connect_up [of False interim w evt "section_list sections" now d h m] assms by auto
  have "set_gauge Ws_connections (inc Ws_connections m Ws_connections - 1) (inc Ws_connections m) = m"
    by (rule ext) simp
  then show ?thesis using a b c by (simp add: seat_map_ws_def)
qed

text \<open>
  A SUBSCRIBE that failed is not retried. If the first socket of a section joins while Redis
  does not answer, \<open>connect\<close> raises, but the socket stays in the section's set: every later socket
  finds the set nonempty and joins without subscribing, however many come and although Redis is
  back, so none of them is ever sent an update.
\<close>

theorem failed_subscribe_silences_section:
  assumes "subscribers_of k h = {}" "channel_of k \<notin> hb_channels h"
  shows "\<not> fst (add_subscriber False k w h) \<and>
    channel_of k \<notin> hb_channels (fold (\<lambda>w' h'. snd (add_subscriber True k w' h')) ws (snd (add_subscriber False k w h)))"
proof -
  have later: "channel_of k \<notin> hb_channels (fold (\<lambda>w' h'. snd (add_subscriber True k w' h')) ws h')"
    if "subscribers_of k h' \<noteq> {}" "channel_of k \<notin> hb_channels h'" for h'
    using that
  proof (induction ws arbitrary: h')
    case (Cons w' ws)
    have "channel_of k \<notin> hb_channels (snd (add_subscriber True k w' h'))"
      using Cons.prems by (simp add: add_subscriber_def Let_def)
    moreover have "subscribers_of k (snd (add_subscriber True k w' h')) \<noteq> {}"
      by (simp add: subscribers_add)
    ultimately show ?case using Cons.IH by simp
  qed simp
  have "channel_of k \<notin> hb_channels (snd (add_subscriber False k w h))"
    using assms by (simp add: add_subscriber_def Let_def)
  with later [of "snd (add_subscriber False k w h)"] assms(1) show ?thesis
    by (simp add: subscribers_add) (simp add: add_subscriber_def Let_def)
qed

text \<open>
  C17: The seat map agrees with the booking path. In the snapshot a client builds its map from,
  every seat of the requested sections is there with the version of its row, and is shown AVAILABLE
  exactly if acquiring it at that instant would succeed.
\<close>

theorem snapshot_agrees_with_acquisition:
  assumes "schema_ok d" "0 < dur" "r \<in> set (db_seats d)" "sr_event_id r = evt" "sr_section r \<in> set secs"
  shows "\<exists>x res d' m'. seat_map_of (load_snapshot_seats evt secs now d) (sr_id r) = Some x \<and>
    ss_version x = sr_version r \<and>
    pessimistic_acquire None [sr_id r] who dur now d m = (Inr res, d', m') \<and>
    (ss_status x = AVAILABLE \<longleftrightarrow> ar_success res)"
proof -
  let ?e = "snapshot_entry now r"
  have id: "sn_id ?e = sr_id r" "sn_version ?e = sr_version r" by (simp_all add: snapshot_entry_def Let_def)
  have "?e \<in> set (load_snapshot_seats evt secs now d)"
    using assms(3-5) by (auto simp: load_snapshot_seats_def)
  note seen = seat_map_of_at [OF snapshot_ids [OF assms(1)] this, unfolded id]
  have f: "find_seat (sr_id r) d = Some r" using assms(1,3) by (simp add: find_seat_iff)
  have "ar_success (hold_decision [sr_id r] now d) \<longleftrightarrow> sn_status ?e = AVAILABLE"
    by (simp add: hold_decision_success_iff f snapshot_status)
  moreover obtain d' m' where "pessimistic_acquire None [sr_id r] who dur now d m = (Inr (hold_decision [sr_id r] now d), d', m')"
    unfolding pessimistic_result [OF assms(1,2)] by (auto simp: Let_def)
  ultimately show ?thesis using seen by auto
qed

section \<open>Instances\<close>

definition one_socket :: hub where
  "one_socket = snd (add_subscriber True (1, ''S'') 5 empty_hub)"

lemma one_socket_reachable: "hub_step\<^sup>*\<^sup>* empty_hub one_socket"
  unfolding one_socket_def by (rule r_into_rtranclp) (rule hub_step.add)

lemma one_socket_eq: "one_socket = \<lparr>hb_subscribers = [((1, ''S''), {5})],
    hb_coalescers = [((1, ''S''), new_coalescer)], hb_channels = {channel_of (1, ''S'')}\<rparr>"
  by (simp add: one_socket_def add_subscriber_def empty_hub_def subscribers_of_def Let_def)


theorem update_reaches_watchers_witness:
  "\<exists>h1 h2 m'. deliver (channel_name 1 ''S'', \<lparr>su_seat_id = 2, su_status = HELD, su_expires = Some 90, su_version = 4\<rparr>) one_socket = Some h1 \<and>
    flush_section (\<lambda>w. w = 5) (1, ''S'') h1 zero_metrics = (Some \<lparr>bc_key = (1, ''S''),
      bc_diffs = [\<lparr>sd_seat_id = 2, sd_status = HELD, sd_expires = Some 90, sd_version = 4\<rparr>], bc_sent = {5}\<rparr>, h2, m')"
proof -
  have "{w \<in> {5 :: nat}. w = 5} = {5}" by auto
  then show ?thesis
    using update_reaches_watchers [OF one_socket_reachable, of 1 "''S''" new_coalescer "held_at 90 4"
      "\<lparr>su_seat_id = 2, su_status = HELD, su_expires = Some 90, su_version = 4\<rparr>" "\<lambda>w. w = 5" zero_metrics]
    by (auto simp: one_socket_eq is_dirty_def new_coalescer_def differs_def to_diff_def held_at_def subscribers_of_def)
qed

theorem cleanup_needs_snapshot_witness:
  "5 \<in> subscribers_of (1, ''S'') (fst (seat_map_ws True False id id 5 1 ''S'' 100 sample_db empty_hub zero_metrics))"
proof -
  have "''S'' \<in> set (resolve_sections 1 (section_list ''S'') sample_db)"
    by (simp add: resolve_sections_def section_list_def)
  from cleanup_needs_snapshot [OF this] show ?thesis by blast
qed

theorem failed_subscribe_silences_section_witness:
  "channel_of (1, ''S'') \<notin> hb_channels (snd (add_subscriber True (1, ''S'') 6 (snd (add_subscriber False (1, ''S'') 5 empty_hub))))"
  using failed_subscribe_silences_section [of "(1, ''S'')" empty_hub 5 "[6]"]
  by (simp add: empty_hub_def subscribers_of_def)

theorem snapshot_agrees_with_acquisition_witness:
  "\<exists>x. seat_map_of (load_snapshot_seats 1 [''S''] 100 sample_db) 3 = Some x \<and> ss_version x = 1"
proof -
  have "seat_at 3 HELD 1 (Some ''B'') (Some 90) None \<in> set (db_seats sample_db)" by (simp add: sample_db_def)
  from snapshot_agrees_with_acquisition [OF sample_schema _ this, of 60 1 "[''S'']" 100 "''A''" zero_metrics] show ?thesis
    by (auto simp: seat_at_def)
qed

end
