(* ===== verification/Admin.thy ===== *)
theory Admin
  imports Payments Hub
begin

text \<open>
  \<^verbatim>\<open>app/api/routes/admin.py\<close>: the invariant report, the oversell report, the status counts and the
  dashboard. Each reads one snapshot of the database. The samples of the metrics registry come from
  \<open>prometheus_client\<close> and are an argument; their values are added exactly.
\<close>

section \<open>Invariants\<close>

record invariant_result =
  ir_passed :: bool
  ir_detail :: "violation option"

text \<open>\<open>run_check\<close> catches an \<open>InvariantViolation\<close> and nothing else.\<close>

definition run_check :: "exn + unit \<Rightarrow> exn + invariant_result" where
  "run_check c =
     (case c of
        Inr _ \<Rightarrow> Inr \<lparr>ir_passed = True, ir_detail = None\<rparr>
      | Inl (InvariantViolation v) \<Rightarrow> Inr \<lparr>ir_passed = False, ir_detail = Some v\<rparr>
      | Inl e \<Rightarrow> Inl e)"

definition event_seats :: "int \<Rightarrow> db \<Rightarrow> seat_row list" where
  "event_seats evt d = filter (\<lambda>r. sr_event_id r = evt) (db_seats d)"

text \<open>The active rows of \<open>booking_seats\<close> whose seat is one of the event's.\<close>

definition event_active_seat_ids :: "int \<Rightarrow> db \<Rightarrow> int set" where
  "event_active_seat_ids evt d =
     bs_seat_id ` set (filter (\<lambda>b. bs_active b \<and> list_ex (\<lambda>r. sr_id r = bs_seat_id b) (event_seats evt d)) (db_booking_seats d))"

definition compute_invariants :: "event_row \<Rightarrow> db \<Rightarrow> exn + (string \<times> invariant_result) list" where
  "compute_invariants ev d =
     (let seats = map seat_to_domain (event_seats (ev_id ev) d);
          active = event_active_seat_ids (ev_id ev) d
      in bindE (run_check (check_conservation seats (ev_total_seats ev))) (\<lambda>a.
         bindE (run_check (check_no_double_booking seats)) (\<lambda>b.
         bindE (run_check (check_state_coherence seats)) (\<lambda>c.
         bindE (run_check (check_booking_linkage seats active)) (\<lambda>l.
           Inr [(''conservation'', a), (''no_double_booking'', b), (''state_coherence'', c), (''booking_linkage'', l)])))))"

text \<open>None: the event is not there, 404.\<close>

definition get_invariants :: "int \<Rightarrow> db \<Rightarrow> (exn + (string \<times> invariant_result) list \<times> bool) option" where
  "get_invariants evt d =
     (case find_event evt d of
        None \<Rightarrow> None
      | Some ev \<Rightarrow> Some (bindE (compute_invariants ev d) (\<lambda>rs. Inr (rs, list_all (\<lambda>x. ir_passed (snd x)) rs))))"

section \<open>Oversells\<close>

record seat_oversell =
  so_seat_id :: int
  so_distinct_holders :: nat
  so_holders :: "session_id list"

record oversell_report =
  or_seats :: "seat_oversell list"
  or_oversold_seats :: nat
  or_excess_holders :: nat

definition audit_pairs :: "int \<Rightarrow> db \<Rightarrow> (int \<times> session_id) list" where
  "audit_pairs evt d =
     map (\<lambda>a. (ha_seat_id a, ha_session_id a))
       (filter (\<lambda>a. list_ex (\<lambda>r. sr_id r = ha_seat_id a) (event_seats evt d)) (db_hold_audit d))"

definition holders_of :: "int \<Rightarrow> (int \<times> session_id) list \<Rightarrow> session_id list" where
  "holders_of i rows = sort (remdups (map snd (filter (\<lambda>p. fst p = i) rows)))"

definition get_oversell_report :: "int \<Rightarrow> db \<Rightarrow> oversell_report option" where
  "get_oversell_report evt d =
     (case find_event evt d of
        None \<Rightarrow> None
      | Some _ \<Rightarrow>
         (let rows = audit_pairs evt d;
              seats = map (\<lambda>i. \<lparr>so_seat_id = i, so_distinct_holders = length (holders_of i rows), so_holders = holders_of i rows\<rparr>)
                (sort (remdups (map fst rows)))
          in Some \<lparr>or_seats = seats, or_oversold_seats = length (filter (\<lambda>s. 1 < so_distinct_holders s) seats),
                   or_excess_holders = sum_list (map (\<lambda>s. so_distinct_holders s - 1) seats)\<rparr>))"

section \<open>Counts\<close>

record status_counts =
  sc_available :: nat
  sc_held :: nat
  sc_booked :: nat

definition effective_status :: "instant \<Rightarrow> seat_row \<Rightarrow> seat_status" where
  "effective_status now r = (if sr_status r = HELD \<and> expired_sql now r then AVAILABLE else sr_status r)"

definition get_seat_status_counts :: "int \<Rightarrow> instant \<Rightarrow> db \<Rightarrow> status_counts option" where
  "get_seat_status_counts evt now d =
     (case find_event evt d of
        None \<Rightarrow> None
      | Some _ \<Rightarrow>
         (let count = (\<lambda>st. rowcount (\<lambda>r. effective_status now r = st) (event_seats evt d))
          in Some \<lparr>sc_available = count AVAILABLE, sc_held = count HELD, sc_booked = count BOOKED\<rparr>))"

section \<open>Dashboard\<close>

record 'v sample =
  sm_name :: string
  sm_labels :: "(string \<times> string) list"
  sm_value :: 'v

fun gauge_value :: "'v :: comm_monoid_add sample list \<Rightarrow> string \<Rightarrow> 'v" where
  "gauge_value [] n = 0"
| "gauge_value (s # ss) n = (if sm_name s = n then sm_value s else gauge_value ss n)"

definition counter_total :: "'v :: comm_monoid_add sample list \<Rightarrow> string \<Rightarrow> 'v" where
  "counter_total ss n = sum_list (map sm_value (filter (\<lambda>s. sm_name s = n) ss))"

definition counter_by_label :: "'v :: comm_monoid_add sample list \<Rightarrow> string \<Rightarrow> string \<Rightarrow> (string \<times> 'v) list" where
  "counter_by_label ss n label =
     fold (\<lambda>s result.
        if sm_name s = n
        then (case map_of (sm_labels s) label of
                None \<Rightarrow> result
              | Some key \<Rightarrow>
                  AList.update key ((case map_of result key of None \<Rightarrow> 0 | Some v \<Rightarrow> v) + sm_value s) result)
        else result) ss []"

definition histogram_count_and_sum :: "'v :: comm_monoid_add sample list \<Rightarrow> string \<Rightarrow> 'v \<times> 'v" where
  "histogram_count_and_sum ss n = (counter_total ss (n @ ''_count''), counter_total ss (n @ ''_sum''))"

record 'v dashboard =
  dm_invariants :: "(string \<times> invariant_result) list option"
  dm_sweeper_backlog :: 'v
  dm_lock_wait_seconds_count :: 'v
  dm_lock_wait_seconds_sum :: 'v
  dm_deadlocks_total :: 'v
  dm_lock_timeouts_total :: 'v
  dm_optimistic_conflicts_total :: 'v
  dm_optimistic_retries_total :: 'v
  dm_optimistic_exhausted_total :: 'v
  dm_reconciliation_divergence_by_kind :: "(string \<times> 'v) list"
  dm_reconciliation_transient_by_kind :: "(string \<times> 'v) list"

definition dashboard_of :: "'v :: comm_monoid_add sample list \<Rightarrow> (string \<times> invariant_result) list option \<Rightarrow> 'v dashboard" where
  "dashboard_of samples invariants =
     \<lparr>dm_invariants = invariants,
      dm_sweeper_backlog = gauge_value samples ''sweeper_backlog'',
      dm_lock_wait_seconds_count = fst (histogram_count_and_sum samples ''lock_wait_seconds''),
      dm_lock_wait_seconds_sum = snd (histogram_count_and_sum samples ''lock_wait_seconds''),
      dm_deadlocks_total = counter_total samples ''deadlocks_total'',
      dm_lock_timeouts_total = counter_total samples ''lock_timeouts_total'',
      dm_optimistic_conflicts_total = counter_total samples ''optimistic_conflicts_total'',
      dm_optimistic_retries_total = counter_total samples ''optimistic_retries_total'',
      dm_optimistic_exhausted_total = counter_total samples ''optimistic_exhausted_total'',
      dm_reconciliation_divergence_by_kind = counter_by_label samples ''reconciliation_divergence_total'' ''kind'',
      dm_reconciliation_transient_by_kind = counter_by_label samples ''reconciliation_transient_total'' ''kind''\<rparr>"

definition get_dashboard :: "int option \<Rightarrow> 'v :: comm_monoid_add sample list \<Rightarrow> db \<Rightarrow> (exn + 'v dashboard) option" where
  "get_dashboard evt samples d =
     (case evt of
        None \<Rightarrow> Some (Inr (dashboard_of samples None))
      | Some i \<Rightarrow>
         (case find_event i d of
            None \<Rightarrow> None
          | Some ev \<Rightarrow> Some (bindE (compute_invariants ev d) (\<lambda>rs. Inr (dashboard_of samples (Some rs))))))"

section \<open>Facts\<close>

lemma forE_catches: "(\<And>x. x \<in> set xs \<Longrightarrow> \<exists>r. run_check (f x) = Inr r) \<Longrightarrow> \<exists>r. run_check (forE f xs) = Inr r"
proof (induction xs)
  case (Cons x xs)
  then obtain r where r: "run_check (f x) = Inr r" by force
  show ?case
  proof (cases "f x")
    case (Inl e)
    with r show ?thesis by auto
  next
    case (Inr u)
    with Cons show ?thesis by simp
  qed
qed (simp add: run_check_def)

lemma run_check_simps [simp]:
  "run_check (Inr u) = Inr \<lparr>ir_passed = True, ir_detail = None\<rparr>"
  "run_check (Inl (InvariantViolation v)) = Inr \<lparr>ir_passed = False, ir_detail = Some v\<rparr>"
  by (simp_all add: run_check_def)

text \<open>No check raises anything but an \<open>InvariantViolation\<close>, so every check reports.\<close>

lemma check_dup_catches: "\<exists>r. run_check (check_dup seen ss) = Inr r"
  by (induction ss arbitrary: seen) auto

lemma checks_catch:
  "\<exists>r. run_check (check_conservation ss n) = Inr r" "\<exists>r. run_check (check_no_double_booking ss) = Inr r"
  "\<exists>r. run_check (check_state_coherence ss) = Inr r" "\<exists>r. run_check (check_booking_linkage ss a) = Inr r"
proof -
  show "\<exists>r. run_check (check_conservation ss n) = Inr r" by (simp add: check_conservation_def Let_def)
  show "\<exists>r. run_check (check_no_double_booking ss) = Inr r"
    unfolding check_no_double_booking_def by (rule check_dup_catches)
  have "\<exists>r. run_check (check_seat_coherence s) = Inr r" for s
    by (cases "status s") (simp_all add: check_seat_coherence_def)
  then show "\<exists>r. run_check (check_state_coherence ss) = Inr r"
    unfolding check_state_coherence_def by (rule forE_catches)
  have "\<exists>r. run_check (check_seat_linkage a s) = Inr r" for s
    by (simp add: check_seat_linkage_def Let_def)
  then show "\<exists>r. run_check (check_booking_linkage ss a) = Inr r"
    unfolding check_booking_linkage_def by (rule forE_catches)
qed

lemma run_check_passed: "run_check c = Inr r \<Longrightarrow> ir_passed r \<longleftrightarrow> c = Inr ()"
  by (auto simp: run_check_def split: sum.splits exn.splits)

lemma compute_invariants_passed:
  "\<exists>rs. compute_invariants ev d = Inr rs \<and> map fst rs = [''conservation'', ''no_double_booking'', ''state_coherence'', ''booking_linkage''] \<and>
    (list_all (\<lambda>x. ir_passed (snd x)) rs \<longleftrightarrow>
      (let seats = map seat_to_domain (event_seats (ev_id ev) d) in
       check_conservation seats (ev_total_seats ev) = Inr () \<and> check_no_double_booking seats = Inr () \<and>
       check_state_coherence seats = Inr () \<and> check_booking_linkage seats (event_active_seat_ids (ev_id ev) d) = Inr ()))"
proof -
  let ?seats = "map seat_to_domain (event_seats (ev_id ev) d)"
  obtain a b c l where r: "run_check (check_conservation ?seats (ev_total_seats ev)) = Inr a"
    "run_check (check_no_double_booking ?seats) = Inr b" "run_check (check_state_coherence ?seats) = Inr c"
    "run_check (check_booking_linkage ?seats (event_active_seat_ids (ev_id ev) d)) = Inr l"
    using checks_catch by metis
  note p = r [THEN run_check_passed]
  from r show ?thesis by (simp add: compute_invariants_def Let_def p)
qed

text \<open>On the seats of one event, its active seats and all active seats make the same linkage.\<close>

lemma event_linkage:
  "check_booking_linkage (map seat_to_domain (event_seats evt d)) (event_active_seat_ids evt d) =
    check_booking_linkage (map seat_to_domain (event_seats evt d)) (active_seat_ids d)"
proof -
  have "sr_id r \<in> event_active_seat_ids evt d \<longleftrightarrow> sr_id r \<in> active_seat_ids d" if "r \<in> set (event_seats evt d)" for r
    using that by (fastforce simp: event_active_seat_ids_def active_seat_ids_def list_ex_iff)
  then have "check_seat_linkage (event_active_seat_ids evt d) s = check_seat_linkage (active_seat_ids d) s"
    if "s \<in> set (map seat_to_domain (event_seats evt d))" for s
    using that by (auto simp: check_seat_linkage_def)
  then have "forE (check_seat_linkage (event_active_seat_ids evt d)) xs = forE (check_seat_linkage (active_seat_ids d)) xs"
    if "set xs \<subseteq> set (map seat_to_domain (event_seats evt d))" for xs
    using that by (induction xs) auto
  then show ?thesis by (simp add: check_booking_linkage_def)
qed

lemma all_passed_iff:
  assumes "schema_ok d" "find_event evt d = Some ev"
  shows "\<exists>rs. get_invariants evt d = Some (Inr (rs,
      int (length (event_seats evt d)) = ev_total_seats ev \<and> (\<forall>r \<in> set (event_seats evt d). row_coherent r) \<and>
      check_booking_linkage (map seat_to_domain (event_seats evt d)) (active_seat_ids d) = Inr ()))"
proof -
  have id: "ev_id ev = evt" using assms(2) by (auto simp: find_event_def dest: by_key_SomeD)
  have "distinct (map sr_id (event_seats evt d))"
    using assms(1) by (simp add: event_seats_def schema_ok_iff distinct_map_filter)
  then have "distinct (map seat_id (map seat_to_domain (event_seats evt d)))" by (simp add: comp_def)
  moreover obtain rs where "compute_invariants ev d = Inr rs" "list_all (\<lambda>x. ir_passed (snd x)) rs \<longleftrightarrow>
      (let seats = map seat_to_domain (event_seats evt d) in
       check_conservation seats (ev_total_seats ev) = Inr () \<and> check_no_double_booking seats = Inr () \<and>
       check_state_coherence seats = Inr () \<and> check_booking_linkage seats (event_active_seat_ids evt d) = Inr ())"
    using compute_invariants_passed [of ev d] id by auto
  ultimately show ?thesis
    using assms(2)
    by (simp add: get_invariants_def event_linkage check_conservation_iff check_no_double_booking_iff
        check_state_coherence_iff row_coherent_def Let_def)
qed

end
