(* ===== verification/Admin_Properties.thy ===== *)
theory Admin_Properties
  imports Admin Payments_Facts Strategy_Properties
begin

text \<open>
  What the admin endpoints report, and what they cannot see.
\<close>

lemma event_seats_linkage:
  assumes "linkage_ok d"
  shows "check_booking_linkage (map seat_to_domain (event_seats evt d)) (active_seat_ids d) = Inr ()"
  using assms by (auto simp: check_booking_linkage_iff linkage_ok_iff event_seats_def)

text \<open>On a healthy database the report passes as soon as the event has as many seats as it says.\<close>

lemma healthy_report:
  assumes "healthy d" "find_event evt d = Some ev"
  shows "\<exists>rs. get_invariants evt d = Some (Inr (rs, int (length (event_seats evt d)) = ev_total_seats ev))"
proof -
  have "\<forall>r \<in> set (event_seats evt d). row_coherent r"
    using assms(1) by (simp add: healthy_def seats_coherent_iff event_seats_def)
  with all_passed_iff [OF _ assms(2)] event_seats_linkage [of d evt] assms(1) show ?thesis
    by (simp add: healthy_def)
qed

lemma event_seats_places:
  assumes "map seat_place (db_seats d') = map seat_place (db_seats d)"
  shows "length (event_seats evt d') = length (event_seats evt d)"
proof -
  have "length (event_seats evt x) = length (filter (\<lambda>p. fst p = evt) (map seat_place (db_seats x)))" for x
    by (simp add: event_seats_def filter_map comp_def seat_place_def)
  then show ?thesis using assms by metis
qed

lemma length_filter_pos: "0 < length (filter P xs) \<longleftrightarrow> (\<exists>x \<in> set xs. P x)"
  by (induction xs) auto

section \<open>Properties\<close>

text \<open>
  The invariants cannot see the naive strategy's oversell, the audit trail can. After two naive
  acquisitions of the same AVAILABLE seats have raced, the invariant report of the event still
  passes on all four counts, while the oversell report counts the seat with both of its holders.
\<close>

theorem oversell_shows_only_in_the_audit:
  assumes "healthy d" "0 < dur" "h1 \<noteq> h2" "find_event evt d = Some ev"
    and "int (length (event_seats evt d)) = ev_total_seats ev"
    and "\<forall>i \<in> set ids. \<exists>r. find_seat i d = Some r \<and> sr_status r = AVAILABLE"
    and "s \<in> set ids" "find_seat s d = Some row" "sr_event_id row = evt"
  shows "\<exists>r1 d1 r2 d2 rs rep. naive_acquire id ids h1 dur now d m = (Inr r1, d1, m) \<and> ar_success r1 \<and>
    naive_acquire (\<lambda>_. d1) ids h2 dur now d m = (Inr r2, d2, m) \<and> ar_success r2 \<and>
    get_invariants evt d2 = Some (Inr (rs, True)) \<and>
    get_oversell_report evt d2 = Some rep \<and> 0 < or_oversold_seats rep \<and>
    (\<exists>x \<in> set (or_seats rep). so_seat_id x = s \<and> {h1, h2} \<subseteq> set (so_holders x))"
proof -
  let ?held = "held_db ids (dict_keys ids) h2 (now + dur) (db_clock d) now d"
  have h: "schema_ok d" "seats_coherent d" "linkage_ok d" using assms(1) by (simp_all add: healthy_def)
  obtain d1 d2 where race: "naive_acquire id ids h1 dur now d m = (Inr (acquired_result (dict_keys ids) 1), d1, m)"
    "naive_acquire (\<lambda>_. d1) ids h2 dur now d m = (Inr (acquired_result (dict_keys ids) 1), d2, m)"
    "d2 = ?held\<lparr>db_hold_audit := db_hold_audit d @ audit_rows (dict_keys ids) h1 now @ audit_rows (dict_keys ids) h2 now\<rparr>"
    using naive_race [OF h(1,2) assms(2,6)] by blast
  have rec: "\<forall>i \<in> set ids. \<exists>r. find_seat i d = Some r \<and> reclaimable_sql now r"
    using assms(6) by (fastforce simp: reclaimable_sql_def)
  have "schema_ok d2"
    using held_db_schema_ok [OF h(1)] by (simp add: race(3) schema_ok_iff one_active_booking_per_seat_def)
  moreover have "seats_coherent d2"
    using held_db_coherent [OF h(2) rec h(1)] by (simp add: race(3) seats_coherent_def)
  moreover have "linkage_ok d2"
    using held_db_linkage [OF h(3) rec h(1)] linkage_cong [of d2 ?held] by (simp add: race(3))
  ultimately have ok2: "healthy d2" by (simp add: healthy_def)
  have ev2: "find_event evt d2 = Some ev" using assms(4) by (simp add: race(3) find_event_def)
  have "map seat_place (db_seats d2) = map seat_place (db_seats d)"
    by (simp add: race(3) map_upd_where seat_place_def)
  then have "int (length (event_seats evt d2)) = ev_total_seats ev"
    using assms(5) event_seats_places by metis
  then obtain rs where rs: "get_invariants evt d2 = Some (Inr (rs, True))"
    using healthy_report [OF ok2 ev2] by auto
  have seat2: "find_seat s d2 = Some (hold_row h2 (now + dur) (db_clock d) row)"
  proof -
    have "find_seat s d2 = find_seat s ?held" by (simp add: race(3) find_seat_def)
    then show ?thesis using assms(7,8) by (simp add: held_db_find_seat)
  qed
  have pair: "(s, x) \<in> set (audit_pairs evt d2)" if "x \<in> {h1, h2}" for x
  proof -
    have "hold_row h2 (now + dur) (db_clock d) row \<in> set (event_seats evt d2)"
      using find_seat_SomeD [OF seat2] assms(9) by (simp add: event_seats_def)
    moreover have "sr_id (hold_row h2 (now + dur) (db_clock d) row) = s" using find_seat_SomeD [OF seat2] by simp
    ultimately have "\<exists>r \<in> set (event_seats evt d2). sr_id r = s" by blast
    moreover have "\<lparr>ha_seat_id = s, ha_session_id = x, ha_acquired_at = now\<rparr> \<in> set (db_hold_audit d2)"
      using assms(7) that by (auto simp: race(3) audit_rows_def)
    ultimately show ?thesis
      unfolding audit_pairs_def set_map
      by (intro image_eqI [of _ _ "\<lparr>ha_seat_id = s, ha_session_id = x, ha_acquired_at = now\<rparr>"]) (auto simp: list_ex_iff)
  qed
  let ?hs = "holders_of s (audit_pairs evt d2)"
  have hs: "{h1, h2} \<subseteq> set ?hs" using pair by (force simp: holders_of_def)
  have "card {h1, h2} \<le> card (set ?hs)" using hs by (intro card_mono) simp_all
  then have two: "1 < length ?hs" using assms(3) card_length [of ?hs] by simp
  have "s \<in> set (map fst (audit_pairs evt d2))" using pair [of h1] by force
  then have "\<exists>rep. get_oversell_report evt d2 = Some rep \<and> 0 < or_oversold_seats rep \<and>
      (\<exists>x \<in> set (or_seats rep). so_seat_id x = s \<and> {h1, h2} \<subseteq> set (so_holders x))"
  proof -
    let ?entry = "\<lambda>i. \<lparr>so_seat_id = i, so_distinct_holders = length (holders_of i (audit_pairs evt d2)),
      so_holders = holders_of i (audit_pairs evt d2)\<rparr>"
    assume "s \<in> set (map fst (audit_pairs evt d2))"
    then have e: "?entry s \<in> set (map ?entry (sort (remdups (map fst (audit_pairs evt d2)))))" by simp
    moreover from e two have "0 < length (filter (\<lambda>x. 1 < so_distinct_holders x)
        (map ?entry (sort (remdups (map fst (audit_pairs evt d2))))))"
      unfolding length_filter_pos by (intro bexI [of _ "?entry s"]) simp_all
    ultimately show ?thesis
      using hs ev2 by (auto simp: get_oversell_report_def Let_def simp del: set_map intro!: bexI [of _ "?entry s"])
  qed
  with race(1,2) rs show ?thesis by (fastforce simp: acquired_result_def)
qed

text \<open>
  The status counts are what a buyer can get. The three counts add up to the event's seats, and
  the seats counted available are exactly those a single-seat acquisition would win at that instant.
\<close>

theorem counts_agree_with_acquisition:
  assumes "schema_ok d" "find_event evt d = Some ev" "0 < dur"
  shows "\<exists>c. get_seat_status_counts evt now d = Some c \<and>
    sc_available c + sc_held c + sc_booked c = length (event_seats evt d) \<and>
    sc_available c = rowcount (\<lambda>r. \<exists>res d' m'. pessimistic_acquire None [sr_id r] who dur now d m = (Inr res, d', m') \<and> ar_success res)
      (event_seats evt d)"
proof -
  have sum: "rowcount (\<lambda>r. effective_status now r = AVAILABLE) rs + rowcount (\<lambda>r. effective_status now r = HELD) rs +
      rowcount (\<lambda>r. effective_status now r = BOOKED) rs = length rs" for rs
  proof (induction rs)
    case (Cons r rs)
    then show ?case by (cases "effective_status now r") simp_all
  qed simp
  have win: "(\<exists>res d' m'. pessimistic_acquire None [sr_id r] who dur now d m = (Inr res, d', m') \<and> ar_success res) \<longleftrightarrow>
      effective_status now r = AVAILABLE" if "r \<in> set (event_seats evt d)" for r
  proof -
    have "find_seat (sr_id r) d = Some r" using that assms(1) by (simp add: event_seats_def find_seat_iff)
    then have "ar_success (hold_decision [sr_id r] now d) \<longleftrightarrow> effective_status now r = AVAILABLE"
      by (auto simp: hold_decision_success_iff effective_status_def reclaimable_sql_def)
    then show ?thesis unfolding pessimistic_result [OF assms(1,3)] by (auto simp: Let_def)
  qed
  have "rowcount (\<lambda>r. effective_status now r = AVAILABLE) (event_seats evt d) =
      rowcount (\<lambda>r. \<exists>res d' m'. pessimistic_acquire None [sr_id r] who dur now d m = (Inr res, d', m') \<and> ar_success res)
        (event_seats evt d)"
    unfolding rowcount_def by (rule arg_cong [of _ _ length]) (rule filter_cong [OF refl], rule win [symmetric])
  moreover note sum [of "event_seats evt d"]
  ultimately show ?thesis using assms(2) by (simp add: get_seat_status_counts_def Let_def)
qed

section \<open>Instances\<close>

lemma sample_healthy [simp]: "healthy sample_db"
  by (simp add: healthy_def)

lemma sample_event:
  "\<exists>ev. find_event 1 sample_db = Some ev \<and> int (length (event_seats 1 sample_db)) = ev_total_seats ev"
  by (simp add: find_event_def event_seats_def sample_defs)

theorem oversell_shows_only_in_the_audit_witness:
  "\<exists>d2 rs rep. get_invariants 1 d2 = Some (Inr (rs, True)) \<and> get_oversell_report 1 d2 = Some rep \<and> 0 < or_oversold_seats rep"
proof -
  obtain ev where ev: "find_event 1 sample_db = Some ev" "int (length (event_seats 1 sample_db)) = ev_total_seats ev"
    using sample_event by blast
  have "\<forall>i \<in> set [1]. \<exists>r. find_seat i sample_db = Some r \<and> sr_status r = AVAILABLE" by simp
  from oversell_shows_only_in_the_audit [OF sample_healthy _ _ ev this _ sample_find_seat(1), of 60 "''A''" "''B''" 100 zero_metrics]
  show ?thesis by auto
qed

theorem counts_agree_with_acquisition_witness:
  "\<exists>c. get_seat_status_counts 1 100 sample_db = Some c \<and> sc_available c + sc_held c + sc_booked c = 4"
proof -
  obtain ev where ev: "find_event 1 sample_db = Some ev" using sample_event by blast
  have "length (event_seats 1 sample_db) = 4" by (simp add: event_seats_def sample_defs)
  with counts_agree_with_acquisition [OF sample_schema ev, of 60 100 "''A''" zero_metrics] show ?thesis by auto
qed

end
