(* ===== verification/Demo.thy ===== *)
theory Demo
  imports Admin_Properties
begin

text \<open>
  \<^verbatim>\<open>app/api/routes/demo.py\<close>: the walkthrough's backend. A race fires \<open>concurrency\<close> acquisitions of
  one seat at once; the other routes reset seats, take a short hold and show the seats with their
  lazy expiry.

  How the attempts of a race interleave is an argument, \<open>overlap\<close>: for each attempt, whether the
  attempts after it run inside its window, between its read and its write, or after it has ended.
  With every flag set all attempts read before any of them writes, which is what the barrier is
  there for; with none set they run one after the other.
\<close>

section \<open>Requests\<close>

datatype demo_exn =
    NotFound
  | ConcurrencyOutOfRange
  | HoldRefused "reason option"
  | DemoRaised raised

fun demo_status :: "demo_exn \<Rightarrow> int" where
  "demo_status NotFound = 404"
| "demo_status ConcurrencyOutOfRange = 422"
| "demo_status (HoldRefused why) = 409"
| "demo_status (DemoRaised x) = exception_status x"

text \<open>The gate in front of every route, and the event look-up behind it.\<close>

definition require_demo_mode :: "settings \<Rightarrow> demo_exn + unit" where
  "require_demo_mode cfg = (if cfg_demo_mode cfg then Inr () else Inl NotFound)"

definition get_event_or_404 :: "int \<Rightarrow> db \<Rightarrow> demo_exn + event_row" where
  "get_event_or_404 evt d = (case find_event evt d of None \<Rightarrow> Inl NotFound | Some ev \<Rightarrow> Inr ev)"

record invariant_summary =
  is_results :: "(string \<times> invariant_result) list"
  is_checked_count :: nat
  is_total_count :: nat
  is_unchecked :: "string list"

definition summarize_invariants :: "(string \<times> invariant_result) list \<Rightarrow> invariant_summary" where
  "summarize_invariants rs =
     \<lparr>is_results = rs, is_checked_count = length rs, is_total_count = 5, is_unchecked = [''I3'', ''I4'', ''I5'']\<rparr>"

definition invariants_of :: "event_row \<Rightarrow> db \<Rightarrow> demo_exn + invariant_summary" where
  "invariants_of ev d =
     (case compute_invariants ev d of
        Inl x \<Rightarrow> Inl (DemoRaised (RaisedPy x))
      | Inr rs \<Rightarrow> Inr (summarize_invariants rs))"

section \<open>Resets\<close>

text \<open>
  The columns both resets set; \<open>updated_at\<close> follows by its \<open>onupdate\<close>. Neither touches
  \<open>booking_seats\<close> or \<open>bookings\<close>.
\<close>

definition reset_row :: "instant \<Rightarrow> seat_row \<Rightarrow> seat_row" where
  "reset_row clock r =
     r\<lparr>sr_status := AVAILABLE, sr_version := 0, sr_held_by := None, sr_expires := None,
       sr_booking_id := None, sr_updated_at := clock\<rparr>"

definition reset_where :: "(seat_row \<Rightarrow> bool) \<Rightarrow> db \<Rightarrow> db" where
  "reset_where P d = d\<lparr>db_seats := upd_where P (reset_row (db_clock d)) (db_seats d)\<rparr>"

definition reset_event :: "settings \<Rightarrow> int \<Rightarrow> db \<Rightarrow> (demo_exn + int \<times> nat) \<times> db" where
  "reset_event cfg evt d =
     (case bindE (require_demo_mode cfg) (\<lambda>_. get_event_or_404 evt d) of
        Inl x \<Rightarrow> (Inl x, d)
      | Inr ev \<Rightarrow> (Inr (evt, rowcount (\<lambda>r. sr_event_id r = evt) (db_seats d)),
                  reset_where (\<lambda>r. sr_event_id r = evt) d))"

section \<open>The race\<close>

datatype attempt_outcome = Acquired | Rejected | Errored

datatype attempt_reason = Refusal reason | Escaped acquire_exn

record attempt_result =
  at_session_id :: session_id
  at_outcome :: attempt_outcome
  at_latency :: timedelta
  at_attempts :: nat
  at_reason :: "attempt_reason option"

definition run_one_attempt :: "strategy \<Rightarrow> acquire_env \<Rightarrow> timedelta \<Rightarrow> int \<Rightarrow> session_id \<Rightarrow> timedelta \<Rightarrow> instant \<Rightarrow>
    db \<Rightarrow> metrics \<Rightarrow> attempt_result \<times> db \<times> metrics" where
  "run_one_attempt s e latency seat holder dur now d m =
     (case acquire s e [seat] holder dur now d m of
        (Inl x, d', m') \<Rightarrow>
          (\<lparr>at_session_id = holder, at_outcome = Errored, at_latency = latency, at_attempts = 1,
            at_reason = Some (Escaped x)\<rparr>, d', m')
      | (Inr r, d', m') \<Rightarrow>
          (if ar_success r
           then \<lparr>at_session_id = holder, at_outcome = Acquired, at_latency = latency,
                 at_attempts = ar_attempts r, at_reason = None\<rparr>
           else \<lparr>at_session_id = holder, at_outcome = Rejected, at_latency = latency,
                 at_attempts = ar_attempts r, at_reason = map_option Refusal (ar_reason r)\<rparr>, d', m'))"

text \<open>
  \<open>gather\<close> over the attempts, in the order of their holders. An attempt whose window the others
  run in finds their database \<open>d1\<close> when it writes; if it ends before its window opens it changes
  nothing and the others' database stands.
\<close>

definition window_env :: "acquire_env \<Rightarrow> db \<Rightarrow> acquire_env" where
  "window_env e d1 = e\<lparr>ae_race := \<lambda>_ _. d1, ae_gap := \<lambda>_. id\<rparr>"

fun gather_attempts :: "strategy \<Rightarrow> acquire_env \<Rightarrow> (session_id \<Rightarrow> timedelta) \<Rightarrow> int \<Rightarrow> timedelta \<Rightarrow> instant \<Rightarrow>
    (session_id \<times> bool) list \<Rightarrow>
    db \<Rightarrow> metrics \<Rightarrow> attempt_result list \<times> db \<times> metrics" where
  "gather_attempts s e latency seat dur now [] d m = ([], d, m)"
| "gather_attempts s e latency seat dur now ((h, overlap) # hs) d m =
     (if overlap
      then (let (rs, d1, m1) = gather_attempts s e latency seat dur now hs d m;
                (a, d2, m2) = run_one_attempt s (window_env e d1) (latency h) seat h dur now d m1
            in (a # rs, if d2 = d then d1 else d2, m2))
      else (let (a, d1, m1) = run_one_attempt s (undisturbed e) (latency h) seat h dur now d m;
                (rs, d2, m2) = gather_attempts s e latency seat dur now hs d1 m1
            in (a # rs, d2, m2)))"

record race_request =
  rq_event_id :: int
  rq_seat_id :: int
  rq_concurrency :: int
  rq_strategy :: strategy

record race_response =
  rp_attempts :: "attempt_result list"
  rp_successful_holders :: nat
  rp_excess_holders :: nat
  rp_invariants :: invariant_summary

definition successes :: "attempt_result list \<Rightarrow> nat" where
  "successes rs = length (filter (\<lambda>a. at_outcome a = Acquired) rs)"

definition race_holders :: "nat \<Rightarrow> session_id list" where
  "race_holders n = map (\<lambda>i. ''race-'' @ nat_dec i) [0..<n]"

text \<open>The seat is reset, in a transaction of its own, then the attempts are fired.\<close>

definition fire :: "settings \<Rightarrow> acquire_env \<Rightarrow> (session_id \<Rightarrow> bool) \<Rightarrow> (session_id \<Rightarrow> timedelta) \<Rightarrow> race_request \<Rightarrow> instant \<Rightarrow>
    db \<Rightarrow> metrics \<Rightarrow> attempt_result list \<times> db \<times> metrics" where
  "fire cfg e overlap latency q now d m =
     gather_attempts (rq_strategy q) (e\<lparr>ae_max_attempts := cfg_optimistic_max_attempts cfg\<rparr>) latency
       (rq_seat_id q) (cfg_demo_default_hold_duration cfg) now
       (map (\<lambda>h. (h, overlap h)) (race_holders (nat (rq_concurrency q))))
       (reset_where (\<lambda>r. sr_id r = rq_seat_id q \<and> sr_event_id r = rq_event_id q) d) m"

definition run_race :: "settings \<Rightarrow> acquire_env \<Rightarrow> (session_id \<Rightarrow> bool) \<Rightarrow> (session_id \<Rightarrow> timedelta) \<Rightarrow> race_request \<Rightarrow> instant \<Rightarrow>
    db \<Rightarrow> metrics \<Rightarrow> (demo_exn + race_response) \<times> db \<times> metrics" where
  "run_race cfg e overlap latency q now d m =
     (case bindE (require_demo_mode cfg) (\<lambda>_.
           if 2 \<le> rq_concurrency q \<and> rq_concurrency q \<le> 100 then get_event_or_404 (rq_event_id q) d
           else Inl ConcurrencyOutOfRange) of
        Inl x \<Rightarrow> (Inl x, d, m)
      | Inr ev \<Rightarrow>
         (let (rs, d1, m1) = fire cfg e overlap latency q now d m; n = successes rs
          in (bindE (invariants_of ev d1) (\<lambda>inv.
                Inr \<lparr>rp_attempts = rs, rp_successful_holders = n, rp_excess_holders = n - 1, rp_invariants = inv\<rparr>),
              d1, m1)))"

section \<open>State and holds\<close>

record demo_seat =
  ds_row :: seat_row
  ds_bookable :: bool

text \<open>\<open>is_hold_expired\<close> on a stored row: its instants carry a time zone, so it does not raise.\<close>

definition bookable :: "instant \<Rightarrow> seat_row \<Rightarrow> bool" where
  "bookable now r \<longleftrightarrow> sr_status r = AVAILABLE \<or>
     (sr_status r = HELD \<and> is_hold_expired (seat_to_domain r) (Aware now) = Inr True)"

definition get_demo_state :: "settings \<Rightarrow> int \<Rightarrow> instant \<Rightarrow> db \<Rightarrow> demo_exn + demo_seat list \<times> invariant_summary" where
  "get_demo_state cfg evt now d =
     bindE (require_demo_mode cfg) (\<lambda>_. bindE (get_event_or_404 evt d) (\<lambda>ev.
       bindE (invariants_of ev d) (\<lambda>inv.
         Inr (map (\<lambda>r. \<lparr>ds_row = r, ds_bookable = bookable now r\<rparr>) (event_seats evt d), inv))))"

record demo_hold_request =
  dh_event_id :: int
  dh_seat_id :: int
  dh_session_id :: session_id
  dh_duration :: "timedelta option"

definition create_demo_hold :: "settings \<Rightarrow> acquire_env \<Rightarrow> demo_hold_request \<Rightarrow> instant \<Rightarrow> db \<Rightarrow> redis \<Rightarrow> metrics \<Rightarrow>
    (demo_exn + instant) \<times> db \<times> redis \<times> metrics" where
  "create_demo_hold cfg e q now d r m =
     (case bindE (require_demo_mode cfg) (\<lambda>_. get_event_or_404 (dh_event_id q) d) of
        Inl x \<Rightarrow> (Inl x, d, r, m)
      | Inr ev \<Rightarrow>
         (let dur = (case dh_duration q of Some t \<Rightarrow> t | None \<Rightarrow> cfg_demo_default_hold_duration cfg)
          in case get_strategy (cfg_strategy cfg) of
               Inl x \<Rightarrow> (Inl (DemoRaised (RaisedPy x)), d, r, m)
             | Inr s \<Rightarrow>
                (case acquire s (e\<lparr>ae_max_attempts := cfg_optimistic_max_attempts cfg\<rparr>) [dh_seat_id q]
                        (dh_session_id q) dur now d m of
                   (Inl x, d', m') \<Rightarrow> (Inl (DemoRaised (RaisedByAcquire x)), d', r, m')
                 | (Inr res, d', m') \<Rightarrow>
                     if \<not> ar_success res then (Inl (HoldRefused (ar_reason res)), d', r, m')
                     else (let (r1, m1) = set_hold_mirror (dh_seat_id q) (dh_session_id q) (now + dur) now r m'
                           in (Inr (now + dur), d', r1, m1)))))"

end
