(* ===== verification/Steps.thy ===== *)
theory Steps
  imports Booking_Properties Idempotency_Facts Payments_Properties Sweeper Demo
begin

text \<open>
  The program as a whole: every request and every pass of a background job that commits to the
  database is a step, in any order and with any arguments. A request that is not one transaction
  lets other sessions commit between its own transactions, and within one up to the row locks it
  takes: what they commit is again any number of steps.

  The locale \<open>kept\<close> says what a property of the database has to respect - five kinds of writes - to
  be kept by every step; the theories that follow interpret it.
\<close>

section \<open>Steps\<close>

text \<open>
  \<open>refunds\<close> says whether the payment worker may meet refund events. The naive strategy takes part
  only without interference: with it, it oversells. The resets of the walkthrough are not steps;
  \<open>reset_keeps_links\<close> shows what they break.
\<close>

inductive system_step :: "bool \<Rightarrow> db \<Rightarrow> db \<Rightarrow> bool" for refunds where
  step_hold: "\<forall>k x. (system_step refunds)\<^sup>*\<^sup>* x (ae_race e k x) \<Longrightarrow> \<forall>k x. (system_step refunds)\<^sup>*\<^sup>* x (ae_gap e k x) \<Longrightarrow>
    get_strategy (cfg_strategy cfg) = Inr NaiveStrategy \<longrightarrow> undisturbed e = e \<Longrightarrow>
    create_hold cfg e evt ids session now d r m = (res, d', r', m') \<Longrightarrow> system_step refunds d d'"
| step_demo_hold: "\<forall>k x. (system_step refunds)\<^sup>*\<^sup>* x (ae_race e k x) \<Longrightarrow> \<forall>k x. (system_step refunds)\<^sup>*\<^sup>* x (ae_gap e k x) \<Longrightarrow>
    get_strategy (cfg_strategy cfg) = Inr NaiveStrategy \<longrightarrow> undisturbed e = e \<Longrightarrow>
    create_demo_hold cfg e hq now d r m = (dres, d', r', m') \<Longrightarrow> system_step refunds d d'"
| step_extend: "extend_hold cfg i session now d r m = (reply, d', r', m') \<Longrightarrow> system_step refunds d d'"
| step_create: "\<forall>x. (system_step refunds)\<^sup>*\<^sup>* x (env1 x) \<Longrightarrow> \<forall>x. (system_step refunds)\<^sup>*\<^sup>* x (env2 x) \<Longrightarrow>
    create_booking_route sha cfg env1 env2 path q key now d m = (cres, d', m') \<Longrightarrow> system_step refunds d d'"
| step_confirm: "\<forall>x. (system_step refunds)\<^sup>*\<^sup>* x (env1 x) \<Longrightarrow> \<forall>x. (system_step refunds)\<^sup>*\<^sup>* x (env2 x) \<Longrightarrow>
    \<forall>x. (system_step refunds)\<^sup>*\<^sup>* x (env3 x) \<Longrightarrow>
    confirm_booking_route sha cfg ei env1 env2 env3 path bid session key now d r m = (fres, d', r', m') \<Longrightarrow>
    system_step refunds d d'"
| step_webhook: "receive_payment_webhook hm loads bp cfg body sig now d m = (wres, d', m') \<Longrightarrow> system_step refunds d d'"
| step_payments: "refunds \<or> (\<forall>ev \<in> set (queued_events locked limit d). pe_type ev \<noteq> ''payment.refunded'') \<Longrightarrow>
    process_once rr ei locked limit now d r m = (pres, d', r', m') \<Longrightarrow> system_step refunds d d'"
| step_sweep: "sweep_once locks batch now d r m = (sres, d', r', m') \<Longrightarrow> system_step refunds d d'"
| step_reap: "reap_once lockedk batch timeout now d m = (rres, d', m') \<Longrightarrow> system_step refunds d d'"
| step_time: "system_step refunds d (d\<lparr>db_clock := t\<rparr>)"

section \<open>Bookings only move forward\<close>

text \<open>
  A booking is never removed and its seats never change; its status follows the transitions of
  \<open>booking_step\<close>.
\<close>

definition moves_to :: "booking_status \<Rightarrow> booking_status \<Rightarrow> bool" where
  "moves_to a b \<longleftrightarrow> a = b \<or> a = PENDING \<and> b \<in> {CONFIRMED, REFUNDED, REFUND_REQUIRED} \<or> a = CONFIRMED \<and> b = REFUNDED"

lemma moves_to_refl [simp]: "moves_to a a"
  by (simp add: moves_to_def)

lemma moves_to_trans: "moves_to a b \<Longrightarrow> moves_to b c \<Longrightarrow> moves_to a c"
  by (auto simp: moves_to_def)

definition extends :: "db \<Rightarrow> db \<Rightarrow> bool" where
  "extends d0 d \<longleftrightarrow> (\<forall>i b. find_booking i d0 = Some b \<longrightarrow>
     (\<exists>c. find_booking i d = Some c \<and> br_seat_ids c = br_seat_ids b \<and> moves_to (br_status b) (br_status c)))"

lemma extends_refl [simp]: "extends d d"
  by (simp add: extends_def)

lemma extends_trans:
  assumes "extends d0 d1" "extends d1 d2"
  shows "extends d0 d2"
  unfolding extends_def
proof (intro allI impI)
  fix i b assume "find_booking i d0 = Some b"
  with assms(1) obtain c where c: "find_booking i d1 = Some c" "br_seat_ids c = br_seat_ids b"
    "moves_to (br_status b) (br_status c)" unfolding extends_def by blast
  with assms(2) obtain e where "find_booking i d2 = Some e" "br_seat_ids e = br_seat_ids c"
    "moves_to (br_status c) (br_status e)" unfolding extends_def by blast
  with c moves_to_trans show "\<exists>c. find_booking i d2 = Some c \<and> br_seat_ids c = br_seat_ids b \<and>
    moves_to (br_status b) (br_status c)" by metis
qed

lemma extends_bookings: "db_bookings d' = db_bookings d \<Longrightarrow> extends d0 d' = extends d0 d"
  by (simp add: extends_def find_booking_def)

text \<open>An UPDATE of bookings that moves each row it hits forward.\<close>

lemma extends_upd:
  assumes "db_bookings d' = upd_where P f (db_bookings d)"
    and "\<And>b. br_id (f b) = br_id b" "\<And>b. br_seat_ids (f b) = br_seat_ids b"
    and "\<And>b. P b \<Longrightarrow> moves_to (br_status b) (br_status (f b))"
  shows "extends d d'"
  using assms by (simp add: extends_def find_booking_def by_key_upd_where)

lemma extends_created:
  assumes "create_booking p now d = (res, d')"
  shows "extends d d'"
  using create_booking_db [OF assms] by (auto simp: extends_def find_booking_def)

lemma extends_confirmed: "extends d (confirmed_db bid ids now key d)"
  by (rule extends_upd [OF confirmed_db_sel(3)]) (auto simp: moves_to_def)

lemma extends_refund_required: "extends d (require_refund_db i now d)"
  by (rule extends_upd [OF require_refund_db_sel(7)]) (auto simp: moves_to_def pending_booking_def)

lemma extends_refunded: "extends d (refund_db b REFUNDED now d)"
  by (rule extends_upd [OF refund_db_sel(7)]) (auto simp: moves_to_def pending_booking_def)

section \<open>What a property has to respect\<close>

lemma undisturbed_attempts: "undisturbed e = e \<Longrightarrow> undisturbed (e\<lparr>ae_max_attempts := n\<rparr>) = e\<lparr>ae_max_attempts := n\<rparr>"
  by (cases e) (simp add: undisturbed_def)

definition keeps :: "(db \<Rightarrow> db \<Rightarrow> bool) \<Rightarrow> (db \<Rightarrow> db) \<Rightarrow> bool" where
  "keeps I f \<longleftrightarrow> (\<forall>d0 d. I d0 d \<longrightarrow> I d0 (f d))"

lemma keepsD: "keeps I f \<Longrightarrow> I d0 d \<Longrightarrow> I d0 (f d)"
  by (simp add: keeps_def)

text \<open>
  \<open>Inv d0 d\<close> relates the database of a run to the one the run started from. Its laws, one per kind of
  write: seats that are not sold and do not become so, tables that carry no seat and no booking,
  a new booking, a confirmation, a booking that waits for a refund, and a refund.
\<close>

locale kept =
  fixes Inv :: "db \<Rightarrow> db \<Rightarrow> bool" and refunds :: bool
  assumes base: "Inv d0 d \<Longrightarrow> schema_ok d \<and> seats_coherent d \<and> extends d0 d"
    and again: "Inv d0 d \<Longrightarrow> Inv d d"
    and seats: "Inv d0 d \<Longrightarrow>
      \<forall>r \<in> set (db_seats d). P r \<longrightarrow> row_coherent (f r) \<and> sr_status r \<noteq> BOOKED \<and>
        sr_status (f r) \<noteq> BOOKED \<and> sr_booking_id (f r) = None \<Longrightarrow>
      \<forall>r. seat_place (f r) = seat_place r \<and> sr_id (f r) = sr_id r \<Longrightarrow>
      Inv d0 (d\<lparr>db_seats := upd_where P f (db_seats d)\<rparr>)"
    and frame: "Inv d0 d \<Longrightarrow> schema_ok d' \<Longrightarrow> db_seats d' = db_seats d \<Longrightarrow> db_booking_seats d' = db_booking_seats d \<Longrightarrow>
      db_events d' = db_events d \<Longrightarrow> db_bookings d' = db_bookings d \<Longrightarrow> db_next_booking d' = db_next_booking d \<Longrightarrow> Inv d0 d'"
    and created: "Inv d0 d \<Longrightarrow> create_booking p now d = (res, d') \<Longrightarrow> Inv d0 d'"
    and confirmed: "Inv d0 d \<Longrightarrow> confirmable e bid ids session now key d \<Longrightarrow> find_booking bid d = Some b \<Longrightarrow>
      br_seat_ids b = ids \<Longrightarrow> Inv d0 (confirmed_db bid ids now key d)"
    and refund_required: "Inv d0 d \<Longrightarrow> Inv d0 (require_refund_db i now d)"
    and refunded: "refunds \<Longrightarrow> Inv d0 d \<Longrightarrow> find_booking bid d = Some b \<Longrightarrow> br_status b = CONFIRMED \<Longrightarrow>
      Inv d0 (refund_db b REFUNDED now d)"
begin

lemma schema: "Inv d0 d \<Longrightarrow> schema_ok d"
  using base by blast

lemma coherent_seats: "Inv d0 d \<Longrightarrow> seats_coherent d"
  using base by blast

text \<open>What other sessions commit leaves the seats of a booking as they were read.\<close>

lemma same_seats:
  assumes "keeps Inv env" "Inv d0 d" "find_booking i d = Some b"
  shows "\<exists>c. find_booking i (env d) = Some c \<and> br_seat_ids c = br_seat_ids b"
proof -
  have "extends d (env d)" using base [OF keepsD [OF assms(1) again [OF assms(2)]]] by simp
  with assms(3) show ?thesis unfolding extends_def by blast
qed

subsection \<open>Holds\<close>

lemma held:
  assumes "Inv d0 d" "\<forall>i \<in> set ids. \<exists>row. find_seat i d = Some row \<and> reclaimable_sql now row"
  shows "Inv d0 (held_db ids aud h e t now' d)"
proof -
  let ?d = "d\<lparr>db_seats := upd_where (\<lambda>r. sr_id r \<in> set ids) (hold_row h e t) (db_seats d)\<rparr>"
  have "Inv d0 ?d"
  proof (rule seats [OF assms(1)])
    show "\<forall>r \<in> set (db_seats d). sr_id r \<in> set ids \<longrightarrow> row_coherent (hold_row h e t r) \<and> sr_status r \<noteq> BOOKED \<and>
        sr_status (hold_row h e t r) \<noteq> BOOKED \<and> sr_booking_id (hold_row h e t r) = None"
    proof (intro ballI impI)
      fix r assume r: "r \<in> set (db_seats d)" "sr_id r \<in> set ids"
      from r(1) have "find_seat (sr_id r) d = Some r" using schema [OF assms(1)] by (simp add: find_seat_iff)
      with r(2) assms(2) have "reclaimable_sql now r" by fastforce
      moreover from r(1) coherent_seats [OF assms(1)] have "row_coherent r" by (simp add: seats_coherent_iff)
      ultimately show "row_coherent (hold_row h e t r) \<and> sr_status r \<noteq> BOOKED \<and>
          sr_status (hold_row h e t r) \<noteq> BOOKED \<and> sr_booking_id (hold_row h e t r) = None"
        by (auto simp: row_coherent_def coherent_def reclaimable_sql_def)
    qed
  qed (simp add: seat_place_def)
  then show ?thesis
    by (rule frame) (use assms(1) schema held_db_schema_ok in simp_all)
qed

lemma acquired:
  assumes "Inv d0 d" "s = NaiveStrategy \<longrightarrow> undisturbed e = e"
    and "\<And>k. keeps Inv (ae_race e k)" "\<And>k. keeps Inv (ae_gap e k)"
    and "acquire s e ids h dur now d m = (res, d', m')"
  shows "Inv d0 d'"
proof (cases s)
  case NaiveStrategy
  then have "acquire s (undisturbed e) ids h dur now d m = (res, d', m')" using assms(2,5) by simp
  from configured.changed [OF schema [OF assms(1)] coherent_seats [OF assms(1)] this] held [OF assms(1)] assms(1)
  show ?thesis by (cases "d' = d") auto
next
  case PessimisticStrategy
  let ?d1 = "ae_race e 1 d"
  have i1: "Inv d0 ?d1" using keepsD [OF assms(3,1)] .
  from PessimisticStrategy assms(5) have "pessimistic_acquire (ae_lock_error e) ids h dur now ?d1 m = (res, d', m')" by simp
  from pessimistic.changed [OF schema [OF i1] coherent_seats [OF i1] this] held [OF i1] i1
  show ?thesis by (cases "d' = ?d1") auto
next
  case OptimisticStrategy
  with assms(5) have "optimistic_loop (ae_race e) (ae_gap e) (ae_update_errors e) (ae_max_attempts e) 1 ids h dur now d m =
      (res, d', m')" by (simp add: optimistic_acquire_def)
  from optimistic_loop_outcome_inv [where J = "Inv d0", OF this keepsD [OF assms(3)] keepsD [OF assms(4)] assms(1) schema [of d0]]
  show ?thesis using held by (auto simp: wins_on_def)
qed

lemma hold_step:
  assumes "Inv d0 d" "get_strategy (cfg_strategy cfg) = Inr NaiveStrategy \<longrightarrow> undisturbed e = e"
    and "\<And>k. keeps Inv (ae_race e k)" "\<And>k. keeps Inv (ae_gap e k)"
    and "create_hold cfg e evt ids session now d r m = (res, d', r', m')"
  shows "Inv d0 d'"
proof (cases "get_strategy (cfg_strategy cfg)")
  case (Inl x)
  with assms show ?thesis by (simp add: create_hold_def)
next
  case (Inr s)
  let ?e = "e\<lparr>ae_max_attempts := cfg_optimistic_max_attempts cfg\<rparr>"
  obtain x d1 m1 where a: "acquire s ?e ids session (cfg_hold_duration cfg) now d m = (x, d1, m1)"
    by (metis prod_cases3)
  have "d' = d1" using assms(5) Inr a by (auto simp: create_hold_def Let_def split_beta split: sum.splits if_splits)
  with acquired [OF assms(1) _ _ _ a] assms(2-4) Inr show ?thesis by (simp add: undisturbed_attempts)
qed

lemma demo_hold_step:
  assumes "Inv d0 d" "get_strategy (cfg_strategy cfg) = Inr NaiveStrategy \<longrightarrow> undisturbed e = e"
    and "\<And>k. keeps Inv (ae_race e k)" "\<And>k. keeps Inv (ae_gap e k)"
    and "create_demo_hold cfg e q now d r m = (res, d', r', m')"
  shows "Inv d0 d'"
proof (cases "get_strategy (cfg_strategy cfg)")
  case (Inl x)
  with assms show ?thesis by (auto simp: create_demo_hold_def Let_def split: sum.splits)
next
  case (Inr s)
  let ?e = "e\<lparr>ae_max_attempts := cfg_optimistic_max_attempts cfg\<rparr>"
  let ?dur = "case dh_duration q of Some t \<Rightarrow> t | None \<Rightarrow> cfg_demo_default_hold_duration cfg"
  obtain x d1 m1 where a: "acquire s ?e [dh_seat_id q] (dh_session_id q) ?dur now d m = (x, d1, m1)"
    by (metis prod_cases3)
  have "d' \<in> {d, d1}" using assms(5) Inr a
    by (auto simp: create_demo_hold_def Let_def split_beta split: sum.splits if_splits)
  with acquired [OF assms(1) _ _ _ a] assms(1-4) Inr show ?thesis by (auto simp: undisturbed_attempts)
qed

lemma extend_step:
  assumes "Inv d0 d" "extend_hold cfg i session now d r m = (reply, d', r', m')"
  shows "Inv d0 d'"
proof -
  let ?f = "extend_row (now + cfg_hold_duration cfg) now"
  have "d' = d \<or> d' = d\<lparr>db_seats := upd_where (extend_matches i session now) ?f (db_seats d)\<rparr>"
    using assms(2) by (auto simp: extend_hold_def extend_hold_at_def Let_def split_beta split: list.splits)
  moreover have "Inv d0 (d\<lparr>db_seats := upd_where (extend_matches i session now) ?f (db_seats d)\<rparr>)"
  proof (rule seats [OF assms(1)])
    show "\<forall>r \<in> set (db_seats d). extend_matches i session now r \<longrightarrow> row_coherent (?f r) \<and> sr_status r \<noteq> BOOKED \<and>
        sr_status (?f r) \<noteq> BOOKED \<and> sr_booking_id (?f r) = None"
      using coherent_seats [OF assms(1)]
      by (auto simp: seats_coherent_iff extend_matches_def held_by_sql_def row_coherent_def coherent_def extend_row_def)
  qed (simp add: extend_row_def seat_place_def)
  ultimately show ?thesis using assms(1) by auto
qed

subsection \<open>Idempotency keys\<close>

lemma keys:
  assumes "Inv d0 d" "distinct (map ik_pk ks)"
  shows "Inv d0 (d\<lparr>db_idempotency_keys := ks\<rparr>)"
proof (rule frame [OF assms(1)])
  show "schema_ok (d\<lparr>db_idempotency_keys := ks\<rparr>)"
    using schema [OF assms(1)] assms(2) by (simp add: schema_ok_iff one_active_booking_per_seat_def)
qed simp_all

lemma distinct_keys: "Inv d0 d \<Longrightarrow> distinct (map ik_pk (db_idempotency_keys d))"
  using schema by (simp add: schema_ok_iff)

lemma begin_step:
  assumes "Inv d0 d" "keeps Inv env" "begin_idempotent_request env key u f now ttl st d m = (out, d', m')"
  shows "Inv d0 d'"
proof (cases "find_idem u key d")
  case None
  then have "distinct (map ik_pk (db_idempotency_keys d @ [new_key_row key u f now ttl]))"
    using distinct_keys [OF assms(1)] by (simp add: find_idem_def by_key_None_iff new_key_row_def ik_pk_def)
  with None assms keys show ?thesis by (auto simp: begin_idempotent_request_def)
next
  case (Some r)
  have i1: "Inv d0 (env d)" using keepsD [OF assms(2,1)] .
  have "distinct (map ik_pk (upd_where P (reclaim_row now ttl) (db_idempotency_keys (env d))))" for P
    using distinct_keys [OF i1] by (simp add: map_upd_where reclaim_row_def ik_pk_def)
  with Some assms(1,3) keys [OF i1] show ?thesis
    by (auto simp: begin_idempotent_request_def Let_def split: if_splits idem_status.splits)
qed

lemma complete_step: "Inv d0 d \<Longrightarrow> Inv d0 (complete_idempotent_request key u c b d)"
  unfolding complete_idempotent_request_def
  by (rule keys) (simp_all add: distinct_keys map_upd_where complete_row_def ik_pk_def)

lemma reap_step:
  assumes "Inv d0 d" "reap_once locked batch timeout now d m = (res, d', m')"
  shows "Inv d0 d'"
proof -
  have "ik_pk (reap_row d r) = ik_pk r" for r by (simp add: reap_row_def ik_pk_def split: list.split)
  then show ?thesis
    using assms(2) distinct_keys [OF assms(1)]
    by (auto simp: reap_once_def Let_def map_upd_where intro!: keys [OF assms(1)])
qed

subsection \<open>Bookings\<close>

lemma create_route_step:
  assumes "Inv d0 d" "keeps Inv env1" "keeps Inv env2"
    and "create_booking_route sha cfg env1 env2 path q key now d m = (res, d', m')"
  shows "Inv d0 d'"
proof -
  obtain out d1 m1 where b: "begin_idempotent_request env1 key (cq_user_id q)
      (compute_fingerprint sha ''POST'' path (create_request_json q)) now (cfg_idempotency_key_ttl cfg)
      (cfg_idempotency_stale_timeout cfg) d m = (out, d1, m1)"
    by (metis prod_cases3)
  obtain x d2 where c: "create_booking (create_request_params q key) now (env2 d1) = (x, d2)" by fastforce
  have "Inv d0 d1" using begin_step [OF assms(1,2) b] .
  moreover from this have "Inv d0 d2" using created [OF keepsD [OF assms(3)] c] by blast
  moreover have "d' \<in> {d1, d2} \<or> (\<exists>code body. d' = complete_idempotent_request key (cq_user_id q) code body d2)"
    using assms(4) b c by (auto simp: create_booking_route_def Let_def split: option.splits sum.splits creation_exn.splits)
  ultimately show ?thesis using complete_step by auto
qed

lemma attempt_step:
  assumes "Inv d0 d" "Inv d0 back" "find_booking bid d = Some b" "br_seat_ids b = ids"
    and "attempt_confirm_write e back bid ids session now key d m = (res, d', m')"
  shows "Inv d0 d'"
proof (cases "res = Inr True")
  case True
  note t = attempt_confirm_write_True [OF schema [OF assms(1)] assms(5) [unfolded True]]
  show ?thesis unfolding t(2) by (rule confirmed [OF assms(1) t(1) assms(3,4)])
next
  case False
  with attempt_confirm_write_fails [OF assms(5)] assms(2) show ?thesis by simp
qed

lemma confirm_transaction_step:
  assumes "Inv d0 d" "keeps Inv env" "confirm_booking_transaction e env bid session key now d m = (res, d', m')"
  shows "Inv d0 d'"
proof -
  have i1: "Inv d0 (env d)" using keepsD [OF assms(2,1)] .
  show ?thesis
    using confirm_transaction_cases [OF assms(3)]
  proof (elim disjE exE conjE)
    fix b w assume b: "load_booking bid d = Some b"
      and w: "attempt_confirm_write e (env d) bid (br_seat_ids b) session now (Some key) (env d) m = (w, d', m')"
    from b same_seats [OF assms(2,1)] obtain c where "find_booking bid (env d) = Some c" "br_seat_ids c = br_seat_ids b"
      by (auto simp: load_booking_def)
    then show ?thesis using attempt_step [OF i1 i1 _ _ w] by blast
  qed (use assms(1) in simp)
qed

lemma confirm_route_step:
  assumes "Inv d0 d" "keeps Inv env1" "keeps Inv env2" "keeps Inv env3"
    and "confirm_booking_route sha cfg ei env1 env2 env3 path bid session key now d r m = (res, d', r', m')"
  shows "Inv d0 d'"
proof (cases "load_booking bid d")
  case None
  with assms show ?thesis by (simp add: confirm_booking_route_def)
next
  case (Some b)
  obtain out d1 m1 where bg: "begin_idempotent_request env1 key (br_user_id b)
      (compute_fingerprint sha ''POST'' path (JObj [(''session_id'', JStr session)])) now (cfg_idempotency_key_ttl cfg)
      (cfg_idempotency_stale_timeout cfg) d m = (out, d1, m1)"
    by (metis prod_cases3)
  obtain x d2 m2 where c: "confirm_booking_transaction ei env3 bid session key now (env2 d1) m1 = (x, d2, m2)"
    by (metis prod_cases3)
  have "Inv d0 d1" using begin_step [OF assms(1,2) bg] .
  moreover from this have "Inv d0 d2" using confirm_transaction_step [OF keepsD [OF assms(3)] assms(4) c] by blast
  moreover have "d' \<in> {d1, d2} \<or> (\<exists>code body. d' = complete_idempotent_request key (br_user_id b) code body d2)"
    using assms(5) Some bg c
    by (auto simp: confirm_booking_route_def Let_def split: option.splits sum.splits confirm_exn.splits)
  ultimately show ?thesis using complete_step by auto
qed

subsection \<open>Background passes and payments\<close>

lemma sweep_step:
  assumes "Inv d0 d" "sweep_once locked batch now d r m = (res, d', r', m')"
  shows "Inv d0 d'"
proof -
  note ok = schema [OF assms(1)]
  let ?ids = "set (map sr_id (sweep_rows locked batch now d))"
  have "d' = fst (snd (sweep_once locked batch now d r m))" by (simp add: assms(2))
  then have d': "d' = d\<lparr>db_seats := upd_where (\<lambda>x. sr_id x \<in> ?ids) (free_row (db_clock d)) (db_seats d)\<rparr>"
    by (simp only: sweep_once_db [OF ok])
  have "sr_status r \<noteq> BOOKED" if "r \<in> set (db_seats d)" "sr_id r \<in> ?ids" for r
  proof -
    from that(2) obtain x where "x \<in> set (sweep_rows locked batch now d)" "sr_id x = sr_id r" by auto
    moreover from this sweep_rows_props(1) [OF ok, of locked batch now] have "x \<in> set (db_seats d)" "lapsed_hold now x" by auto
    moreover from this that(1) calculation(2) have "x = r" using ok by (intro keyed_unique [of sr_id]) (simp_all add: schema_ok_iff)
    ultimately show ?thesis by (simp add: lapsed_hold_def)
  qed
  then show ?thesis unfolding d' by (intro seats [OF assms(1)]) auto
qed

lemma webhook_step:
  assumes "Inv d0 d" "receive_payment_webhook hm loads bp cfg body sig now d m = (res, d', m')"
  shows "Inv d0 d'"
proof -
  have new: "Inv d0 (d\<lparr>db_payment_events := db_payment_events d @ [payment_row eid ty p b now]\<rparr>)"
    if "find_payment_event eid d = None" for eid ty p b
  proof (rule frame [OF assms(1)])
    show "schema_ok (d\<lparr>db_payment_events := db_payment_events d @ [payment_row eid ty p b now]\<rparr>)"
      using schema [OF assms(1)] that
      by (simp add: schema_ok_iff one_active_booking_per_seat_def find_payment_event_def by_key_None_iff)
  qed simp_all
  have "d' = d \<or> (\<exists>eid ty p b. find_payment_event eid d = None \<and>
      d' = d\<lparr>db_payment_events := db_payment_events d @ [payment_row eid ty p b now]\<rparr>)"
    using assms(2) unfolding receive_payment_webhook_def ingest_webhook_def store_event_def Let_def
    by (auto split: sum.splits bool.splits loaded.splits json.splits prod.splits if_splits)
  with new assms(1) show ?thesis by auto
qed

lemma succeeded_step:
  assumes "Inv d0 d" "Inv d0 back" "apply_payment_succeeded e back bid now d m = (res, d', m')"
  shows "Inv d0 d'"
  using apply_succeeded_frame [OF assms(3)]
proof (elim disjE exE conjE)
  fix i b assume l: "load_booking i d = Some b"
    and w: "attempt_confirm_write e back (br_id b) (br_seat_ids b) (br_session_id b) now None d m = (Inr True, d', m')"
  from l load_booking_id [OF l] have "find_booking (br_id b) d = Some b" by (simp add: load_booking_def)
  then show ?thesis by (rule attempt_step [OF assms(1,2) _ refl w])
qed (use assms(1,2) refund_required [OF assms(1)] in simp_all)

lemma refunded_step:
  assumes "refunds" "Inv d0 d" "apply_payment_refunded bid now d m = (res, d', m')"
  shows "Inv d0 d'"
proof (cases "Option.bind bid (\<lambda>i. load_booking i d)")
  case None
  with assms show ?thesis by (simp add: apply_payment_refunded_def)
next
  case (Some b)
  then obtain i where i: "bid = Some i" "load_booking i d = Some b" by (cases bid) simp_all
  from assms(3) refunded [OF assms(1,2)] assms(2) i show ?thesis
    by (auto simp: apply_refunded_spec [OF schema [OF assms(2)] i(2)] load_booking_def split: if_splits)
qed

lemma finish_step:
  assumes "Inv d0 d"
  shows "Inv d0 (finish_event ev st at d)"
proof (rule frame [OF assms])
  show "schema_ok (finish_event ev st at d)"
    using schema [OF assms] by (simp add: schema_ok_iff one_active_booking_per_seat_def)
      (simp add: finish_event_def map_upd_where)
qed simp_all

lemma payments_step:
  assumes "Inv d0 d" "refunds \<or> (\<forall>ev \<in> set (queued_events locked limit d). pe_type ev \<noteq> ''payment.refunded'')"
    and "process_once rr ei locked limit now d r m = (res, d', r', m')"
  shows "Inv d0 d'"
proof -
  obtain x d1 m1 where p: "process_events rr ei d now (queued_events locked limit d)
      \<lparr>bt_applied = 0, bt_rejected = 0, bt_touched = [], bt_expired = False\<rparr> d m = (x, d1, m1)"
    by (metis prod_cases3)
  have "d' = d1" using assms(3) p by (cases x) (simp_all add: process_once_def Let_def)
  moreover have "Inv d0 d1"
    using assms(1,1) p
  proof (rule process_events_inv)
    show "Inv d0 y" if "Inv d0 x" "apply_payment_succeeded ei d bid now x n = (z, y, n')"
      for bid x n z y n'
      using succeeded_step [OF that(1) assms(1) that(2)] .
    show "Inv d0 y" if "ev \<in> set (queued_events locked limit d)" "pe_type ev = ''payment.refunded''" "Inv d0 x"
        "apply_payment_refunded (pe_booking_id ev) now x n = (z, y, n')" for ev x n z y n'
      using refunded_step [OF _ that(3,4)] assms(2) that(1,2) by blast
  qed (rule finish_step)
  ultimately show ?thesis by simp
qed

lemma time_step:
  assumes "Inv d0 d"
  shows "Inv d0 (d\<lparr>db_clock := t\<rparr>)"
proof (rule frame [OF assms])
  show "schema_ok (d\<lparr>db_clock := t\<rparr>)"
    using schema [OF assms] by (simp add: schema_ok_iff one_active_booking_per_seat_def)
qed simp_all

subsection \<open>Every step\<close>

lemma interfering:
  assumes "\<forall>x. (\<lambda>x y. system_step refunds x y \<and> (\<forall>d0. Inv d0 x \<longrightarrow> Inv d0 y))\<^sup>*\<^sup>* x (env x)"
  shows "keeps Inv env"
proof -
  have "Inv d0 x \<Longrightarrow> Inv d0 y" if "(\<lambda>x y. system_step refunds x y \<and> (\<forall>d0. Inv d0 x \<longrightarrow> Inv d0 y))\<^sup>*\<^sup>* x y" for d0 x y
    using that by (induction rule: rtranclp_induct) auto
  then have "\<forall>d0 d. Inv d0 d \<longrightarrow> Inv d0 (env d)" using assms by blast
  then show ?thesis by (simp only: keeps_def)
qed

lemma interfering_all:
  assumes "\<forall>k x. (\<lambda>x y. system_step refunds x y \<and> (\<forall>d0. Inv d0 x \<longrightarrow> Inv d0 y))\<^sup>*\<^sup>* x (env k x)"
  shows "keeps Inv (env k)"
  using assms by (intro interfering) blast

lemma step: "system_step refunds d d' \<Longrightarrow> \<forall>d0. Inv d0 d \<longrightarrow> Inv d0 d'"
proof (induction rule: system_step.induct)
  case step_hold
  from hold_step [OF _ step_hold(3) interfering_all [OF step_hold(1)] interfering_all [OF step_hold(2)] step_hold(4)]
  show ?case by blast
next
  case step_demo_hold
  from demo_hold_step [OF _ step_demo_hold(3) interfering_all [OF step_demo_hold(1)] interfering_all [OF step_demo_hold(2)]
    step_demo_hold(4)]
  show ?case by blast
next
  case step_create
  from create_route_step [OF _ interfering [OF step_create(1)] interfering [OF step_create(2)] step_create(3)]
  show ?case by blast
next
  case step_confirm
  from confirm_route_step [OF _ interfering [OF step_confirm(1)] interfering [OF step_confirm(2)]
    interfering [OF step_confirm(3)] step_confirm(4)]
  show ?case by blast
qed (blast intro: extend_step webhook_step payments_step sweep_step reap_step time_step)+

lemma steps: "(system_step refunds)\<^sup>*\<^sup>* d d' \<Longrightarrow> Inv d0 d \<Longrightarrow> Inv d0 d'"
  by (induction rule: rtranclp_induct) (use step in auto)

end

end
