(* ===== verification/System.thy ===== *)
theory System
  imports Steps
begin

text \<open>
  What no sequence of steps without refunds breaks: every invariant the admin report checks, and
  every sale. (Refund events are the one thing that leaves an active link behind a seat that is free
  again, see \<open>refund_orphans_link\<close>; what survives them is in \<open>Ledger\<close>.)
\<close>

section \<open>What is sold\<close>

definition sold_kept :: "db \<Rightarrow> db \<Rightarrow> bool" where
  "sold_kept d0 d \<longleftrightarrow> (\<forall>r \<in> set (db_seats d0). sr_status r = BOOKED \<longrightarrow> r \<in> set (db_seats d))"

lemma sold_kept_refl [simp]: "sold_kept d d"
  by (simp add: sold_kept_def)

text \<open>An UPDATE whose condition no BOOKED row meets keeps what is sold.\<close>

lemma sold_kept_upd:
  "sold_kept d0 d \<Longrightarrow> (\<And>r. r \<in> set (db_seats d) \<Longrightarrow> P r \<Longrightarrow> sr_status r \<noteq> BOOKED) \<Longrightarrow>
   db_seats d' = upd_where P f (db_seats d) \<Longrightarrow> sold_kept d0 d'"
  by (force simp: sold_kept_def set_upd_where image_iff)

text \<open>
  The database is healthy, and relative to \<open>d0\<close> no event and no seat has been added, removed or
  moved, bookings only moved forward, and every seat that was sold is still sold to the same booking.
\<close>

definition sound_since :: "db \<Rightarrow> db \<Rightarrow> bool" where
  "sound_since d0 d \<longleftrightarrow> healthy d \<and> db_events d = db_events d0 \<and>
     map seat_place (db_seats d) = map seat_place (db_seats d0) \<and> sold_kept d0 d \<and> extends d0 d"

lemma sound_healthy: "sound_since d0 d \<Longrightarrow> healthy d"
  by (simp add: sound_since_def)

lemma sound_frame:
  assumes "sound_since d0 d" "db_seats d' = db_seats d" "db_booking_seats d' = db_booking_seats d"
    and "db_events d' = db_events d" "schema_ok d'" "extends d d'"
  shows "sound_since d0 d'"
  using assms linkage_cong [of d' d] extends_trans [of d0 d d']
  by (simp add: sound_since_def healthy_def seats_coherent_def sold_kept_def)

lemma sound_seats:
  assumes "sound_since d0 d"
    and row: "\<forall>r \<in> set (db_seats d). P r \<longrightarrow> row_coherent (f r) \<and> sr_status r \<noteq> BOOKED \<and>
      sr_status (f r) \<noteq> BOOKED \<and> sr_booking_id (f r) = None"
    and place: "\<forall>r. seat_place (f r) = seat_place r \<and> sr_id (f r) = sr_id r"
  shows "sound_since d0 (d\<lparr>db_seats := upd_where P f (db_seats d)\<rparr>)"
proof -
  let ?d = "d\<lparr>db_seats := upd_where P f (db_seats d)\<rparr>"
  have h: "schema_ok d" "seats_coherent d" "linkage_ok d" using assms(1) by (simp_all add: sound_since_def healthy_def)
  have "schema_ok ?d"
    using h(1) by (simp add: schema_ok_iff map_upd_where place one_active_booking_per_seat_def)
  moreover have "seats_coherent ?d"
    using h(2) row by (auto simp: seats_coherent_iff set_upd_where)
  moreover have "linkage_ok ?d"
    unfolding linkage_ok_iff
  proof
    fix x assume "x \<in> set (db_seats ?d)"
    then obtain r where r: "r \<in> set (db_seats d)" "x = (if P r then f r else r)" by (auto simp: set_upd_where)
    have l: "sr_status r = BOOKED \<longleftrightarrow> sr_id r \<in> active_seat_ids d" "sr_booking_id r \<noteq> None \<longrightarrow> sr_id r \<in> active_seat_ids d"
      using h(3) r(1) unfolding linkage_ok_iff by blast+
    have "sr_id (f r) = sr_id r" using place by blast
    moreover have "P r \<longrightarrow> sr_status r \<noteq> BOOKED \<and> sr_status (f r) \<noteq> BOOKED \<and> sr_booking_id (f r) = None"
      using row r(1) by blast
    ultimately show "(sr_status x = BOOKED \<longleftrightarrow> sr_id x \<in> active_seat_ids ?d) \<and>
        (sr_booking_id x \<noteq> None \<longrightarrow> sr_id x \<in> active_seat_ids ?d)"
      using l r(2) by (cases "P r") simp_all
  qed
  moreover have "sold_kept d0 ?d"
    using assms(1) row by (intro sold_kept_upd [of d0 d P ?d f]) (auto simp: sound_since_def)
  moreover have "extends d0 ?d" using assms(1) extends_bookings [of ?d d d0] by (simp add: sound_since_def)
  ultimately show ?thesis
    using assms(1) by (simp add: sound_since_def healthy_def map_upd_where place)
qed

lemma sound_confirmed:
  assumes "sound_since d0 d" "confirmable e bid ids session now key d"
  shows "sound_since d0 (confirmed_db bid ids now key d)"
proof -
  have ok: "schema_ok d" "sold_kept d0 d" "extends d0 d"
    using assms(1) by (simp_all add: sound_since_def healthy_def)
  have "sold_kept d0 (confirmed_db bid ids now key d)"
  proof (rule sold_kept_upd [OF ok(2) _ confirmed_db_sel(1)])
    fix r assume "r \<in> set (db_seats d)" "sr_id r \<in> set ids"
    then have "find_seat (sr_id r) d = Some r" using ok(1) by (simp add: find_seat_iff)
    with assms(2) \<open>sr_id r \<in> set ids\<close> show "sr_status r \<noteq> BOOKED"
      by (force simp: confirmable_def held_by_sql_def)
  qed
  with assms confirmed_schema [of d e bid ids session now key] confirmed_coherent confirmed_linkage
    extends_trans [OF ok(3) extends_confirmed]
  show ?thesis by (simp add: sound_since_def healthy_def map_upd_where seat_place_def)
qed

interpretation sound: kept sound_since False
proof
  fix d0 d d' :: db
  assume s: "sound_since d0 d"
  then show "schema_ok d \<and> seats_coherent d \<and> extends d0 d" "sound_since d d"
    by (simp_all add: sound_since_def healthy_def)
  show "sound_since d0 (d\<lparr>db_seats := upd_where P f (db_seats d)\<rparr>)"
    if "\<forall>r \<in> set (db_seats d). P r \<longrightarrow> row_coherent (f r) \<and> sr_status r \<noteq> BOOKED \<and>
        sr_status (f r) \<noteq> BOOKED \<and> sr_booking_id (f r) = None"
      "\<forall>r. seat_place (f r) = seat_place r \<and> sr_id (f r) = sr_id r" for P f
    using sound_seats [OF s that] .
  show "sound_since d0 d'" if "schema_ok d'" "db_seats d' = db_seats d" "db_booking_seats d' = db_booking_seats d"
      "db_events d' = db_events d" "db_bookings d' = db_bookings d" "db_next_booking d' = db_next_booking d"
    using sound_frame [OF s that(2-4,1)] extends_bookings [OF that(5), of d] by simp
  show "sound_since d0 d'" if "create_booking p now d = (res, d')" for p now res
    using create_booking_keeps [OF that] create_booking_schema [OF _ that] extends_created [OF that] s
    by (intro sound_frame [OF s]) (simp_all add: sound_since_def healthy_def)
  show "sound_since d0 (confirmed_db bid ids now key d)" if "confirmable e bid ids session now key d" for e bid ids session now key
    using sound_confirmed [OF s that] .
  show "sound_since d0 (require_refund_db i now d)" for i now
    using require_refund_schema s extends_refund_required
    by (intro sound_frame [OF s]) (simp_all add: sound_since_def healthy_def)
qed simp_all

lemma sound_reachable:
  assumes "healthy d0" "(system_step False)\<^sup>*\<^sup>* d0 d"
  shows "sound_since d0 d"
  using sound.steps [OF assms(2), of d0] assms(1) by (simp add: sound_since_def)

section \<open>Properties\<close>





end
