(* ===== verification/Ledger.thy ===== *)
theory Ledger
  imports Steps "HOL-Library.Multiset"
begin

text \<open>
  The books of the ticket office: which bookings are sold, and which seats. Two tables say it
  independently, \<open>seats\<close> and \<open>bookings\<close>, and \<open>booking_seats\<close> links them. They agree in every state
  any interleaving of requests, background passes, payments and refunds can lead to.
\<close>

section \<open>The books\<close>

definition confirmed_bookings :: "db \<Rightarrow> booking_row list" where
  "confirmed_bookings d = filter (\<lambda>b. br_status b = CONFIRMED) (db_bookings d)"

definition booked_ids :: "db \<Rightarrow> int list" where
  "booked_ids d = map sr_id (filter (\<lambda>r. sr_status r = BOOKED) (db_seats d))"

text \<open>A seat sold under \<open>i\<close> is listed by the CONFIRMED booking \<open>i\<close> and has its active link.\<close>

definition seat_entry_ok :: "db \<Rightarrow> seat_row \<Rightarrow> bool" where
  "seat_entry_ok d r \<longleftrightarrow>
     (case sr_booking_id r of
        None \<Rightarrow> True
      | Some i \<Rightarrow> \<lparr>bs_booking_id = i, bs_seat_id = sr_id r, bs_released_at = None\<rparr> \<in> set (db_booking_seats d) \<and>
          (case find_booking i d of None \<Rightarrow> False | Some b \<Rightarrow> br_status b = CONFIRMED \<and> sr_id r \<in> set (br_seat_ids b)))"

text \<open>A CONFIRMED booking lists no seat twice, and each is BOOKED under it.\<close>

definition booked_under :: "int \<Rightarrow> db \<Rightarrow> int \<Rightarrow> bool" where
  "booked_under i d s \<longleftrightarrow>
     (case find_seat s d of None \<Rightarrow> False | Some r \<Rightarrow> sr_status r = BOOKED \<and> sr_booking_id r = Some i)"

definition booking_entry_ok :: "db \<Rightarrow> booking_row \<Rightarrow> bool" where
  "booking_entry_ok d b \<longleftrightarrow> (br_status b = CONFIRMED \<longrightarrow>
     distinct (br_seat_ids b) \<and> list_all (booked_under (br_id b) d) (br_seat_ids b))"

text \<open>A link belongs to a booking that is or was sold, and to one of its seats.\<close>

definition link_ok :: "db \<Rightarrow> booking_seat_row \<Rightarrow> bool" where
  "link_ok d l \<longleftrightarrow>
     (case find_booking (bs_booking_id l) d of
        None \<Rightarrow> False
      | Some b \<Rightarrow> br_status b \<in> {CONFIRMED, REFUNDED} \<and> bs_seat_id l \<in> set (br_seat_ids b))"

definition ledger :: "db \<Rightarrow> bool" where
  "ledger d \<longleftrightarrow> schema_ok d \<and> seats_coherent d \<and> list_all (seat_entry_ok d) (db_seats d) \<and>
     list_all (booking_entry_ok d) (db_bookings d) \<and> list_all (link_ok d) (db_booking_seats d)"

lemma ledgerD:
  assumes "ledger d"
  shows "schema_ok d" "seats_coherent d"
    and "\<And>r i. r \<in> set (db_seats d) \<Longrightarrow> sr_booking_id r = Some i \<Longrightarrow>
      sr_status r = BOOKED \<and> \<lparr>bs_booking_id = i, bs_seat_id = sr_id r, bs_released_at = None\<rparr> \<in> set (db_booking_seats d) \<and>
      (\<exists>b. find_booking i d = Some b \<and> br_status b = CONFIRMED \<and> sr_id r \<in> set (br_seat_ids b))"
    and "\<And>b. b \<in> set (db_bookings d) \<Longrightarrow> br_status b = CONFIRMED \<Longrightarrow> distinct (br_seat_ids b)"
    and "\<And>b s. b \<in> set (db_bookings d) \<Longrightarrow> br_status b = CONFIRMED \<Longrightarrow> s \<in> set (br_seat_ids b) \<Longrightarrow> booked_under (br_id b) d s"
    and "\<And>l. l \<in> set (db_booking_seats d) \<Longrightarrow> link_ok d l"
proof -
  show ok: "schema_ok d" "seats_coherent d" using assms by (simp_all add: ledger_def)
  show "sr_status r = BOOKED \<and> \<lparr>bs_booking_id = i, bs_seat_id = sr_id r, bs_released_at = None\<rparr> \<in> set (db_booking_seats d) \<and>
      (\<exists>b. find_booking i d = Some b \<and> br_status b = CONFIRMED \<and> sr_id r \<in> set (br_seat_ids b))"
    if "r \<in> set (db_seats d)" "sr_booking_id r = Some i" for r i
  proof -
    have "row_coherent r" using ok(2) that(1) by (simp add: seats_coherent_iff)
    then have "sr_status r = BOOKED" using that(2) by (cases "sr_status r") (auto simp: row_coherent_def coherent_def)
    moreover have "seat_entry_ok d r" using assms that(1) by (simp add: ledger_def list_all_iff)
    ultimately show ?thesis using that(2) by (auto simp: seat_entry_ok_def split: option.splits)
  qed
  show "distinct (br_seat_ids b)" if "b \<in> set (db_bookings d)" "br_status b = CONFIRMED" for b
    using assms that by (simp add: ledger_def list_all_iff booking_entry_ok_def)
  show "booked_under (br_id b) d s" if "b \<in> set (db_bookings d)" "br_status b = CONFIRMED" "s \<in> set (br_seat_ids b)" for b s
    using assms that by (simp add: ledger_def list_all_iff booking_entry_ok_def)
  show "link_ok d l" if "l \<in> set (db_booking_seats d)" for l
    using assms that by (simp add: ledger_def list_all_iff)
qed

lemma ledgerI:
  assumes "schema_ok d" "seats_coherent d"
    and "\<And>r i. r \<in> set (db_seats d) \<Longrightarrow> sr_booking_id r = Some i \<Longrightarrow>
      \<lparr>bs_booking_id = i, bs_seat_id = sr_id r, bs_released_at = None\<rparr> \<in> set (db_booking_seats d) \<and>
      (\<exists>b. find_booking i d = Some b \<and> br_status b = CONFIRMED \<and> sr_id r \<in> set (br_seat_ids b))"
    and "\<And>b. b \<in> set (db_bookings d) \<Longrightarrow> br_status b = CONFIRMED \<Longrightarrow> distinct (br_seat_ids b)"
    and "\<And>b s. b \<in> set (db_bookings d) \<Longrightarrow> br_status b = CONFIRMED \<Longrightarrow> s \<in> set (br_seat_ids b) \<Longrightarrow> booked_under (br_id b) d s"
    and "\<And>l. l \<in> set (db_booking_seats d) \<Longrightarrow> link_ok d l"
  shows "ledger d"
proof -
  have "seat_entry_ok d r" if "r \<in> set (db_seats d)" for r
    using assms(3) [OF that] by (auto simp: seat_entry_ok_def split: option.split)
  then show ?thesis
    using assms by (simp add: ledger_def list_all_iff booking_entry_ok_def)
qed

text \<open>A seat of a sold booking is not on hold.\<close>

lemma sold_not_held:
  "ledger d \<Longrightarrow> b \<in> set (db_bookings d) \<Longrightarrow> br_status b = CONFIRMED \<Longrightarrow> s \<in> set (br_seat_ids b) \<Longrightarrow>
   find_seat s d = Some r \<Longrightarrow> sr_status r = BOOKED"
  using ledgerD(5) [of d b s] by (simp add: booked_under_def)

section \<open>Every write keeps them\<close>

lemma ledger_seats:
  assumes "ledger d" "schema_ok (d\<lparr>db_seats := upd_where P f (db_seats d)\<rparr>)"
    and row: "\<forall>r \<in> set (db_seats d). P r \<longrightarrow> row_coherent (f r) \<and> sr_status r \<noteq> BOOKED \<and>
      sr_status (f r) \<noteq> BOOKED \<and> sr_booking_id (f r) = None"
    and id: "\<And>r. sr_id (f r) = sr_id r"
  shows "ledger (d\<lparr>db_seats := upd_where P f (db_seats d)\<rparr>)" (is "ledger ?d")
proof (rule ledgerI [OF assms(2)])
  have fb: "find_booking i ?d = find_booking i d" for i by (simp add: find_booking_def)
  show "seats_coherent ?d" using ledgerD(2) [OF assms(1)] row by (auto simp: seats_coherent_iff set_upd_where)
  show "\<lparr>bs_booking_id = i, bs_seat_id = sr_id r, bs_released_at = None\<rparr> \<in> set (db_booking_seats ?d) \<and>
      (\<exists>b. find_booking i ?d = Some b \<and> br_status b = CONFIRMED \<and> sr_id r \<in> set (br_seat_ids b))"
    if r: "r \<in> set (db_seats ?d)" "sr_booking_id r = Some i" for r i
  proof -
    from r(1) obtain q where q: "q \<in> set (db_seats d)" "r = (if P q then f q else q)" by (auto simp: set_upd_where)
    with row r(2) have "\<not> P q" by auto
    with q r(2) ledgerD(3) [OF assms(1) q(1)] show ?thesis unfolding fb by simp
  qed
  show "booked_under (br_id b) ?d s" if b: "b \<in> set (db_bookings ?d)" "br_status b = CONFIRMED" "s \<in> set (br_seat_ids b)" for b s
  proof -
    have u: "booked_under (br_id b) d s" using ledgerD(5) [OF assms(1)] b by simp
    then obtain r where r: "find_seat s d = Some r" "sr_status r = BOOKED" by (auto simp: booked_under_def split: option.splits)
    with row have "\<not> P r" using find_seat_SomeD by blast
    with r u show ?thesis by (simp add: booked_under_def find_seat_def by_key_upd_where id)
  qed
  show "link_ok ?d l" if "l \<in> set (db_booking_seats ?d)" for l
    using ledgerD(6) [OF assms(1)] that by (simp add: link_ok_def fb)
qed (use ledgerD(4) [OF assms(1)] in simp)

text \<open>A change of bookings that leaves CONFIRMED and REFUNDED ones alone and adds none.\<close>

lemma ledger_bookings:
  assumes "ledger d" "schema_ok d'" "db_seats d' = db_seats d" "db_booking_seats d' = db_booking_seats d"
    and keep: "\<And>i b. find_booking i d = Some b \<Longrightarrow> br_status b \<in> {CONFIRMED, REFUNDED} \<Longrightarrow> find_booking i d' = Some b"
    and new: "\<And>b. b \<in> set (db_bookings d') \<Longrightarrow> br_status b = CONFIRMED \<Longrightarrow> b \<in> set (db_bookings d)"
  shows "ledger d'"
proof (rule ledgerI [OF assms(2)])
  have fs: "find_seat i d' = find_seat i d" for i using assms(3) by (simp add: find_seat_def)
  show "seats_coherent d'" using ledgerD(2) [OF assms(1)] assms(3) by (simp add: seats_coherent_def)
  show "\<lparr>bs_booking_id = i, bs_seat_id = sr_id r, bs_released_at = None\<rparr> \<in> set (db_booking_seats d') \<and>
      (\<exists>b. find_booking i d' = Some b \<and> br_status b = CONFIRMED \<and> sr_id r \<in> set (br_seat_ids b))"
    if "r \<in> set (db_seats d')" "sr_booking_id r = Some i" for r i
    using ledgerD(3) [OF assms(1), of r i] that assms(3,4) keep by auto
  show "distinct (br_seat_ids b)" if "b \<in> set (db_bookings d')" "br_status b = CONFIRMED" for b
    using ledgerD(4) [OF assms(1)] new that by blast
  show "booked_under (br_id b) d' s" if "b \<in> set (db_bookings d')" "br_status b = CONFIRMED" "s \<in> set (br_seat_ids b)" for b s
    using ledgerD(5) [OF assms(1) new [OF that(1,2)] that(2,3)] by (simp add: booked_under_def fs)
  show "link_ok d' l" if "l \<in> set (db_booking_seats d')" for l
    using ledgerD(6) [OF assms(1), of l] that assms(4) keep by (auto simp: link_ok_def split: option.splits)
qed

lemma ledger_frame:
  assumes "ledger d" "schema_ok d'" "db_seats d' = db_seats d" "db_booking_seats d' = db_booking_seats d"
    and "db_bookings d' = db_bookings d"
  shows "ledger d'"
  by (rule ledger_bookings [OF assms(1-4)]) (use assms(5) in \<open>simp_all add: find_booking_def\<close>)

lemma ledger_created:
  assumes "ledger d" "create_booking p now d = (res, d')"
  shows "ledger d'"
proof (cases "d' = d")
  case False
  have "db_bookings d' = db_bookings d @ [pending_row p now (db_next_booking d)]"
    using create_booking_db [OF assms(2)] False by auto
  then show ?thesis
    using create_booking_keeps [OF assms(2)] create_booking_schema [OF ledgerD(1) [OF assms(1)] assms(2)]
    by (intro ledger_bookings [OF assms(1)]) (auto simp: find_booking_def pending_row_def)
qed (use assms(1) in simp)

lemma ledger_refund_required:
  assumes "ledger d"
  shows "ledger (require_refund_db i now d)"
  by (rule ledger_bookings [OF assms require_refund_schema [OF ledgerD(1) [OF assms]]])
    (auto simp: find_booking_def by_key_upd_where set_upd_where pending_booking_def)

text \<open>The confirmed bookings after a confirmation are those before and the one it confirmed.\<close>

lemma confirmed_cases:
  assumes "schema_ok d" "find_booking bid d = Some b"
    and "c \<in> set (db_bookings (confirmed_db bid ids now key d))" "br_status c = CONFIRMED"
  shows "c \<in> set (db_bookings d) \<and> br_status c = CONFIRMED \<or> c = confirm_booking_row key now b"
proof -
  from assms(3) obtain a where a: "a \<in> set (db_bookings d)"
    "c = (if br_id a = bid \<and> br_status a = PENDING then confirm_booking_row key now a else a)" by (auto simp: set_upd_where)
  have "a = b" if "br_id a = bid"
  proof -
    from a(1) that have "find_booking bid d = Some a" by (simp add: find_booking_iff [OF assms(1)])
    with assms(2) show ?thesis by simp
  qed
  with a assms(4) show ?thesis by auto
qed

text \<open>A seat that belongs to a booking after a confirmation is linked to it, and the booking is confirmed.\<close>

lemma confirmed_entry:
  assumes "ledger d" "find_booking bid d = Some b" "br_status b = PENDING" "br_seat_ids b = ids"
    and "r \<in> set (db_seats (confirmed_db bid ids now key d))" "sr_booking_id r = Some i"
  defines "d' \<equiv> confirmed_db bid ids now key d"
  shows "\<lparr>bs_booking_id = i, bs_seat_id = sr_id r, bs_released_at = None\<rparr> \<in> set (db_booking_seats d') \<and>
    (\<exists>b. find_booking i d' = Some b \<and> br_status b = CONFIRMED \<and> sr_id r \<in> set (br_seat_ids b))"
proof -
  from assms(5) obtain q where q: "q \<in> set (db_seats d)" "r = (if sr_id q \<in> set ids then book_row bid now q else q)"
    by (auto simp: set_upd_where)
  show ?thesis
  proof (cases "sr_id q \<in> set ids")
    case True
    have "find_booking bid d' = Some (confirm_booking_row key now b)"
      using assms(2,3) find_booking_SomeD [OF assms(2)] by (simp add: d'_def confirmed_find_booking)
    moreover from True q assms(6) have "i = bid" "sr_id r \<in> set ids" by auto
    ultimately show ?thesis using assms(4) by (auto simp: d'_def link_rows_def)
  next
    case False
    have "find_booking j d' = Some c" if "find_booking j d = Some c" "br_status c \<noteq> PENDING" for j c
      using that by (simp add: d'_def confirmed_find_booking)
    with False q assms(6) ledgerD(3) [OF assms(1) q(1)] show ?thesis by (fastforce simp: d'_def)
  qed
qed

lemma ledger_confirmed:
  assumes "ledger d" "confirmable e bid ids session now key d" "find_booking bid d = Some b" "br_seat_ids b = ids"
  shows "ledger (confirmed_db bid ids now key d)" (is "ledger ?d")
proof (rule ledgerI)
  note ok = ledgerD(1,2) [OF assms(1)]
  have held: "\<exists>r. find_seat i d = Some r \<and> sr_status r = HELD" if "i \<in> set ids" for i
    using assms(2) that by (auto simp: confirmable_def held_by_sql_def)
  have b: "br_status b = PENDING" "br_id b = bid" "distinct ids"
    using assms(2,3) links_insertable_fresh [of e bid ids d] find_booking_SomeD by (auto simp: confirmable_def)
  have kept: "find_booking i ?d = Some c" if "find_booking i d = Some c" "br_status c \<noteq> PENDING" for i c
    using that by (simp add: confirmed_find_booking)
  have sold: "find_booking bid ?d = Some (confirm_booking_row key now b)"
    using assms(3) b by (simp add: confirmed_find_booking)
  show "schema_ok ?d" "seats_coherent ?d"
    using confirmed_schema [OF ok(1) assms(2)] confirmed_coherent [OF ok(2)] by simp_all
  show "\<lparr>bs_booking_id = i, bs_seat_id = sr_id r, bs_released_at = None\<rparr> \<in> set (db_booking_seats ?d) \<and>
      (\<exists>b. find_booking i ?d = Some b \<and> br_status b = CONFIRMED \<and> sr_id r \<in> set (br_seat_ids b))"
    if "r \<in> set (db_seats ?d)" "sr_booking_id r = Some i" for r i
    by (rule confirmed_entry [OF assms(1,3) b(1) assms(4) that])
  note cases = confirmed_cases [OF ok(1) assms(3)]
  show "distinct (br_seat_ids c)" if "c \<in> set (db_bookings ?d)" "br_status c = CONFIRMED" for c
    using cases [OF that] ledgerD(4) [OF assms(1)] b(3) assms(4) by auto
  show "booked_under (br_id c) ?d s" if c: "c \<in> set (db_bookings ?d)" "br_status c = CONFIRMED" "s \<in> set (br_seat_ids c)" for c s
    using cases [OF c(1,2)]
  proof
    assume "c = confirm_booking_row key now b"
    then have "br_id c = bid" "s \<in> set ids" using c(3) b assms(4) by auto
    with held show ?thesis by (fastforce simp: booked_under_def confirmable_find_seat)
  next
    assume old: "c \<in> set (db_bookings d) \<and> br_status c = CONFIRMED"
    then have u: "booked_under (br_id c) d s" using ledgerD(5) [OF assms(1)] c(3) by blast
    then have "s \<notin> set ids" using held by (force simp: booked_under_def split: option.splits)
    with u show ?thesis by (simp add: booked_under_def confirmable_find_seat)
  qed
  show "link_ok ?d l" if "l \<in> set (db_booking_seats ?d)" for l
  proof (cases "l \<in> set (db_booking_seats d)")
    case True
    with ledgerD(6) [OF assms(1)] kept show ?thesis by (fastforce simp: link_ok_def split: option.splits)
  next
    case False
    with that have "bs_booking_id l = bid" "bs_seat_id l \<in> set ids" by (auto simp: link_rows_def)
    with sold assms(4) show ?thesis by (simp add: link_ok_def)
  qed
qed

lemma ledger_refunded:
  assumes "ledger d" "find_booking bid d = Some b" "br_status b = CONFIRMED"
  shows "ledger (refund_db b REFUNDED now d)" (is "ledger ?d")
proof (rule ledgerI)
  note ok = ledgerD(1,2) [OF assms(1)]
  have id: "br_id b = bid" "b \<in> set (db_bookings d)" using find_booking_SomeD [OF assms(2)] by simp_all
  have kept: "find_booking i ?d = find_booking i d" if "i \<noteq> bid" for i
  proof (cases "find_booking i d")
    case (Some c)
    with that find_booking_SomeD [OF Some] show ?thesis
      by (simp add: find_booking_def by_key_upd_where pending_booking_def id(1))
  qed (simp add: find_booking_def by_key_upd_where)
  have paid: "find_booking bid ?d = Some (b\<lparr>br_status := REFUNDED\<rparr>)"
    using assms(2,3) id by (simp add: find_booking_def by_key_upd_where pending_booking_def)
  show "schema_ok ?d" "seats_coherent ?d" using refund_schema [OF ok(1)] refund_coherent [OF ok(2)] .
  show "\<lparr>bs_booking_id = i, bs_seat_id = sr_id r, bs_released_at = None\<rparr> \<in> set (db_booking_seats ?d) \<and>
      (\<exists>b. find_booking i ?d = Some b \<and> br_status b = CONFIRMED \<and> sr_id r \<in> set (br_seat_ids b))"
    if r: "r \<in> set (db_seats ?d)" "sr_booking_id r = Some i" for r i
  proof -
    from r(1) obtain q where q: "q \<in> set (db_seats d)"
      "r = (if unbook_matches (br_seat_ids b) (br_id b) q then unbook_row now q else q)" by (auto simp: set_upd_where)
    with r(2) have rq: "r = q" "\<not> unbook_matches (br_seat_ids b) bid q" by (auto simp: id split: if_splits)
    note q3 = ledgerD(3) [OF assms(1) q(1) r(2) [unfolded rq(1)]]
    have "i \<noteq> bid"
    proof
      assume "i = bid"
      with q3 assms(2) have "unbook_matches (br_seat_ids b) bid q" using r(2) rq(1) by (simp add: unbook_matches_def)
      with rq(2) show False by contradiction
    qed
    with kept q3 rq(1) show ?thesis by simp
  qed
  have old: "c \<in> set (db_bookings d) \<and> br_id c \<noteq> bid" if "c \<in> set (db_bookings ?d)" "br_status c = CONFIRMED" for c
    using that by (auto simp: set_upd_where pending_booking_def id(1) split: if_splits)
  show "distinct (br_seat_ids c)" if "c \<in> set (db_bookings ?d)" "br_status c = CONFIRMED" for c
    using old [OF that] ledgerD(4) [OF assms(1)] that(2) by blast
  show "booked_under (br_id c) ?d s" if c: "c \<in> set (db_bookings ?d)" "br_status c = CONFIRMED" "s \<in> set (br_seat_ids c)" for c s
  proof -
    have u: "booked_under (br_id c) d s" using ledgerD(5) [OF assms(1)] old [OF c(1,2)] c(2,3) by blast
    then obtain r where r: "find_seat s d = Some r" "sr_status r = BOOKED" "sr_booking_id r = Some (br_id c)"
      by (auto simp: booked_under_def split: option.splits)
    then have "\<not> unbook_matches (br_seat_ids b) (br_id b) r" using old [OF c(1,2)] by (simp add: unbook_matches_def id(1))
    with r show ?thesis by (simp add: booked_under_def find_seat_def by_key_upd_where)
  qed
  show "link_ok ?d l" if "l \<in> set (db_booking_seats ?d)" for l
    using ledgerD(6) [OF assms(1), of l] that kept [of "bs_booking_id l"] paid assms(2)
    by (cases "bs_booking_id l = bid") (auto simp: link_ok_def)
qed

section \<open>In every run\<close>

definition ledger_since :: "db \<Rightarrow> db \<Rightarrow> bool" where
  "ledger_since d0 d \<longleftrightarrow> ledger d \<and> extends d0 d"

interpretation books: kept ledger_since refunds for refunds
proof
  fix d0 d d' :: db
  assume s: "ledger_since d0 d"
  then have l: "ledger d" and x: "extends d0 d" by (simp_all add: ledger_since_def)
  show "schema_ok d \<and> seats_coherent d \<and> extends d0 d" "ledger_since d d"
    using l x ledgerD(1,2) [OF l] by (simp_all add: ledger_since_def)
  show "ledger_since d0 (d\<lparr>db_seats := upd_where P f (db_seats d)\<rparr>)"
    if "\<forall>r \<in> set (db_seats d). P r \<longrightarrow> row_coherent (f r) \<and> sr_status r \<noteq> BOOKED \<and>
        sr_status (f r) \<noteq> BOOKED \<and> sr_booking_id (f r) = None"
      "\<forall>r. seat_place (f r) = seat_place r \<and> sr_id (f r) = sr_id r" for P f
  proof -
    let ?d = "d\<lparr>db_seats := upd_where P f (db_seats d)\<rparr>"
    have "schema_ok ?d"
      using ledgerD(1) [OF l] that(2) by (simp add: schema_ok_iff map_upd_where one_active_booking_per_seat_def)
    from ledger_seats [OF l this that(1)] that(2) have "ledger ?d" by blast
    with x extends_bookings [of ?d d d0] show ?thesis by (simp add: ledger_since_def)
  qed
  show "ledger_since d0 d'" if "schema_ok d'" "db_seats d' = db_seats d" "db_booking_seats d' = db_booking_seats d"
      "db_bookings d' = db_bookings d"
    using ledger_frame [OF l that] x extends_bookings [OF that(4), of d0] by (simp add: ledger_since_def)
  show "ledger_since d0 d'" if "create_booking p now d = (res, d')" for p now res
    using ledger_created [OF l that] extends_trans [OF x extends_created [OF that]] by (simp add: ledger_since_def)
  show "ledger_since d0 (confirmed_db bid ids now key d)"
    if "confirmable e bid ids session now key d" "find_booking bid d = Some b" "br_seat_ids b = ids" for e bid ids session now key b
    using ledger_confirmed [OF l that] extends_trans [OF x extends_confirmed] by (simp add: ledger_since_def)
  show "ledger_since d0 (require_refund_db i now d)" for i now
    using ledger_refund_required [OF l] extends_trans [OF x extends_refund_required] by (simp add: ledger_since_def)
  show "ledger_since d0 (refund_db b REFUNDED now d)"
    if "find_booking bid d = Some b" "br_status b = CONFIRMED" for bid b now
    using ledger_refunded [OF l that] extends_trans [OF x extends_refunded] by (simp add: ledger_since_def)
qed

lemma ledger_reachable: "ledger d0 \<Longrightarrow> (system_step refunds)\<^sup>*\<^sup>* d0 d \<Longrightarrow> ledger d \<and> extends d0 d"
  using books.steps [of refunds d0 d d0] by (simp add: ledger_since_def)

lemma distinct_concat_disjoint:
  "distinct bs \<Longrightarrow> (\<And>b. b \<in> set bs \<Longrightarrow> distinct (f b)) \<Longrightarrow>
   (\<And>b c. b \<in> set bs \<Longrightarrow> c \<in> set bs \<Longrightarrow> b \<noteq> c \<Longrightarrow> set (f b) \<inter> set (f c) = {}) \<Longrightarrow> distinct (concat (map f bs))"
proof (induction bs)
  case (Cons b bs)
  then have "set (f b) \<inter> set (f c) = {}" if "c \<in> set bs" for c using that by auto
  with Cons show ?case by auto
qed simp

lemma ledger_balance:
  assumes "ledger d"
  shows "mset (booked_ids d) = mset (concat (map br_seat_ids (confirmed_bookings d)))"
    and "distinct (booked_ids d)"
proof -
  note ok = ledgerD(1,2) [OF assms]
  let ?bs = "confirmed_bookings d"
  have conf: "b \<in> set (db_bookings d) \<and> br_status b = CONFIRMED" if "b \<in> set ?bs" for b
    using that by (simp add: confirmed_bookings_def)
  show dist: "distinct (booked_ids d)"
    using ok(1) by (simp add: booked_ids_def schema_ok_iff distinct_map_filter)
  have "distinct (concat (map br_seat_ids ?bs))"
  proof (rule distinct_concat_disjoint)
    show "distinct ?bs" using ok(1) by (simp add: confirmed_bookings_def schema_ok_iff distinct_map)
    show "distinct (br_seat_ids b)" if "b \<in> set ?bs" for b using ledgerD(4) [OF assms] conf [OF that] by blast
    show "set (br_seat_ids b) \<inter> set (br_seat_ids c) = {}" if bc: "b \<in> set ?bs" "c \<in> set ?bs" "b \<noteq> c" for b c
    proof -
      have "br_id b \<noteq> br_id c"
        using ok(1) conf [OF bc(1)] conf [OF bc(2)] bc(3) by (metis find_booking_iff option.inject)
      moreover have "br_id b = br_id c" if "s \<in> set (br_seat_ids b)" "s \<in> set (br_seat_ids c)" for s
        using ledgerD(5) [OF assms, of b s] ledgerD(5) [OF assms, of c s] conf bc that
        by (auto simp: booked_under_def split: option.splits)
      ultimately show ?thesis by blast
    qed
  qed
  moreover have "set (booked_ids d) = set (concat (map br_seat_ids ?bs))"
  proof (intro equalityI subsetI)
    fix s assume "s \<in> set (booked_ids d)"
    then obtain r where r: "r \<in> set (db_seats d)" "sr_status r = BOOKED" "sr_id r = s" by (auto simp: booked_ids_def)
    then have "row_coherent r" using ok(2) by (simp add: seats_coherent_iff)
    with r(2) obtain i where "sr_booking_id r = Some i" by (auto simp: row_coherent_def coherent_def)
    from ledgerD(3) [OF assms r(1) this] r(3) show "s \<in> set (concat (map br_seat_ids ?bs))"
      using find_booking_SomeD by (fastforce simp: confirmed_bookings_def)
  next
    fix s assume "s \<in> set (concat (map br_seat_ids ?bs))"
    then obtain b where "b \<in> set ?bs" "s \<in> set (br_seat_ids b)" by auto
    with ledgerD(5) [OF assms] conf have "booked_under (br_id b) d s" by blast
    then show "s \<in> set (booked_ids d)"
      using find_seat_SomeD by (fastforce simp: booked_under_def booked_ids_def split: option.splits)
  qed
  ultimately show "mset (booked_ids d) = mset (concat (map br_seat_ids ?bs))"
    using dist set_eq_iff_mset_eq_distinct by blast
qed

text \<open>Links point at bookings, so a booking id that was never given out has none.\<close>

lemma ledger_links: "ledger d \<Longrightarrow> \<forall>l \<in> set (db_booking_seats d). bs_booking_id l < db_next_booking d"
  using ledgerD(1,6) find_booking_SomeD by (fastforce simp: link_ok_def schema_ok_iff split: option.splits)

section \<open>An example\<close>

text \<open>The sample database with a refund of booking 1 in the queue, and what the worker makes of it.\<close>

definition refund_queued :: db where
  "refund_queued = sample_db\<lparr>db_payment_events := [payment_row ''e1'' ''payment.refunded'' JNull (Some 1) 90]\<rparr>"

lemma sample_ledger: "ledger sample_db"
proof -
  have "db_seats sample_db = [seat_at 1 AVAILABLE 0 None None None, seat_at 2 HELD 1 (Some ''A'') (Some 200) None,
      seat_at 3 HELD 1 (Some ''B'') (Some 90) None, seat_at 4 BOOKED 2 None None (Some 1)]"
    "db_bookings sample_db = [booking_at 1 ''C'' CONFIRMED [4] ''k1'', booking_at 2 ''A'' PENDING [2] ''k2'']"
    "db_booking_seats sample_db = [\<lparr>bs_booking_id = 1, bs_seat_id = 4, bs_released_at = None\<rparr>]"
    by (simp_all add: sample_db_def)
  then show ?thesis
    by (simp add: ledger_def seat_entry_ok_def booking_entry_ok_def booked_under_def link_ok_def)
      (simp add: booking_at_def booked_under_def)
qed

lemma refund_queued_ledger: "ledger refund_queued"
  by (rule ledger_frame [OF sample_ledger])
    (simp_all add: refund_queued_def schema_ok_iff one_active_booking_per_seat_def sample_schema [unfolded schema_ok_iff one_active_booking_per_seat_def])

lemma refund_applied:
  "\<exists>d. system_step True refund_queued d \<and> booked_ids d = [] \<and> confirmed_bookings d = [] \<and> find_booking 1 d = Some (booking_at 1 ''C'' CONFIRMED [4] ''k1''\<lparr>br_status := REFUNDED\<rparr>)"
proof -
  obtain res d' r' m' where p: "process_once True True {} 10 100 refund_queued sample_redis zero_metrics = (res, d', r', m')"
    by (metis prod_cases4)
  have q: "queued_events {} 10 refund_queued = [payment_row ''e1'' ''payment.refunded'' JNull (Some 1) 90]"
    by (simp add: queued_events_def refund_queued_def)
  have load: "load_booking 1 refund_queued = Some (booking_at 1 ''C'' CONFIRMED [4] ''k1'')"
    by (simp add: load_booking_def refund_queued_def find_booking_def sample_defs)
  have "d' = finish_event (payment_row ''e1'' ''payment.refunded'' JNull (Some 1) 90) APPLIED (Some 100)
      (refund_db (booking_at 1 ''C'' CONFIRMED [4] ''k1'') REFUNDED 100 refund_queued)"
    using p by (simp add: process_once_def q apply_refunded_spec [OF ledgerD(1) [OF refund_queued_ledger] load] count_event_def booking_at_def)
  then have "booked_ids d' = [] \<and> confirmed_bookings d' = [] \<and>
      find_booking 1 d' = Some (booking_at 1 ''C'' CONFIRMED [4] ''k1''\<lparr>br_status := REFUNDED\<rparr>)"
    by (simp add: booked_ids_def confirmed_bookings_def find_booking_def refund_queued_def sample_defs unbook_matches_def
        unbook_row_def pending_booking_def)
  with step_payments [OF _ p] show ?thesis by blast
qed

section \<open>Properties\<close>





end
