(* ===== verification/Purchase.thy ===== *)
theory Purchase
  imports System Ledger
begin

text \<open>
  A purchase from end to end: the hold route, the creation route and the confirmation route one
  after the other, as a client calls them. Each stage has a lemma that says when its route
  succeeds and what it leaves; the property composes the three.
\<close>

section \<open>Holding\<close>

text \<open>No lock is refused, no statement fails, and the optimistic strategy may try at least once.\<close>

definition unhindered :: "acquire_env \<Rightarrow> bool" where
  "unhindered e \<longleftrightarrow> undisturbed e = e \<and> ae_lock_error e = None \<and> ae_update_errors e = (\<lambda>_. None)"

lemma unhindered_attempts [simp]: "unhindered (e\<lparr>ae_max_attempts := n\<rparr>) = unhindered e"
  by (cases e) (simp add: unhindered_def undisturbed_def)

lemma undisturbed_race:
  assumes "undisturbed e = e"
  shows "ae_race e = (\<lambda>_. id)"
proof -
  have "ae_race (undisturbed e) = (\<lambda>_. id)" by (simp add: undisturbed_def)
  with assms show ?thesis by (simp only:)
qed

lemma acquire_free:
  assumes "schema_ok d" "distinct ids" "0 < dur" "unhindered e" "0 < ae_max_attempts e"
    and "\<forall>i \<in> set ids. \<exists>r. find_seat i d = Some r \<and> reclaimable_sql now r"
  shows "\<exists>r d' m'. acquire s e ids h dur now d m = (Inr r, d', m') \<and> ar_success r"
proof (cases s)
  case NaiveStrategy
  then show ?thesis using naive_accepts [OF assms(1) _ assms(6), of dur] assms(3) by simp
next
  case PessimisticStrategy
  have race: "ae_race e 1 d = d"
    using undisturbed_race [of e] assms(4) by (simp add: unhindered_def)
  have "ar_success (hold_decision ids now d)" using assms(6) by (simp add: hold_decision_success_iff)
  with PessimisticStrategy show ?thesis
    using pessimistic_result [OF assms(1,3)] assms(4) race by (simp add: unhindered_def Let_def)
next
  case OptimisticStrategy
  have "acquire s e ids h dur now d m = optimistic_acquire (\<lambda>_. id) (\<lambda>_. id) (\<lambda>_. None) (ae_max_attempts e) ids h dur now d m"
    using acquire_undisturbed [of s e] assms(4) OptimisticStrategy by (simp add: unhindered_def)
  moreover have "ar_success (hold_decision ids now d)" using assms(6) by (simp add: hold_decision_success_iff)
  ultimately show ?thesis
    using optimistic_result [OF assms(1,2,3,5), of h now m] by auto
qed

lemma hold_goes_through:
  assumes "schema_ok d" "seats_coherent d" "distinct ids" "unhindered e"
    and "get_strategy (cfg_strategy cfg) = Inr s" "0 < cfg_hold_duration cfg" "0 < cfg_optimistic_max_attempts cfg"
    and "\<forall>i \<in> set ids. \<exists>r. find_seat i d = Some r \<and> reclaimable_sql now r"
  shows "\<exists>reply r' m' t aud. create_hold cfg e evt ids session now d r m =
      (Inr reply, held_db ids aud session (now + cfg_hold_duration cfg) t now d, r', m') \<and> hr_status reply = 201"
proof -
  let ?e = "e\<lparr>ae_max_attempts := cfg_optimistic_max_attempts cfg\<rparr>"
  have u: "unhindered ?e" using assms(4) by simp
  obtain res d1 m1 where a: "acquire s ?e ids session (cfg_hold_duration cfg) now d m = (Inr res, d1, m1)" "ar_success res"
    using acquire_free [OF assms(1,3,6) u _ assms(8), of s session m] assms(7) by auto
  have "undisturbed ?e = ?e" using u by (simp only: unhindered_def)
  then obtain t aud where w: "d1 = held_db ids aud session (now + cfg_hold_duration cfg) t now d"
    using configured.won [OF assms(1,2), of s ?e] a by metis
  show ?thesis
    using a assms(5) unfolding w by (simp add: create_hold_def split_beta Let_def) blast
qed

section \<open>Creating\<close>

text \<open>A key no request of the user and no booking of the user carries.\<close>

definition unused_key :: "int \<Rightarrow> string \<Rightarrow> db \<Rightarrow> bool" where
  "unused_key u k d \<longleftrightarrow> find_idem u k d = None \<and>
     (\<forall>b \<in> set (db_bookings d). br_user_id b = u \<longrightarrow> br_idempotency_key b \<noteq> Some k)"

text \<open>What the route leaves of a creation that succeeds.\<close>

definition created_db :: "settings \<Rightarrow> string \<Rightarrow> create_request \<Rightarrow> string \<Rightarrow> instant \<Rightarrow> db \<Rightarrow> db" where
  "created_db cfg fingerprint q key now d =
     (let b = pending_row (create_request_params q key) now (db_next_booking d)
      in complete_idempotent_request key (cq_user_id q) 201 (BookingBody (build_booking_response b))
          (d\<lparr>db_idempotency_keys := db_idempotency_keys d @ [new_key_row key (cq_user_id q) fingerprint now (cfg_idempotency_key_ttl cfg)],
             db_bookings := db_bookings d @ [b], db_next_booking := db_next_booking d + 1\<rparr>))"

lemma created_db_sel [simp]:
  "db_seats (created_db cfg f q key now d) = db_seats d"
  "db_booking_seats (created_db cfg f q key now d) = db_booking_seats d"
  "db_events (created_db cfg f q key now d) = db_events d"
  "db_payment_events (created_db cfg f q key now d) = db_payment_events d"
  "db_bookings (created_db cfg f q key now d) =
     db_bookings d @ [pending_row (create_request_params q key) now (db_next_booking d)]"
  "find_seat i (created_db cfg f q key now d) = find_seat i d"
  by (simp_all add: created_db_def Let_def find_seat_def)

lemma create_goes_through:
  assumes "schema_ok d" "unused_key (cq_user_id q) key d" "insertable (create_request_params q key) d"
    and "\<forall>i \<in> set (cq_seat_ids q). \<exists>r. find_seat i d = Some r \<and> held_by_sql (cq_session_id q) now r"
  shows "create_booking_route sha cfg env id path q key now d m =
    (Inr (respond 201 (BookingBody (build_booking_response (pending_row (create_request_params q key) now (db_next_booking d))))),
     created_db cfg (compute_fingerprint sha ''POST'' path (create_request_json q)) q key now d, m)"
proof -
  let ?p = "create_request_params q key"
  have f: "find_idem (cq_user_id q) key d = None" using assms(2) by (simp add: unused_key_def)
  let ?d1 = "d\<lparr>db_idempotency_keys := db_idempotency_keys d @ [new_key_row key (cq_user_id q)
      (compute_fingerprint sha ''POST'' path (create_request_json q)) now (cfg_idempotency_key_ttl cfg)]\<rparr>"
  have "invalid_seats ?p now ?d1 = []"
    using assms(4) unfolding invalid_seats_Nil_iff by (simp add: create_request_params_def find_seat_def)
  moreover have "insert_booking (pending_row ?p now (db_next_booking d)) ?d1 =
      Inr (?d1\<lparr>db_bookings := db_bookings d @ [pending_row ?p now (db_next_booking d)], db_next_booking := db_next_booking d + 1\<rparr>)"
    using insert_booking_iff [OF assms(1), of ?p now "db_next_booking d"] assms(3)
    by (auto simp: insert_booking_def find_event_def split: if_splits)
  ultimately have "create_booking ?p now ?d1 =
      (Inr (build_booking_response (pending_row ?p now (db_next_booking d))),
       ?d1\<lparr>db_bookings := db_bookings d @ [pending_row ?p now (db_next_booking d)], db_next_booking := db_next_booking d + 1\<rparr>)"
    by (simp add: create_booking_def Let_def)
  then show ?thesis
    by (simp add: create_booking_route_def begin_new [OF f] created_db_def Let_def)
qed

lemma created_find_booking:
  assumes "schema_ok d"
  shows "find_booking (db_next_booking d) (created_db cfg f q key now d) =
    Some (pending_row (create_request_params q key) now (db_next_booking d))"
proof -
  have "find_booking (db_next_booking d) d = None"
    using assms by (auto simp: schema_ok_iff find_booking_def by_key_None_iff)
  then show ?thesis by (simp add: find_booking_def pending_row_def)
qed

lemma created_schema:
  assumes "schema_ok d" "unused_key (cq_user_id q) key d"
  shows "schema_ok (created_db cfg f q key now d)"
proof -
  let ?ks = "db_idempotency_keys d @ [new_key_row key (cq_user_id q) f now (cfg_idempotency_key_ttl cfg)]"
  have "distinct (map ik_pk ?ks)"
    using assms by (simp add: schema_ok_iff unused_key_def find_idem_def by_key_None_iff new_key_row_def ik_pk_def)
  then have "distinct (map ik_pk (db_idempotency_keys (created_db cfg f q key now d)))"
    by (simp add: created_db_def complete_idempotent_request_def map_upd_where complete_row_def ik_pk_def Let_def)
  moreover have "booking_key_unique (db_bookings d @ [pending_row (create_request_params q key) now (db_next_booking d)])"
    using assms by (simp add: key_unique_append unused_key_def create_request_params_def)
  moreover have "db_next_booking (created_db cfg f q key now d) = db_next_booking d + 1"
    by (simp add: created_db_def Let_def)
  ultimately show ?thesis
    using assms(1) by (auto simp: schema_ok_iff one_active_booking_per_seat_def) (auto simp: pending_row_def)
qed

lemma created_find_idem:
  "k \<noteq> key \<Longrightarrow> find_idem u k (created_db cfg f q key now d) = find_idem u k d"
  by (simp add: created_db_def find_idem_complete Let_def) (simp add: find_idem_def new_key_row_def ik_pk_def split: option.split)

section \<open>Confirming\<close>

lemma confirmable_keys [simp]:
  "confirmable e bid ids session now key (d\<lparr>db_idempotency_keys := ks\<rparr>) = confirmable e bid ids session now key d"
  by (simp add: confirmable_def find_seat_def find_booking_def links_insertable_def)

lemma confirm_goes_through:
  assumes "schema_ok d" "seats_coherent d" "find_booking bid d = Some b" "find_idem (br_user_id b) key d = None"
    and "confirmable e bid (br_seat_ids b) session now (Some key) d"
  shows "\<exists>d' r'. confirm_booking_route sha cfg e env id id path bid session key now d r m =
      (Inr (respond 200 (BookingBody (build_booking_response (confirm_booking_row (Some key) now b)))), d', r', m) \<and>
    db_seats d' = db_seats (confirmed_db bid (br_seat_ids b) now (Some key) d) \<and>
    db_booking_seats d' = db_booking_seats (confirmed_db bid (br_seat_ids b) now (Some key) d)"
proof -
  let ?f = "compute_fingerprint sha ''POST'' path (JObj [(''session_id'', JStr session)])"
  let ?d1 = "d\<lparr>db_idempotency_keys := db_idempotency_keys d @ [new_key_row key (br_user_id b) ?f now (cfg_idempotency_key_ttl cfg)]\<rparr>"
  have "distinct (map ik_pk (db_idempotency_keys ?d1))"
    using assms(1,4) by (simp add: schema_ok_iff find_idem_def by_key_None_iff new_key_row_def ik_pk_def)
  then have "schema_ok ?d1" using assms(1) by (simp add: schema_ok_iff one_active_booking_per_seat_def)
  moreover have "seats_coherent ?d1" using assms(2) by (simp add: seats_coherent_def)
  moreover have "find_booking bid ?d1 = Some b" using assms(3) by (simp add: find_booking_def)
  ultimately have "confirm_booking_transaction e id bid session key now ?d1 m =
      (Inr (build_booking_response (confirm_booking_row (Some key) now b)),
       confirmed_db bid (br_seat_ids b) now (Some key) ?d1, m)"
    using confirm_succeeds assms(5) by simp
  then show ?thesis
    using assms(3) by (simp add: confirm_booking_route_def load_booking_def begin_new [OF assms(4)] Let_def)
qed

text \<open>The booking just created over seats the session holds can be confirmed.\<close>

lemma created_confirmable:
  fixes cfg f q key now d
  defines "d1 \<equiv> created_db cfg f q key now d"
  assumes "schema_ok d" "unused_key (cq_user_id q) key d" "unused_key (cq_user_id q) key2 d"
    and "distinct (cq_seat_ids q)" "cq_seat_ids q \<noteq> []" "set (cq_seat_ids q) \<inter> active_seat_ids d = {}"
    and "\<forall>l \<in> set (db_booking_seats d). bs_booking_id l < db_next_booking d"
    and "\<forall>i \<in> set (cq_seat_ids q). \<exists>r. find_seat i d = Some r \<and> held_by_sql session now2 r"
  shows "confirmable e (db_next_booking d) (cq_seat_ids q) session now2 (Some key2) d1"
proof -
  let ?p = "create_request_params q key" and ?n = "db_next_booking d"
  have links: "links_insertable e ?n (cq_seat_ids q) d1"
    using assms(5-8) by (fastforce simp: links_insertable_def d1_def list_all_iff bs_pk_def active_seat_ids_def)
  have pend: "find_booking ?n d1 = Some (pending_row ?p now ?n)"
    using assms(2) by (simp add: d1_def created_find_booking)
  have "upd_where (\<lambda>b. br_id b = ?n \<and> br_status b = PENDING) (confirm_booking_row (Some key2) now2) (db_bookings d) = db_bookings d"
    using assms(2) by (intro upd_where_none) (auto simp: schema_ok_iff)
  then have "db_bookings (confirmed_db ?n (cq_seat_ids q) now2 (Some key2) d1) =
      db_bookings d @ [confirm_booking_row (Some key2) now2 (pending_row ?p now ?n)]"
    by (simp add: d1_def upd_where_append) (simp add: pending_row_def)
  moreover have "booking_key_unique (db_bookings d @ [confirm_booking_row (Some key2) now2 (pending_row ?p now ?n)])"
  proof -
    have "booking_key_unique (db_bookings d @ [pending_row (create_request_params q key2) now ?n])"
      using assms(2,4) by (simp add: key_unique_append unused_key_def create_request_params_def)
    then show ?thesis
      by (simp add: booking_key_unique_def confirm_booking_row_def pending_row_def create_request_params_def)
  qed
  ultimately show ?thesis
    using links pend assms(9) by (simp add: confirmable_def d1_def pending_row_def)
qed

text \<open>Creating and confirming over seats the session holds at both instants.\<close>

lemma book_and_confirm:
  assumes "schema_ok d" "seats_coherent d" "cq_seat_ids q \<noteq> []" "distinct (cq_seat_ids q)"
    and "set (cq_seat_ids q) \<inter> active_seat_ids d = {}"
    and "\<forall>l \<in> set (db_booking_seats d). bs_booking_id l < db_next_booking d"
    and "key \<noteq> key2" "unused_key (cq_user_id q) key d" "unused_key (cq_user_id q) key2 d"
    and "insertable (create_request_params q key) d"
    and held1: "\<forall>i \<in> set (cq_seat_ids q). \<exists>row. find_seat i d = Some row \<and> held_by_sql (cq_session_id q) now1 row"
    and held2: "\<forall>i \<in> set (cq_seat_ids q). \<exists>row. find_seat i d = Some row \<and> held_by_sql (cq_session_id q) now2 row"
  shows "\<exists>b d2 c d3 r3.
    create_booking_route sha cfg env1 id path q key now1 d m = (Inr (respond 201 (BookingBody b)), d2, m) \<and>
    confirm_booking_route sha cfg ei env2 id id path2 (resp_id b) (cq_session_id q) key2 now2 d2 r m =
      (Inr (respond 200 (BookingBody c)), d3, r3, m) \<and> resp_status c = CONFIRMED \<and>
    (\<forall>i \<in> set (cq_seat_ids q). i \<in> active_seat_ids d3 \<and>
      (\<exists>row. find_seat i d3 = Some row \<and> sr_status row = BOOKED \<and> sr_booking_id row = Some (resp_id b)))"
proof -
  let ?ids = "cq_seat_ids q" and ?n = "db_next_booking d"
  let ?d2 = "created_db cfg (compute_fingerprint sha ''POST'' path (create_request_json q)) q key now1 d"
  let ?b = "pending_row (create_request_params q key) now1 ?n" and ?c = "confirmed_db ?n ?ids now2 (Some key2)"
  have create: "create_booking_route sha cfg env1 id path q key now1 d m =
      (Inr (respond 201 (BookingBody (build_booking_response ?b))), ?d2, m)"
    using create_goes_through [OF assms(1,8,10) held1] .
  have ok2: "schema_ok ?d2" "seats_coherent ?d2"
    using created_schema [OF assms(1,8)] assms(2) by (simp_all add: seats_coherent_def)
  have b: "br_seat_ids ?b = ?ids" "br_user_id ?b = cq_user_id q"
    by (simp_all add: pending_row_def create_request_params_def)
  have "confirmable ei ?n ?ids (cq_session_id q) now2 (Some key2) ?d2"
    by (rule created_confirmable [OF assms(1,8,9,4,3,5,6) held2])
  moreover have "find_idem (cq_user_id q) key2 ?d2 = None"
    using created_find_idem [of key2 key] assms(7,9) by (simp add: unused_key_def)
  ultimately obtain d3 r3 where confirm: "confirm_booking_route sha cfg ei env2 id id path2 ?n (cq_session_id q) key2 now2 ?d2 r m =
      (Inr (respond 200 (BookingBody (build_booking_response (confirm_booking_row (Some key2) now2 ?b)))), d3, r3, m)"
    and d3: "db_seats d3 = db_seats (?c ?d2)" "db_booking_seats d3 = db_booking_seats (?c ?d2)"
    using confirm_goes_through [OF ok2 created_find_booking [OF assms(1)], unfolded b] by metis
  have eq: "active_seat_ids d3 = active_seat_ids (?c ?d2)" "find_seat i d3 = find_seat i (?c ?d2)" for i
    by (simp_all only: active_seat_ids_def find_seat_def d3)
  have rid: "resp_id (build_booking_response ?b) = ?n"
    by (simp add: build_booking_response_def pending_row_def)
  show ?thesis
  proof (intro exI conjI)
    show "create_booking_route sha cfg env1 id path q key now1 d m =
      (Inr (respond 201 (BookingBody (build_booking_response ?b))), ?d2, m)" by (rule create)
    show "confirm_booking_route sha cfg ei env2 id id path2 (resp_id (build_booking_response ?b)) (cq_session_id q) key2 now2 ?d2 r m =
      (Inr (respond 200 (BookingBody (build_booking_response (confirm_booking_row (Some key2) now2 ?b)))), d3, r3, m)"
      unfolding rid by (rule confirm)
    show "\<forall>i \<in> set ?ids. i \<in> active_seat_ids d3 \<and>
      (\<exists>row. find_seat i d3 = Some row \<and> sr_status row = BOOKED \<and> sr_booking_id row = Some (resp_id (build_booking_response ?b)))"
      unfolding rid eq using held2 by (auto simp: confirmed_active confirmable_find_seat)
  qed (simp add: build_booking_response_def)
qed

lemma purchase_path:
  assumes "healthy d" "\<forall>l \<in> set (db_booking_seats d). bs_booking_id l < db_next_booking d"
    and "get_strategy (cfg_strategy cfg) = Inr s" "0 < cfg_hold_duration cfg" "0 < cfg_optimistic_max_attempts cfg"
    and "unhindered e" "cq_seat_ids q \<noteq> []" "distinct (cq_seat_ids q)"
    and "\<forall>i \<in> set (cq_seat_ids q). \<exists>row. find_seat i d = Some row \<and> reclaimable_sql now row"
    and "key \<noteq> key2" "unused_key (cq_user_id q) key d" "unused_key (cq_user_id q) key2 d"
    and "insertable (create_request_params q key) d"
    and "now1 < now + cfg_hold_duration cfg" "now2 < now + cfg_hold_duration cfg"
  shows "\<exists>reply d1 r1 m1 b d2 m2 c d3 r3 m3.
    create_hold cfg e evt (cq_seat_ids q) (cq_session_id q) now d r m = (Inr reply, d1, r1, m1) \<and> hr_status reply = 201 \<and>
    create_booking_route sha cfg env1 id path q key now1 d1 m1 = (Inr (respond 201 (BookingBody b)), d2, m2) \<and>
    confirm_booking_route sha cfg ei env2 id id path2 (resp_id b) (cq_session_id q) key2 now2 d2 r1 m2 =
      (Inr (respond 200 (BookingBody c)), d3, r3, m3) \<and> resp_status c = CONFIRMED \<and>
    (\<forall>i \<in> set (cq_seat_ids q). i \<in> active_seat_ids d3 \<and>
      (\<exists>row. find_seat i d3 = Some row \<and> sr_status row = BOOKED \<and> sr_booking_id row = Some (resp_id b)))"
proof -
  let ?ids = "cq_seat_ids q" and ?exp = "now + cfg_hold_duration cfg"
  have ok: "schema_ok d" "seats_coherent d" "linkage_ok d" using assms(1) by (simp_all add: healthy_def)
  obtain reply r1 m1 t aud where hold: "create_hold cfg e evt ?ids (cq_session_id q) now d r m =
      (Inr reply, held_db ?ids aud (cq_session_id q) ?exp t now d, r1, m1)" "hr_status reply = 201"
    using hold_goes_through [OF ok(1,2) assms(8,6,3,4,5,9)] by blast
  let ?d1 = "held_db ?ids aud (cq_session_id q) ?exp t now d"
  have ok1: "schema_ok ?d1" "seats_coherent ?d1"
    using held_db_schema_ok held_db_coherent ok assms(9) by blast+
  have held: "\<forall>i \<in> set ?ids. \<exists>row. find_seat i ?d1 = Some row \<and> held_by_sql (cq_session_id q) u row"
    if "u < ?exp" for u
    using assms(9) that by (fastforce simp: held_db_find_seat held_by_sql_def unexpired_sql_def)
  have free: "set ?ids \<inter> active_seat_ids ?d1 = {}"
    using assms(9) ok(3) by (fastforce simp: find_seat_iff [OF ok(1)] dest: reclaimable_not_active)
  have frame: "unused_key (cq_user_id q) k ?d1 = unused_key (cq_user_id q) k d"
      "insertable (create_request_params q key) ?d1 = insertable (create_request_params q key) d" for k
    by (simp_all add: unused_key_def find_idem_def insertable_def find_event_def)
  note rest = book_and_confirm [OF ok1 assms(7,8) free _ assms(10) _ _ _ held [OF assms(14)] held [OF assms(15)],
      unfolded frame held_db_sel, OF assms(2,11-13)]
  obtain b d2 c d3 r3 where
    "create_booking_route sha cfg env1 id path q key now1 ?d1 m1 = (Inr (respond 201 (BookingBody b)), d2, m1)"
    "confirm_booking_route sha cfg ei env2 id id path2 (resp_id b) (cq_session_id q) key2 now2 d2 r1 m1 =
      (Inr (respond 200 (BookingBody c)), d3, r3, m1)" "resp_status c = CONFIRMED"
    "\<forall>i \<in> set ?ids. i \<in> active_seat_ids d3 \<and>
      (\<exists>row. find_seat i d3 = Some row \<and> sr_status row = BOOKED \<and> sr_booking_id row = Some (resp_id b))"
    using rest [where sha = sha and cfg = cfg and ?env1.0 = env1 and path = path and m = m1 and ei = ei
      and ?env2.0 = env2 and ?path2.0 = path2 and r = r1] by blast
  with hold show ?thesis by (intro exI conjI)
qed

section \<open>The property\<close>



end
