(* ===== verification/Demo_Properties.thy ===== *)
theory Demo_Properties
  imports Demo
begin

text \<open>
  What a race shows of a strategy, and what the resets leave behind.
\<close>

section \<open>One attempt\<close>

text \<open>A seat that exists and cannot be taken at \<open>now\<close>.\<close>

definition taken :: "int \<Rightarrow> instant \<Rightarrow> db \<Rightarrow> bool" where
  "taken seat now d \<longleftrightarrow> (\<exists>row. find_seat seat d = Some row \<and> \<not> reclaimable_sql now row)"

text \<open>The one way an attempt at \<open>seat\<close> wins: its write found the seat free on \<open>base\<close>.\<close>

definition wins_seat :: "int \<Rightarrow> timedelta \<Rightarrow> instant \<Rightarrow> db \<Rightarrow> db \<Rightarrow> bool" where
  "wins_seat seat dur now base d' \<longleftrightarrow> 0 < dur \<and>
     (\<exists>row h. find_seat seat base = Some row \<and> reclaimable_sql now row \<and>
       d' = held_db [seat] [seat] h (now + dur) now now base)"

lemma wins_seat_taken: "wins_seat seat dur now base d' \<Longrightarrow> \<not> taken seat now base \<and> taken seat now d'"
  by (auto simp: wins_seat_def taken_def held_db_find_seat reclaimable_sql_def expired_sql_def)

lemma wins_seat_schema: "wins_seat seat dur now base d' \<Longrightarrow> schema_ok base \<Longrightarrow> schema_ok d'"
  using held_db_schema_ok by (auto simp: wins_seat_def)

lemma wins_seat_audit: "wins_seat seat dur now base d' \<Longrightarrow> length (db_hold_audit base) < length (db_hold_audit d')"
  by (auto simp: wins_seat_def held_db_def audit_rows_def)

lemma wins_on_seat: "wins_on [seat] h dur now base r d' \<Longrightarrow> wins_seat seat dur now base d'"
  by (auto simp: wins_on_def wins_seat_def)

lemma pessimistic_attempt:
  assumes "schema_ok d" "pessimistic_acquire err [seat] h dur now d m = (res, d', m')"
  shows "(\<forall>r. res = Inr r \<longrightarrow> \<not> ar_success r) \<and> d' = d \<or> (\<exists>r. res = Inr r \<and> ar_success r) \<and> wins_seat seat dur now d d'"
proof (cases "\<exists>r. res = Inr r \<and> ar_success r")
  case True
  then obtain r where r: "res = Inr r" "ar_success r" by blast
  from pessimistic_outcome(1,3) [OF assms(1) assms(2) [unfolded r(1)] r(2)] r show ?thesis
    by (auto simp: wins_seat_def)
next
  case False
  with assms(2) pessimistic_lost [of err "[seat]" h dur now d m _ d' m'] show ?thesis by (cases res) auto
qed

lemma window_acquire:
  assumes "s \<noteq> NaiveStrategy" "schema_ok d" "schema_ok d1"
    and "acquire s (window_env e d1) [seat] h dur now d m = (res, d', m')"
  shows "(\<forall>r. res = Inr r \<longrightarrow> \<not> ar_success r) \<and> d' \<in> {d, d1} \<or>
    (\<exists>r. res = Inr r \<and> ar_success r) \<and> wins_seat seat dur now d1 d'"
proof (cases s)
  case PessimisticStrategy
  with assms(4) pessimistic_attempt [OF assms(3)] show ?thesis by (fastforce simp: window_env_def)
next
  case OptimisticStrategy
  have "(interference (\<lambda>_ _. d1) (\<lambda>_. id))\<^sup>*\<^sup>* x y \<Longrightarrow> y \<in> {x, d1}" for x y
    by (induction rule: rtranclp_induct) (auto simp: interference_def)
  moreover have "optimistic_loop (\<lambda>_ _. d1) (\<lambda>_. id) (ae_update_errors e) (ae_max_attempts e) 1 [seat] h dur now d m = (res, d', m')"
    using assms(4) OptimisticStrategy by (simp add: window_env_def optimistic_acquire_def)
  from optimistic_loop_outcome [OF this _ _ assms(2)] assms(3)
  obtain dk where "(interference (\<lambda>_ _. d1) (\<lambda>_. id))\<^sup>*\<^sup>* d dk"
    "d' = dk \<and> (\<forall>r. res = Inr r \<longrightarrow> \<not> ar_success r) \<or>
     (\<exists>r. res = Inr r \<and> dk = d1 \<and> wins_on [seat] h dur now dk r d')" by auto
  ultimately show ?thesis using wins_on_seat by (fastforce simp: wins_on_def)
qed (use assms(1) in simp)

lemma alone_acquire:
  assumes "s \<noteq> NaiveStrategy" "schema_ok d"
    and "acquire s (undisturbed e) [seat] h dur now d m = (res, d', m')"
  shows "(\<forall>r. res = Inr r \<longrightarrow> \<not> ar_success r) \<and> d' = d \<or>
    (\<exists>r. res = Inr r \<and> ar_success r) \<and> wins_seat seat dur now d d'"
proof (cases s)
  case PessimisticStrategy
  with assms(3) pessimistic_attempt [OF assms(2)] show ?thesis by (simp add: acquire_undisturbed)
next
  case OptimisticStrategy
  then have "optimistic_acquire (\<lambda>_. id) (\<lambda>_. id) (ae_update_errors e) (ae_max_attempts e) [seat] h dur now d m = (res, d', m')"
    using assms(3) by (simp add: acquire_undisturbed)
  from optimistic_alone [OF assms(2) this] show ?thesis using wins_on_seat by (fastforce simp: wins_on_def)
qed (use assms(1) in simp)

text \<open>The attempt's outcome and database are those of its acquisition.\<close>

lemma attempt_acquire:
  assumes "run_one_attempt s e l seat h dur now d m = (a, d', m')"
  shows "\<exists>res. acquire s e [seat] h dur now d m = (res, d', m') \<and>
    (at_outcome a = Acquired \<longleftrightarrow> (\<exists>r. res = Inr r \<and> ar_success r))"
  using assms by (auto simp: run_one_attempt_def split: prod.splits sum.splits if_splits)

section \<open>The whole race\<close>

text \<open>
  What a stretch of a race does: at most one attempt wins, and only if the seat can be taken; from
  then on it cannot.
\<close>

definition one_winner :: "int \<Rightarrow> instant \<Rightarrow> db \<Rightarrow> nat \<Rightarrow> db \<Rightarrow> bool" where
  "one_winner seat now d n d' \<longleftrightarrow> schema_ok d' \<and> length (db_hold_audit d) \<le> length (db_hold_audit d') \<and>
     (n = 0 \<and> d' = d \<or> n = 1 \<and> \<not> taken seat now d \<and> taken seat now d')"

lemma one_winner_trans:
  "one_winner seat now d n d1 \<Longrightarrow> one_winner seat now d1 k d2 \<Longrightarrow> one_winner seat now d (n + k) d2"
  by (auto simp: one_winner_def)

lemma successes_simps [simp]:
  "successes [] = 0"
  "successes (a # as) = (if at_outcome a = Acquired then 1 else 0) + successes as"
  by (simp_all add: successes_def)

lemma gather_one_winner:
  assumes "s \<noteq> NaiveStrategy" "schema_ok d"
    and "gather_attempts s e l seat dur now hs d m = (rs, d', m')"
  shows "one_winner seat now d (successes rs) d'"
  using assms(2,3)
proof (induction hs arbitrary: d m rs d' m')
  case Nil
  then show ?case by (auto simp: one_winner_def)
next
  case (Cons ho hs)
  obtain h o' where ho: "ho = (h, o')" by fastforce
  show ?case
  proof (cases o')
    case True
    obtain rs1 d1 m1 where inner: "gather_attempts s e l seat dur now hs d m = (rs1, d1, m1)"
      by (metis prod_cases3)
    obtain a d2 m2 where att: "run_one_attempt s (window_env e d1) (l h) seat h dur now d m1 = (a, d2, m2)"
      by (metis prod_cases3)
    have r: "rs = a # rs1" "d' = (if d2 = d then d1 else d2)"
      using Cons.prems(2) inner att by (simp_all add: ho True)
    note w1 = Cons.IH [OF Cons.prems(1) inner]
    then have s1: "schema_ok d1" by (simp add: one_winner_def)
    obtain res where acq: "acquire s (window_env e d1) [seat] h dur now d m1 = (res, d2, m2)"
      "at_outcome a = Acquired \<longleftrightarrow> (\<exists>r. res = Inr r \<and> ar_success r)"
      using attempt_acquire [OF att] by blast
    from window_acquire [OF assms(1) Cons.prems(1) s1 acq(1)] show ?thesis
    proof
      assume "(\<forall>r. res = Inr r \<longrightarrow> \<not> ar_success r) \<and> d2 \<in> {d, d1}"
      then have "at_outcome a \<noteq> Acquired" "d' = d1" using acq(2) r(2) by auto
      with w1 r(1) show ?thesis by simp
    next
      assume win: "(\<exists>r. res = Inr r \<and> ar_success r) \<and> wins_seat seat dur now d1 d2"
      then have "one_winner seat now d1 1 d2"
        using wins_seat_taken wins_seat_schema s1 wins_seat_audit by (fastforce simp: one_winner_def)
      moreover have "d2 \<noteq> d" using win wins_seat_audit w1 by (fastforce simp: one_winner_def)
      ultimately show ?thesis using one_winner_trans [OF w1, of 1 d2] win acq(2) r by simp
    qed
  next
    case False
    obtain a d1 m1 where att: "run_one_attempt s (undisturbed e) (l h) seat h dur now d m = (a, d1, m1)"
      by (metis prod_cases3)
    obtain rs1 d2 m2 where rest: "gather_attempts s e l seat dur now hs d1 m1 = (rs1, d2, m2)"
      by (metis prod_cases3)
    have r: "rs = a # rs1" "d' = d2"
      using Cons.prems(2) rest att by (simp_all add: ho False)
    obtain res where acq: "acquire s (undisturbed e) [seat] h dur now d m = (res, d1, m1)"
      "at_outcome a = Acquired \<longleftrightarrow> (\<exists>r. res = Inr r \<and> ar_success r)"
      using attempt_acquire [OF att] by blast
    have w1: "one_winner seat now d (if at_outcome a = Acquired then 1 else 0) d1"
      using alone_acquire [OF assms(1) Cons.prems(1) acq(1)] acq(2) Cons.prems(1)
        wins_seat_taken wins_seat_schema wins_seat_audit by (fastforce simp: one_winner_def)
    then have "schema_ok d1" by (simp add: one_winner_def)
    from one_winner_trans [OF w1 Cons.IH [OF this rest]] r show ?thesis by simp
  qed
qed

text \<open>
  The naive strategy with every window open: all attempts read the AVAILABLE seat, then write one
  over the other. Everyone wins, and the last write stands.
\<close>

definition raced :: "int \<Rightarrow> timedelta \<Rightarrow> instant \<Rightarrow> db \<Rightarrow> db \<Rightarrow> bool" where
  "raced seat dur now d d' \<longleftrightarrow>
     (\<exists>h aud. d' = (held_db [seat] [seat] h (now + dur) (db_clock d) now d)\<lparr>db_hold_audit := aud\<rparr> \<and>
       length (db_hold_audit d) < length aud)"

lemma naive_write_audit:
  "naive_write h dur now rows ids (D\<lparr>db_hold_audit := aud\<rparr>) =
    (naive_write h dur now rows ids D)\<lparr>db_hold_audit := aud @ audit_rows (dict_keys ids) h now\<rparr>"
  by (simp add: naive_write_def cong: option.case_cong sum.case_cong)

lemma raced_audit: "raced seat dur now d d' \<Longrightarrow> length (db_hold_audit d) < length (db_hold_audit d')"
  by (auto simp: raced_def)

lemma naive_write_raced:
  assumes "schema_ok d" "seats_coherent d" "0 < dur" "find_seat seat d = Some r" "sr_status r = AVAILABLE"
    and "d1 = d \<or> raced seat dur now d d1"
  shows "raced seat dur now d (naive_write h dur now (select_seats [seat] d) [seat] d1)"
proof -
  let ?w = "naive_write h dur now (select_seats [seat] d) [seat]"
  let ?held = "\<lambda>h. held_db [seat] [seat] h (now + dur) (db_clock d) now d"
  have ids: "\<forall>i \<in> set [seat]. \<exists>r. find_seat i d = Some r \<and> sr_status r = AVAILABLE"
    using assms(4,5) by simp
  have rec: "\<forall>i \<in> set [seat]. \<exists>r. find_seat i d = Some r \<and> reclaimable_sql now r"
    using assms(4,5) by (simp add: reclaimable_sql_def)
  from assms(6) show ?thesis
  proof
    assume "d1 = d"
    then have "?w d1 = (?held h)\<lparr>db_hold_audit := db_hold_audit (?held h)\<rparr>"
      using naive_write_held [OF assms(1,2) _ rec, of dur h] assms(3) by simp
    moreover have "length (db_hold_audit d) < length (db_hold_audit (?held h))"
      by (simp add: held_db_def audit_rows_def)
    ultimately show ?thesis unfolding raced_def by blast
  next
    assume "raced seat dur now d d1"
    then obtain h' aud where d1: "d1 = (?held h')\<lparr>db_hold_audit := aud\<rparr>" "length (db_hold_audit d) < length aud"
      by (auto simp: raced_def)
    have "db_seats (?w (?held h')) = db_seats (?held h)"
      using naive_write_over_other [OF assms(1-3) ids] by simp
    then have "(?w (?held h'))\<lparr>db_hold_audit := a\<rparr> = (?held h)\<lparr>db_hold_audit := a\<rparr>" for a
      by (simp add: naive_write_def held_db_def)
    then have "?w d1 = (?held h)\<lparr>db_hold_audit := aud @ audit_rows [seat] h now\<rparr>"
      unfolding d1 naive_write_audit by simp
    with d1(2) show ?thesis unfolding raced_def by (metis length_append trans_less_add1)
  qed
qed

lemma gather_naive:
  assumes "schema_ok d" "seats_coherent d" "0 < dur" "find_seat seat d = Some r" "sr_status r = AVAILABLE"
    and "\<forall>x \<in> set hs. snd x"
  shows "\<exists>rs d'. gather_attempts NaiveStrategy e l seat dur now hs d m = (rs, d', m) \<and>
    successes rs = length hs \<and> (if hs = [] then d' = d else raced seat dur now d d')"
  using assms(6)
proof (induction hs)
  case Nil
  then show ?case by simp
next
  case (Cons ho hs)
  obtain h where ho: "ho = (h, True)" using Cons.prems by (cases ho) auto
  from Cons obtain rs d1 where inner: "gather_attempts NaiveStrategy e l seat dur now hs d m = (rs, d1, m)"
    "successes rs = length hs" "d1 = d \<or> raced seat dur now d d1" by (auto split: if_splits)
  let ?d2 = "naive_write h dur now (select_seats [seat] d) [seat] d1"
  have raced: "raced seat dur now d ?d2" by (rule naive_write_raced [OF assms(1-5) inner(3)])
  then have "?d2 \<noteq> d" using raced_audit by fastforce
  moreover have "acquire NaiveStrategy (window_env e d1) [seat] h dur now d m =
      (Inr (acquired_result [seat] 1), ?d2, m)"
    using naive_accepts [OF assms(1), of "[seat]" dur now "\<lambda>_. d1" h m] assms(3-5)
    by (simp add: window_env_def reclaimable_sql_def)
  then have "\<exists>a. run_one_attempt NaiveStrategy (window_env e d1) (l h) seat h dur now d m = (a, ?d2, m) \<and> at_outcome a = Acquired"
    by (simp add: run_one_attempt_def)
  ultimately show ?case using inner raced by (auto simp: ho)
qed

text \<open>Without lock errors the pessimistic strategy always has a winner.\<close>

lemma pessimistic_wins:
  assumes "schema_ok d" "0 < dur" "find_seat seat d = Some row" "reclaimable_sql now row" "ae_lock_error e = None"
    and "ae_race e 1 d = d" "run_one_attempt PessimisticStrategy e l seat h dur now d m = (a, d', m')"
  shows "at_outcome a = Acquired"
  using assms(3-7) hold_decision_success_iff [of "[seat]" now d]
  by (auto simp: run_one_attempt_def pessimistic_result [OF assms(1,2)] Let_def)

lemma gather_pessimistic:
  assumes "schema_ok d" "0 < dur" "find_seat seat d = Some row" "reclaimable_sql now row" "ae_lock_error e = None"
    and "gather_attempts PessimisticStrategy e l seat dur now hs d m = (rs, d', m')" "hs \<noteq> []"
  shows "0 < successes rs"
  using assms(6,7)
proof (induction hs arbitrary: m rs d' m')
  case (Cons ho hs)
  note win = pessimistic_wins [OF assms(1-4)]
  obtain h o' where ho: "ho = (h, o')" by fastforce
  show ?case
  proof (cases o')
    case False
    obtain a d1 m1 where att: "run_one_attempt PessimisticStrategy (undisturbed e) (l h) seat h dur now d m = (a, d1, m1)"
      by (metis prod_cases3)
    then have "at_outcome a = Acquired" using win [OF _ _ att] assms(5) by (simp add: undisturbed_def)
    then show ?thesis using Cons.prems(1) att by (auto simp: ho False split: prod.splits)
  next
    case True
    obtain rs1 d1 m1 where inner: "gather_attempts PessimisticStrategy e l seat dur now hs d m = (rs1, d1, m1)"
      by (metis prod_cases3)
    obtain a d2 m2 where att: "run_one_attempt PessimisticStrategy (window_env e d1) (l h) seat h dur now d m1 = (a, d2, m2)"
      by (metis prod_cases3)
    have r: "rs = a # rs1" using Cons.prems(1) inner att by (simp add: ho True)
    show ?thesis
    proof (cases "hs = []")
      case True
      with inner have "d1 = d" by simp
      with win [OF _ _ att] assms(5) r show ?thesis by (simp add: window_env_def)
    next
      case False
      with Cons.IH [OF inner] r show ?thesis by simp
    qed
  qed
qed simp

section \<open>Resets\<close>

lemma reset_row_frame [simp]:
  "sr_id (reset_row c r) = sr_id r"
  "seat_place (reset_row c r) = seat_place r"
  "sr_event_id (reset_row c r) = sr_event_id r"
  "sr_status (reset_row c r) = AVAILABLE"
  "sr_booking_id (reset_row c r) = None"
  by (simp_all add: reset_row_def seat_place_def)

lemma row_coherent_reset [simp]: "row_coherent (reset_row c r)"
  by (simp add: row_coherent_def coherent_def reset_row_def seat_to_domain_def)

lemma reset_where_sel [simp]:
  "db_seats (reset_where P d) = upd_where P (reset_row (db_clock d)) (db_seats d)"
  "db_booking_seats (reset_where P d) = db_booking_seats d"
  "db_events (reset_where P d) = db_events d"
  "active_seat_ids (reset_where P d) = active_seat_ids d"
  by (simp_all add: reset_where_def active_seat_ids_def)

lemma reset_find_seat:
  assumes "find_seat i d = Some r" "P r"
  shows "find_seat i (reset_where P d) = Some (reset_row (db_clock d) r)"
  using assms by (simp add: find_seat_def by_key_upd_where)

lemma reset_schema: "schema_ok d \<Longrightarrow> schema_ok (reset_where P d)"
  by (simp add: reset_where_def schema_ok_iff map_upd_where one_active_booking_per_seat_def)

lemma reset_coherent: "seats_coherent d \<Longrightarrow> seats_coherent (reset_where P d)"
  by (auto simp: seats_coherent_iff set_upd_where)

text \<open>Linkage survives exactly if no seat that is reset has an active booking.\<close>

lemma reset_linkage_iff:
  assumes "linkage_ok d"
  shows "linkage_ok (reset_where P d) \<longleftrightarrow> (\<forall>r \<in> set (db_seats d). P r \<longrightarrow> sr_id r \<notin> active_seat_ids d)"
proof -
  have "linkage_ok (reset_where P d) \<longleftrightarrow> (\<forall>r \<in> set (db_seats d). P r \<longrightarrow> sr_id r \<notin> active_seat_ids d) \<and>
      (\<forall>r \<in> set (db_seats d). \<not> P r \<longrightarrow> (sr_status r = BOOKED) = (sr_id r \<in> active_seat_ids d) \<and>
        (sr_booking_id r \<noteq> None \<longrightarrow> sr_id r \<in> active_seat_ids d))"
    unfolding linkage_ok_iff reset_where_sel upd_where_def set_map ball_simps by auto
  with assms show ?thesis unfolding linkage_ok_iff by blast
qed

lemma seat_place_hold_row: "seat_place (hold_row h e t r) = seat_place r"
  by (simp add: seat_place_def)

lemma gate_open:
  assumes "cfg_demo_mode cfg" "find_event evt d = Some ev"
  shows "bindE (require_demo_mode cfg) (\<lambda>_. get_event_or_404 evt d) = Inr ev"
  using assms by (simp add: require_demo_mode_def get_event_or_404_def)

text \<open>A race that answers 200 has its attempts counted.\<close>

lemma run_race_Inr:
  assumes "run_race cfg e overlap l q now d m = (Inr rp, d', m')"
  shows "2 \<le> rq_concurrency q \<and> rp_successful_holders rp = successes (fst (fire cfg e overlap l q now d m)) \<and>
    rp_excess_holders rp = successes (fst (fire cfg e overlap l q now d m)) - 1"
proof (cases "bindE (require_demo_mode cfg) (\<lambda>_.
    if 2 \<le> rq_concurrency q \<and> rq_concurrency q \<le> 100 then get_event_or_404 (rq_event_id q) d
    else Inl ConcurrencyOutOfRange)")
  case (Inl x)
  with assms show ?thesis by (simp add: run_race_def)
next
  case (Inr ev)
  then have "2 \<le> rq_concurrency q" by (simp add: bindE_eq_Inr_iff split: if_splits)
  moreover obtain rs d1 m1 where f: "fire cfg e overlap l q now d m = (rs, d1, m1)" by (metis prod_cases3)
  obtain inv where "rp = \<lparr>rp_attempts = rs, rp_successful_holders = successes rs, rp_excess_holders = successes rs - 1, rp_invariants = inv\<rparr>"
    using assms Inr f by (auto simp: run_race_def Let_def bindE_eq_Inr_iff)
  ultimately show ?thesis using f by simp
qed

text \<open>With the gate open, a valid request and an event, a race always answers 200.\<close>

lemma run_race_answers:
  assumes "cfg_demo_mode cfg" "2 \<le> rq_concurrency q" "rq_concurrency q \<le> 100" "find_event (rq_event_id q) d = Some ev"
  shows "\<exists>rp d' m'. run_race cfg e overlap l q now d m = (Inr rp, d', m')"
proof -
  obtain rs d1 m1 where f: "fire cfg e overlap l q now d m = (rs, d1, m1)" by (metis prod_cases3)
  obtain res where "compute_invariants ev d1 = Inr res" using compute_invariants_passed [of ev d1] by blast
  then show ?thesis
    using assms f by (simp add: run_race_def require_demo_mode_def get_event_or_404_def Let_def invariants_of_def)
qed

lemma bookable_iff: "bookable now r \<longleftrightarrow> reclaimable_sql now r"
  by (auto simp: bookable_def reclaimable_sql_def lapsed_to_domain)

lemma event_seats_reset:
  "event_seats evt (reset_where (\<lambda>r. sr_event_id r = evt) d) = map (reset_row (db_clock d)) (event_seats evt d)"
  by (simp add: event_seats_def filter_upd_where)

section \<open>Properties\<close>


text \<open>
  The naive race. Fire \<open>concurrency\<close> naive attempts at a seat that has no active booking, all
  of them reading before any of them writes (which takes a database connection for each), on a
  healthy database: every one of them is told that it acquired the seat, and the report shown next
  to that result passes every check it makes.
\<close>

theorem naive_race_everyone_wins:
  assumes "cfg_demo_mode cfg" "2 \<le> rq_concurrency q" "rq_concurrency q \<le> 100" "rq_strategy q = NaiveStrategy"
    and "healthy d" "find_event (rq_event_id q) d = Some ev" "int (length (event_seats (rq_event_id q) d)) = ev_total_seats ev"
    and "find_seat (rq_seat_id q) d = Some row" "sr_event_id row = rq_event_id q" "rq_seat_id q \<notin> active_seat_ids d"
    and "0 < cfg_demo_default_hold_duration cfg"
  shows "\<exists>rp d'. run_race cfg e (\<lambda>_. True) l q now d m = (Inr rp, d', m) \<and>
    rp_successful_holders rp = nat (rq_concurrency q) \<and> rp_excess_holders rp = nat (rq_concurrency q) - 1 \<and>
    list_all (\<lambda>x. ir_passed (snd x)) (is_results (rp_invariants rp))"
proof -
  let ?P = "\<lambda>r. sr_id r = rq_seat_id q \<and> sr_event_id r = rq_event_id q"
  let ?d0 = "reset_where ?P d"
  let ?dur = "cfg_demo_default_hold_duration cfg"
  let ?hs = "map (\<lambda>h. (h, True)) (race_holders (nat (rq_concurrency q)))"
  have h: "schema_ok d" "seats_coherent d" "linkage_ok d" using assms(5) by (simp_all add: healthy_def)
  note h0 = reset_schema [OF h(1), of ?P] reset_coherent [OF h(2), of ?P]
  have l0: "linkage_ok ?d0" using assms(10) by (auto simp: reset_linkage_iff [OF h(3)])
  have seat: "find_seat (rq_seat_id q) ?d0 = Some (reset_row (db_clock d) row)"
    using assms(8,9) find_seat_SomeD [OF assms(8)] by (intro reset_find_seat) simp_all
  have hs: "?hs \<noteq> []" "length ?hs = nat (rq_concurrency q)" using assms(2) by (simp_all add: race_holders_def)
  obtain rs d1 where g: "gather_attempts NaiveStrategy (e\<lparr>ae_max_attempts := cfg_optimistic_max_attempts cfg\<rparr>) l
      (rq_seat_id q) ?dur now ?hs ?d0 m = (rs, d1, m)" "successes rs = nat (rq_concurrency q)"
      "raced (rq_seat_id q) ?dur now ?d0 d1"
    using gather_naive [OF h0 assms(11) seat, where hs = ?hs and e = "e\<lparr>ae_max_attempts := cfg_optimistic_max_attempts cfg\<rparr>"
        and l = l and now = now and m = m] hs by auto
  from g(3) obtain hh aud where d1: "d1 = (held_db [rq_seat_id q] [rq_seat_id q] hh (now + ?dur) (db_clock ?d0) now ?d0)\<lparr>db_hold_audit := aud\<rparr>"
    by (auto simp: raced_def)
  let ?held = "held_db [rq_seat_id q] [rq_seat_id q] hh (now + ?dur) (db_clock ?d0) now ?d0"
  have rec: "\<forall>i \<in> set [rq_seat_id q]. \<exists>r. find_seat i ?d0 = Some r \<and> reclaimable_sql now r"
    using seat by (simp add: reclaimable_sql_def)
  have "schema_ok ?held" "seats_coherent ?held" "linkage_ok ?held"
    using held_db_schema_ok [OF h0(1)] held_db_coherent [OF h0(2) rec h0(1)] held_db_linkage [OF l0 rec h0(1)] by auto
  then have ok: "healthy d1"
    by (simp add: d1 healthy_def schema_ok_iff seats_coherent_def linkage_ok_iff active_seat_ids_def
        one_active_booking_per_seat_def)
  have ev1: "find_event (rq_event_id q) d1 = Some ev" using assms(6) by (simp add: d1 find_event_def)
  have "length (event_seats (rq_event_id q) d1) = length (event_seats (rq_event_id q) d)"
    by (rule event_seats_places) (simp add: d1 map_upd_where seat_place_hold_row)
  with healthy_report [OF ok ev1] assms(7) obtain res where
    inv: "compute_invariants ev d1 = Inr res" "list_all (\<lambda>x. ir_passed (snd x)) res"
    using ev1 by (auto simp: get_invariants_def bindE_eq_Inr_iff)
  have "invariants_of ev d1 = Inr (summarize_invariants res)" using inv(1) by (simp add: invariants_of_def)
  then show ?thesis
    using assms(1-4,6) g(1,2) inv(2)
    by (simp add: run_race_def fire_def require_demo_mode_def get_event_or_404_def Let_def summarize_invariants_def)
qed

definition demo_settings :: settings where
  "demo_settings = default_settings\<lparr>cfg_demo_mode := True\<rparr>"

definition sample_race :: "strategy \<Rightarrow> race_request" where
  "sample_race s = \<lparr>rq_event_id = 1, rq_seat_id = 1, rq_concurrency = 3, rq_strategy = s\<rparr>"

lemma demo_settings_sel [simp]:
  "cfg_demo_mode demo_settings" "cfg_demo_default_hold_duration demo_settings = 8000000"
  by (simp_all add: demo_settings_def default_settings_def seconds_def)

lemma sample_race_sel [simp]:
  "rq_event_id (sample_race s) = 1" "rq_seat_id (sample_race s) = 1" "rq_concurrency (sample_race s) = 3"
  "rq_strategy (sample_race s) = s"
  by (simp_all add: sample_race_def)


theorem naive_race_everyone_wins_witness:
  "\<exists>rp d'. run_race demo_settings quiet_env (\<lambda>_. True) (\<lambda>_. 1) (sample_race NaiveStrategy) 100 sample_db zero_metrics =
      (Inr rp, d', zero_metrics) \<and> rp_successful_holders rp = 3 \<and> rp_excess_holders rp = 2"
proof -
  obtain ev where ev: "find_event 1 sample_db = Some ev" "int (length (event_seats 1 sample_db)) = ev_total_seats ev"
    using sample_event by blast
  have "1 \<notin> active_seat_ids sample_db" by (simp add: active_seat_ids_def bs_active_def sample_db_def)
  with naive_race_everyone_wins [of demo_settings "sample_race NaiveStrategy" sample_db ev "seat_at 1 AVAILABLE 0 None None None"
      quiet_env "\<lambda>_. 1" 100 zero_metrics] ev sample_healthy
  obtain rp d' where "run_race demo_settings quiet_env (\<lambda>_. True) (\<lambda>_. 1) (sample_race NaiveStrategy) 100 sample_db zero_metrics =
      (Inr rp, d', zero_metrics)" "rp_successful_holders rp = nat 3" "rp_excess_holders rp = nat 3 - 1" by auto
  then show ?thesis by (intro exI [of _ rp] exI [of _ d']) simp
qed

text \<open>
  What a reset leaves behind. It makes every seat of the event AVAILABLE with version 0, and
  the invariant report of a database that was healthy before passes afterwards exactly if no seat
  of the event was BOOKED: the rows in \<open>booking_seats\<close> stay active. A seat that was BOOKED cannot be
  confirmed on the database the reset leaves, for any booking and any session.
\<close>

theorem reset_keeps_links:
  assumes "cfg_demo_mode cfg" "healthy d" "find_event evt d = Some ev" "int (length (event_seats evt d)) = ev_total_seats ev"
    and "reset_event cfg evt d = (res, d')"
  shows "res = Inr (evt, length (event_seats evt d)) \<and>
    (\<forall>r \<in> set (event_seats evt d'). sr_status r = AVAILABLE \<and> sr_version r = 0) \<and>
    (\<exists>rs. get_invariants evt d' = Some (Inr (rs, \<forall>r \<in> set (event_seats evt d). sr_status r \<noteq> BOOKED))) \<and>
    (\<forall>r \<in> set (event_seats evt d). sr_status r = BOOKED \<longrightarrow>
      fst (attempt_confirm_write ei base bid [sr_id r] session now key d' m) \<noteq> Inr True)"
proof -
  let ?P = "\<lambda>r. sr_event_id r = evt"
  have h: "schema_ok d" "seats_coherent d" "linkage_ok d" using assms(2) by (simp_all add: healthy_def)
  have d': "d' = reset_where ?P d" and res: "res = Inr (evt, length (event_seats evt d))"
    using assms(5) gate_open [OF assms(1,3)] by (simp_all add: reset_event_def rowcount_def event_seats_def)
  note es = event_seats_reset [of evt d, folded d']
  have link: "sr_status r = BOOKED \<longleftrightarrow> sr_id r \<in> active_seat_ids d" if "r \<in> set (event_seats evt d)" for r
    using h(3) that by (auto simp: linkage_ok_iff event_seats_def)
  have ev: "find_event evt d' = Some ev" using assms(3) by (simp add: d' find_event_def)
  have s': "schema_ok d'" unfolding d' by (rule reset_schema [OF h(1)])
  have "check_booking_linkage (map seat_to_domain (event_seats evt d')) (active_seat_ids d') = Inr () \<longleftrightarrow>
      (\<forall>r \<in> set (event_seats evt d). sr_status r \<noteq> BOOKED)"
    using link by (auto simp: check_booking_linkage_iff es) (auto simp: d')
  with all_passed_iff [OF s' ev] assms(4) have "\<exists>rs. get_invariants evt d' = Some (Inr (rs, \<forall>r \<in> set (event_seats evt d). sr_status r \<noteq> BOOKED))"
    by (simp add: es)
  moreover have "fst (attempt_confirm_write ei base bid [sr_id r] session now key d' m) \<noteq> Inr True"
    if "r \<in> set (event_seats evt d)" "sr_status r = BOOKED" for r
    using active_link_blocks [OF s'] link [OF that(1)] that(2) by (simp add: d')
  ultimately show ?thesis using res by (auto simp: es reset_row_def)
qed

theorem reset_keeps_links_witness:
  "\<exists>res d' rs. reset_event demo_settings 1 sample_db = (res, d') \<and> get_invariants 1 d' = Some (Inr (rs, False))"
proof -
  obtain ev where ev: "find_event 1 sample_db = Some ev" "int (length (event_seats 1 sample_db)) = ev_total_seats ev"
    using sample_event by blast
  obtain res d' where r: "reset_event demo_settings 1 sample_db = (res, d')" by fastforce
  have "\<not> (\<forall>r \<in> set (event_seats 1 sample_db). sr_status r \<noteq> BOOKED)"
    by (simp add: event_seats_def sample_db_def)
  with reset_keeps_links [OF demo_settings_sel(1) sample_healthy ev r] r show ?thesis by auto
qed

end
