(* ===== verification/Seed.thy ===== *)
theory Seed
  imports Demo_Properties
begin

text \<open>
  \<^verbatim>\<open>scripts/seed.py\<close> and \<^verbatim>\<open>scripts/seed_demo_event.py\<close>: how events and their seats come into being.
  Ids are drawn from PostgreSQL's identity columns: the id of the event and the first seat id are
  arguments, and the seats of one INSERT get consecutive ids.
\<close>

section \<open>The layout of a venue\<close>

abbreviation "SEATS_PER_ROW \<equiv> (20 :: nat)"
abbreviation "ROWS_PER_SECTION \<equiv> (10 :: nat)"
abbreviation "SEATS_PER_SECTION \<equiv> SEATS_PER_ROW * ROWS_PER_SECTION"

text \<open>The loop of \<open>_section_label\<close>: one letter per round, the last one first.\<close>

function label_loop :: "nat \<Rightarrow> string \<Rightarrow> string" where
  "label_loop index label =
     (if 0 < index then label_loop ((index - 1) div 26) (char_of (65 + (index - 1) mod 26) # label) else label)"
  by auto

termination by (relation "measure fst") (auto simp: div_less_dividend less_Suc_eq_le order_le_less_trans [OF div_le_dividend])

declare label_loop.simps [simp del]

definition section_label :: "nat \<Rightarrow> string" where
  "section_label index = label_loop (index + 1) []"

record seat_values =
  sv_event_id :: int
  sv_section :: string
  sv_row_label :: string
  sv_seat_number :: int
  sv_status :: seat_status
  sv_version :: int

definition seat_values_at :: "int \<Rightarrow> nat \<Rightarrow> seat_values" where
  "seat_values_at evt i =
     (let section_index = i div SEATS_PER_SECTION; remainder = i mod SEATS_PER_SECTION;
          row_index = remainder div SEATS_PER_ROW; seat_index = remainder mod SEATS_PER_ROW
      in \<lparr>sv_event_id = evt, sv_section = section_label section_index, sv_row_label = nat_dec (row_index + 1),
          sv_seat_number = int seat_index + 1, sv_status = AVAILABLE, sv_version = 0\<rparr>)"

definition build_seat_rows :: "int \<Rightarrow> int \<Rightarrow> seat_values list" where
  "build_seat_rows evt total_seats = map (seat_values_at evt) [0..<nat total_seats]"

section \<open>Seeding an event\<close>

text \<open>\<open>INSERT INTO seats\<close> with these values: the other columns take their defaults.\<close>

definition seat_from :: "instant \<Rightarrow> int \<Rightarrow> seat_values \<Rightarrow> seat_row" where
  "seat_from clock i v =
     \<lparr>sr_id = i, sr_event_id = sv_event_id v, sr_section = sv_section v, sr_row_label = sv_row_label v,
      sr_seat_number = sv_seat_number v, sr_status = sv_status v, sr_version = sv_version v,
      sr_held_by = None, sr_expires = None, sr_booking_id = None, sr_updated_at = clock\<rparr>"

fun seats_from :: "instant \<Rightarrow> int \<Rightarrow> seat_values list \<Rightarrow> seat_row list" where
  "seats_from clock i [] = []"
| "seats_from clock i (v # vs) = seat_from clock i v # seats_from clock (i + 1) vs"

text \<open>
  Both INSERTs and the COMMIT. \<open>empty_insert\<close>: whether an INSERT of no rows goes through or raises.
\<close>

definition insert_event :: "bool \<Rightarrow> int \<Rightarrow> int \<Rightarrow> string \<Rightarrow> string \<Rightarrow> instant \<Rightarrow> int \<Rightarrow> seat_values list \<Rightarrow> db \<Rightarrow>
    (db_error + int) \<times> db" where
  "insert_event empty_insert eid first name venue starts_at total_seats vs d =
     (if vs = [] \<and> \<not> empty_insert then (Inl IntegrityError, d)
      else (Inr eid,
            d\<lparr>db_events := db_events d @ [\<lparr>ev_id = eid, ev_name = name, ev_venue = venue, ev_starts_at = starts_at,
                ev_total_seats = total_seats, ev_created_at = db_clock d\<rparr>],
              db_seats := db_seats d @ seats_from (db_clock d) first vs\<rparr>))"

definition seed :: "bool \<Rightarrow> int \<Rightarrow> int \<Rightarrow> string \<Rightarrow> int \<Rightarrow> instant \<Rightarrow> db \<Rightarrow> (db_error + int) \<times> db" where
  "seed empty_insert eid first name total_seats now d =
     insert_event empty_insert eid first name ''Seatlock Test Arena'' (now + seconds (30 * 86400)) total_seats
       (build_seat_rows eid total_seats) d"

text \<open>The command line: \<open>--contention\<close> overrides \<open>--seats\<close>.\<close>

definition seed_main :: "bool \<Rightarrow> int \<Rightarrow> int \<Rightarrow> string \<Rightarrow> int \<Rightarrow> bool \<Rightarrow> instant \<Rightarrow> db \<Rightarrow> (db_error + int) \<times> db" where
  "seed_main empty_insert eid first name seats contention now d =
     seed empty_insert eid first name (if contention then 10 else seats) now d"

section \<open>The demo event\<close>

abbreviation "DEMO_SEATS_PER_ROW \<equiv> (6 :: nat)"

definition demo_sections :: "(string \<times> nat) list" where
  "demo_sections = [(''A'', 2)]"

definition demo_seat_rows :: "int \<Rightarrow> seat_values list" where
  "demo_seat_rows evt =
     concat (map (\<lambda>(section, row_count). concat (map (\<lambda>row. map (\<lambda>n.
       \<lparr>sv_event_id = evt, sv_section = section, sv_row_label = nat_dec row, sv_seat_number = int n,
        sv_status = AVAILABLE, sv_version = 0\<rparr>) [1..<DEMO_SEATS_PER_ROW + 1]) [1..<row_count + 1])) demo_sections)"

text \<open>This reset, unlike the ones of the demo routes, keeps the versions.\<close>

definition clear_row :: "instant \<Rightarrow> seat_row \<Rightarrow> seat_row" where
  "clear_row clock r =
     r\<lparr>sr_status := AVAILABLE, sr_held_by := None, sr_expires := None, sr_booking_id := None, sr_updated_at := clock\<rparr>"

datatype seed_exn = MultipleResultsFound | SeedDbError db_error

text \<open>
  \<open>scalar_one_or_none\<close> on the events of that name: none creates the event, one is reused, more
  than one raises.
\<close>

definition seed_demo_event :: "bool \<Rightarrow> int \<Rightarrow> int \<Rightarrow> instant \<Rightarrow> db \<Rightarrow> (seed_exn + int) \<times> db" where
  "seed_demo_event empty_insert eid first now d =
     (case filter (\<lambda>e. ev_name e = ''Realtime Demo'') (db_events d) of
        [] \<Rightarrow>
          (case insert_event empty_insert eid first ''Realtime Demo'' ''Demo Venue'' now
                  (int (sum_list (map (\<lambda>x. snd x * DEMO_SEATS_PER_ROW) demo_sections))) (demo_seat_rows eid) d of
             (Inl x, d') \<Rightarrow> (Inl (SeedDbError x), d')
           | (Inr i, d') \<Rightarrow> (Inr i, d'))
      | [e] \<Rightarrow>
          (Inr (ev_id e),
           d\<lparr>db_seats := upd_where (\<lambda>r. sr_event_id r = ev_id e) (clear_row (db_clock d)) (db_seats d)\<rparr>)
      | _ \<Rightarrow> (Inl MultipleResultsFound, d))"

section \<open>Labels\<close>

text \<open>Reading a label back: letters are the digits 1 to 26.\<close>

definition label_value :: "string \<Rightarrow> nat" where
  "label_value l = foldl (\<lambda>v c. 26 * v + (of_char c - 64)) 0 l"

definition uppercase :: "char \<Rightarrow> bool" where
  "uppercase c \<longleftrightarrow> 65 \<le> (of_char c :: nat) \<and> (of_char c :: nat) \<le> 90"

lemma of_letter: "k < 26 \<Longrightarrow> of_char (char_of (65 + k) :: char) = (65 + k :: nat)"
  by simp

lemma label_loop_0 [simp]: "label_loop 0 l = l"
  by (subst label_loop.simps) simp

lemma label_loop_append: "label_loop i l = label_loop i [] @ l"
proof (induction i arbitrary: l rule: less_induct)
  case (less i)
  show ?case
  proof (cases "0 < i")
    case True
    let ?c = "char_of (65 + (i - 1) mod 26) :: char"
    have lt: "(i - 1) div 26 < i" using True by (metis diff_Suc_1 div_le_dividend gr0_conv_Suc le_imp_less_Suc)
    show ?thesis
      using True less.IH [OF lt, of "?c # l"] less.IH [OF lt, of "[?c]"]
      by (simp add: label_loop.simps [of i])
  qed simp
qed

lemma label_loop_props: "label_value (label_loop i []) = i \<and> list_all uppercase (label_loop i [])"
proof (induction i rule: less_induct)
  case (less i)
  show ?case
  proof (cases "0 < i")
    case True
    let ?q = "(i - 1) div 26" and ?c = "char_of (65 + (i - 1) mod 26) :: char"
    have lt: "?q < i" using True by (metis diff_Suc_1 div_le_dividend gr0_conv_Suc le_imp_less_Suc)
    have e: "label_loop i [] = label_loop ?q [] @ [?c]"
      using True label_loop_append [of ?q "[?c]"] by (simp add: label_loop.simps [of i])
    have "of_char ?c = (65 + (i - 1) mod 26 :: nat)" by (rule of_letter) simp
    moreover have "26 * ?q + ((i - 1) mod 26 + 1) = i" using True by simp
    ultimately show ?thesis
      using less.IH [OF lt] unfolding e by (simp add: label_value_def uppercase_def)
  qed (simp add: label_value_def)
qed

lemma section_label_inject [simp]: "section_label i = section_label j \<longleftrightarrow> i = j"
proof
  assume "section_label i = section_label j"
  then have "label_value (label_loop (i + 1) []) = label_value (label_loop (j + 1) [])"
    by (simp only: section_label_def)
  then show "i = j" using label_loop_props [of "i + 1"] label_loop_props [of "j + 1"] by simp
qed simp

lemma nat_dec_inject [simp]: "nat_dec i = nat_dec j \<longleftrightarrow> i = j"
  by (metis dec_nat_nat_dec option.inject)

section \<open>Seats\<close>

lemma seat_values_inject [simp]: "seat_values_at evt i = seat_values_at evt j \<longleftrightarrow> i = j"
proof
  assume "seat_values_at evt i = seat_values_at evt j"
  then have s: "i div 200 = j div 200" "i mod 200 div 20 = j mod 200 div 20" "i mod 200 mod 20 = j mod 200 mod 20"
    by (simp_all add: seat_values_at_def Let_def)
  then have "i mod 200 = j mod 200" by (metis div_mult_mod_eq)
  with s(1) show "i = j" by (metis div_mult_mod_eq)
qed simp

lemma values_at_sel [simp]:
  "sv_event_id (seat_values_at evt i) = evt"
  "sv_status (seat_values_at evt i) = AVAILABLE"
  "sv_version (seat_values_at evt i) = 0"
  by (simp_all add: seat_values_at_def Let_def)

lemma distinct_build: "distinct (build_seat_rows evt n)"
  by (simp add: build_seat_rows_def distinct_map inj_on_def)

lemma length_build [simp]: "length (build_seat_rows evt n) = nat n"
  by (simp add: build_seat_rows_def)

definition sv_place :: "seat_values \<Rightarrow> int \<times> string \<times> string \<times> int" where
  "sv_place v = (sv_event_id v, sv_section v, sv_row_label v, sv_seat_number v)"

lemma seats_from_props:
  "map seat_place (seats_from c i vs) = map sv_place vs"
  "length (seats_from c i vs) = length vs"
  "r \<in> set (seats_from c i vs) \<Longrightarrow> i \<le> sr_id r \<and> (\<exists>v \<in> set vs. \<exists>k. r = seat_from c k v)"
  by (induction vs arbitrary: i) (auto simp: seat_from_def seat_place_def sv_place_def, fastforce+)

lemma seats_from_distinct: "distinct (map sr_id (seats_from c i vs))"
proof (induction vs arbitrary: i)
  case (Cons v vs)
  have "i \<noteq> sr_id r" if "r \<in> set (seats_from c (i + 1) vs)" for r
    using seats_from_props(3) [OF that] by simp
  with Cons show ?case by (auto simp: seat_from_def)
qed simp

text \<open>Fresh seats of one fresh event, all AVAILABLE and in different places, keep a database healthy.\<close>

definition fresh_ids :: "int \<Rightarrow> int \<Rightarrow> db \<Rightarrow> bool" where
  "fresh_ids eid first d \<longleftrightarrow> find_event eid d = None \<and>
     (\<forall>r \<in> set (db_seats d). sr_id r < first \<and> sr_event_id r \<noteq> eid) \<and> (\<forall>i \<in> active_seat_ids d. i < first)"

lemma insert_event_ok:
  assumes "healthy d" "fresh_ids eid first d" "vs \<noteq> [] \<or> ei"
    and "distinct (map sv_place vs)" "\<forall>v \<in> set vs. sv_event_id v = eid \<and> sv_status v = AVAILABLE"
  shows "\<exists>d'. insert_event ei eid first name venue t n vs d = (Inr eid, d') \<and> healthy d' \<and>
    event_seats eid d' = seats_from (db_clock d) first vs \<and>
    (\<exists>ev. find_event eid d' = Some ev \<and> ev_total_seats ev = n \<and> ev_name ev = name)"
proof -
  let ?new = "seats_from (db_clock d) first vs"
  let ?ev = "\<lparr>ev_id = eid, ev_name = name, ev_venue = venue, ev_starts_at = t, ev_total_seats = n, ev_created_at = db_clock d\<rparr>"
  let ?d = "d\<lparr>db_events := db_events d @ [?ev], db_seats := db_seats d @ ?new\<rparr>"
  have h: "schema_ok d" "seats_coherent d" "linkage_ok d" using assms(1) by (simp_all add: healthy_def)
  have new: "first \<le> sr_id r \<and> sr_event_id r = eid \<and> sr_status r = AVAILABLE \<and> sr_booking_id r = None \<and> row_coherent r"
    if "r \<in> set ?new" for r
    using seats_from_props(3) [OF that] assms(5)
    by (auto simp: seat_from_def row_coherent_def coherent_def seat_to_domain_def)
  have old: "sr_id r < first \<and> sr_event_id r \<noteq> eid" if "r \<in> set (db_seats d)" for r
    using assms(2) that by (simp add: fresh_ids_def)
  have "sr_id ` set (db_seats d) \<inter> sr_id ` set ?new = {}" using new old by fastforce
  moreover have "seat_place ` set (db_seats d) \<inter> seat_place ` set ?new = {}"
    using new old by (fastforce simp: seat_place_def)
  moreover have "distinct (map seat_place ?new)" using assms(4) by (simp add: seats_from_props(1))
  ultimately have "distinct (map sr_id (db_seats ?d))" "distinct (map seat_place (db_seats ?d))"
    using h(1) seats_from_distinct [of "db_clock d" first vs] by (simp_all add: schema_ok_iff)
  moreover have "distinct (map ev_id (db_events ?d))"
    using h(1) assms(2) by (auto simp: schema_ok_iff fresh_ids_def find_event_def by_key_None_iff)
  ultimately have "schema_ok ?d"
    using h(1) by (simp add: schema_ok_iff one_active_booking_per_seat_def)
  moreover have "seats_coherent ?d" using h(2) new by (auto simp: seats_coherent_iff)
  moreover have "active_seat_ids ?d = active_seat_ids d" by (simp add: active_seat_ids_def)
  then have "linkage_ok ?d"
    using h(3) new assms(2) by (fastforce simp: linkage_ok_iff fresh_ids_def)
  moreover have "event_seats eid ?d = ?new"
  proof -
    have "filter (\<lambda>r. sr_event_id r = eid) (db_seats d) = []" using old by (simp add: filter_empty_conv)
    moreover have "filter (\<lambda>r. sr_event_id r = eid) ?new = ?new" using new by (simp add: filter_id_conv)
    ultimately show ?thesis by (simp add: event_seats_def)
  qed
  moreover have "find_event eid ?d = Some ?ev"
    using assms(2) by (simp add: fresh_ids_def find_event_def)
  ultimately show ?thesis using assms(3) by (auto simp: insert_event_def healthy_def)
qed

section \<open>Properties\<close>

text \<open>
  C39: Every section has a label of its own, in capital letters only, that reads back as the number
  of the section counted from 1, so the labels never clash however many sections there are; the
  loop that spells it ends.
\<close>

theorem section_labels_read_back:
  "label_value (section_label i) = i + 1 \<and> list_all uppercase (section_label i) \<and> inj section_label"
proof -
  have "inj section_label" by (rule injI) simp
  with label_loop_props [of "i + 1"] show ?thesis by (simp add: section_label_def)
qed

lemma sv_place_inject: "sv_place (seat_values_at evt i) = sv_place (seat_values_at evt j) \<longleftrightarrow> i = j"
proof -
  have "seat_values_at evt i = seat_values_at evt j" if "sv_place (seat_values_at evt i) = sv_place (seat_values_at evt j)"
    using that by (simp add: sv_place_def seat_values_at_def Let_def)
  then show ?thesis by auto
qed

text \<open>
  Seeding adds a sound event. On a healthy database with fresh ids, \<open>seed\<close> returns the new
  event's id and leaves a healthy database in which the event has exactly the requested number of
  seats, all AVAILABLE and no two in the same place, so its invariant report passes.
\<close>

theorem seed_sound:
  assumes "healthy d" "fresh_ids eid first d" "0 < total_seats \<or> total_seats = 0 \<and> ei"
  shows "\<exists>d' rs. seed ei eid first name total_seats now d = (Inr eid, d') \<and> healthy d' \<and>
    int (length (event_seats eid d')) = total_seats \<and> distinct (map seat_place (event_seats eid d')) \<and>
    list_all (\<lambda>r. sr_status r = AVAILABLE) (event_seats eid d') \<and> get_invariants eid d' = Some (Inr (rs, True))"
proof -
  let ?vs = "build_seat_rows eid total_seats"
  have dist: "distinct (map sv_place ?vs)"
    by (simp add: build_seat_rows_def distinct_map inj_on_def sv_place_inject)
  have "?vs \<noteq> [] \<or> ei" using assms(3) by (auto simp: build_seat_rows_def)
  from insert_event_ok [OF assms(1,2) this dist, of name "''Seatlock Test Arena''" "now + seconds (30 * 86400)" total_seats]
  obtain d' ev where d': "seed ei eid first name total_seats now d = (Inr eid, d')" "healthy d'"
    "event_seats eid d' = seats_from (db_clock d) first ?vs" "find_event eid d' = Some ev" "ev_total_seats ev = total_seats"
    by (auto simp: seed_def build_seat_rows_def)
  then have len: "int (length (event_seats eid d')) = total_seats"
    using assms(3) by (auto simp: seats_from_props(2))
  moreover have "list_all (\<lambda>r. sr_status r = AVAILABLE) (event_seats eid d')"
    using seats_from_props(3) unfolding d'(3) by (fastforce simp: list_all_iff seat_from_def build_seat_rows_def)
  moreover have "distinct (map seat_place (event_seats eid d'))"
    using dist by (simp add: d'(3) seats_from_props(1))
  ultimately show ?thesis using healthy_report [OF d'(2,4)] d' by auto
qed

theorem seed_sound_witness:
  "\<exists>d' rs. seed False 2 5 ''Show'' 450 100 sample_db = (Inr 2, d') \<and> int (length (event_seats 2 d')) = 450 \<and>
    get_invariants 2 d' = Some (Inr (rs, True))"
proof -
  have "fresh_ids 2 5 sample_db"
    by (simp add: fresh_ids_def find_event_def active_seat_ids_def bs_active_def sample_defs)
  from seed_sound [OF sample_healthy this, of 450 False "''Show''" 100] show ?thesis by auto
qed

lemma clear_row_frame [simp]:
  "sr_event_id (clear_row c r) = sr_event_id r"
  "sr_status (clear_row c r) = AVAILABLE"
  "sr_version (clear_row c r) = sr_version r"
  "seat_place (clear_row c r) = seat_place r"
  by (simp_all add: clear_row_def seat_place_def)

text \<open>
  The demo script is idempotent. Once a run has returned an id, whether it created the event
  or found it, any later run on the database it left returns the same id, adds no event and no
  seat, moves none, keeps every version and leaves every seat of the event AVAILABLE.
\<close>

theorem seed_demo_idempotent:
  assumes "seed_demo_event ei eid first now d = (Inr i, d1)"
  shows "\<exists>d2. seed_demo_event ei eid2 first2 now2 (d1\<lparr>db_clock := t\<rparr>) = (Inr i, d2) \<and> db_events d2 = db_events d1 \<and>
    map seat_place (db_seats d2) = map seat_place (db_seats d1) \<and> map sr_version (db_seats d2) = map sr_version (db_seats d1) \<and>
    list_all (\<lambda>r. sr_status r = AVAILABLE) (event_seats i d2)"
proof -
  obtain e where e: "filter (\<lambda>e. ev_name e = ''Realtime Demo'') (db_events d1) = [e]" "ev_id e = i"
  proof (cases "filter (\<lambda>e. ev_name e = ''Realtime Demo'') (db_events d)")
    case Nil
    then have "insert_event ei eid first ''Realtime Demo'' ''Demo Venue'' now 12 (demo_seat_rows eid) d = (Inr i, d1)"
      using assms by (auto simp: seed_demo_event_def demo_sections_def split: sum.splits prod.splits)
    with Nil show thesis by (intro that) (auto simp: insert_event_def split: if_splits)
  next
    case (Cons e es)
    then have "es = []" using assms by (cases es) (simp_all add: seed_demo_event_def)
    with assms Cons show thesis by (intro that [of e]) (auto simp: seed_demo_event_def)
  qed
  let ?d2 = "d1\<lparr>db_clock := t, db_seats := upd_where (\<lambda>r. sr_event_id r = i) (clear_row t) (db_seats d1)\<rparr>"
  have "seed_demo_event ei eid2 first2 now2 (d1\<lparr>db_clock := t\<rparr>) = (Inr i, ?d2)"
    using e by (simp add: seed_demo_event_def)
  moreover have "list_all (\<lambda>r. sr_status r = AVAILABLE) (event_seats i ?d2)"
    by (simp add: event_seats_def filter_upd_where list_all_iff)
  ultimately show ?thesis
    by (intro exI [of _ ?d2]) (simp add: map_upd_where)
qed

theorem seed_demo_idempotent_witness:
  "\<exists>d1 d2. seed_demo_event False 2 5 100 sample_db = (Inr 2, d1) \<and> length (db_seats d1) = 16 \<and>
    seed_demo_event False 3 20 300 (d1\<lparr>db_clock := 300\<rparr>) = (Inr 2, d2) \<and> length (db_seats d2) = 16"
proof -
  obtain d1 where d1: "seed_demo_event False 2 5 100 sample_db = (Inr 2, d1)" "length (db_seats d1) = 16"
    by (simp add: seed_demo_event_def insert_event_def sample_db_def demo_seat_rows_def demo_sections_def
        seats_from_props(2) upt_rec)
  from seed_demo_idempotent [OF d1(1), of 3 20 300 300] d1 show ?thesis
    by (metis length_map)
qed

end
