(* ===== verification/Workers.thy ===== *)
theory Workers
  imports Sweeper_Properties Reconciler Idempotency_Properties Payments_Properties
begin

text \<open>
  The four background processes (\<^verbatim>\<open>run_forever\<close> of \<^verbatim>\<open>workers/sweeper.py\<close>, \<^verbatim>\<open>payment_worker.py\<close>,
  \<^verbatim>\<open>idempotency_reaper.py\<close> and \<^verbatim>\<open>reconciler.py\<close>): a pass, a wait, and again, until a signal has set the
  stop event. A pass that raises is not caught: it ends the process.

  The loop may run forever, so it is a partial function whose value is \<open>None\<close> then. What other
  processes do between two passes, the clock and the signal are functions of the number of the pass.
\<close>

type_synonym world = "db \<times> redis \<times> metrics"

datatype 'x ended = Stopped | Crashed 'x

partial_function (option) run_forever :: "(nat \<Rightarrow> bool) \<Rightarrow> (nat \<Rightarrow> 's \<Rightarrow> 's) \<Rightarrow> (nat \<Rightarrow> 's \<Rightarrow> ('x + unit) \<times> 's) \<Rightarrow>
    nat \<Rightarrow> 's \<Rightarrow> ('x ended \<times> nat \<times> 's) option" where
  "run_forever stop env pass n s =
     (if stop n then Some (Stopped, n, s)
      else case pass n (env n s) of
          (Inl x, s') \<Rightarrow> Some (Crashed x, n, s')
        | (Inr _, s') \<Rightarrow> run_forever stop env pass (Suc n) s')"

section \<open>The passes\<close>

definition sweeper_pass :: "int set \<Rightarrow> nat \<Rightarrow> instant \<Rightarrow> world \<Rightarrow> (exn + unit) \<times> world" where
  "sweeper_pass locked batch now = (\<lambda>(d, r, m).
     let (_, d', r', m') = sweep_once locked batch now d r m in (Inr (), d', r', m'))"

definition reaper_pass :: "(int \<times> string) set \<Rightarrow> nat \<Rightarrow> timedelta \<Rightarrow> instant \<Rightarrow> world \<Rightarrow> (exn + unit) \<times> world" where
  "reaper_pass locked batch timeout now = (\<lambda>(d, r, m).
     let (_, d', m') = reap_once locked batch timeout now d m in (Inr (), d', r, m'))"

definition payment_pass :: "bool \<Rightarrow> bool \<Rightarrow> string set \<Rightarrow> nat \<Rightarrow> instant \<Rightarrow> world \<Rightarrow> (worker_exn + unit) \<times> world" where
  "payment_pass refresh_raises empty_insert locked limit now = (\<lambda>(d, r, m).
     let (res, d', r', m') = process_once refresh_raises empty_insert locked limit now d r m
     in (map_sum id (\<lambda>_. ()) res, d', r', m'))"

text \<open>Between the reconciler's two looks other sessions run: \<open>mid\<close>. Then it measures the sweeper's backlog.\<close>

definition reconciler_pass :: "(world \<Rightarrow> world) \<Rightarrow> timedelta \<Rightarrow> instant \<Rightarrow> world \<Rightarrow> (reconcile_exn + unit) \<times> world" where
  "reconciler_pass mid grace now = (\<lambda>(d1, r1, m1).
     let (d2, r2, m2) = mid (d1, r1, m1); (res, r', m') = reconcile_once grace now d1 r1 d2 r2 m2
     in case res of
          Inl x \<Rightarrow> (Inl x, d2, r', m')
        | Inr _ \<Rightarrow> (Inr (), d2, r', snd (measure_backlog now d2 m')))"

definition sweeper_run :: "settings \<Rightarrow> (nat \<Rightarrow> bool) \<Rightarrow> (nat \<Rightarrow> world \<Rightarrow> world) \<Rightarrow> (nat \<Rightarrow> int set) \<Rightarrow> (nat \<Rightarrow> instant) \<Rightarrow>
    world \<Rightarrow> (exn ended \<times> nat \<times> world) option" where
  "sweeper_run cfg stop env locked clock =
     run_forever stop env (\<lambda>n. sweeper_pass (locked n) (cfg_sweeper_batch_size cfg) (clock n)) 0"

definition reaper_run :: "settings \<Rightarrow> (nat \<Rightarrow> bool) \<Rightarrow> (nat \<Rightarrow> world \<Rightarrow> world) \<Rightarrow> (nat \<Rightarrow> (int \<times> string) set) \<Rightarrow>
    (nat \<Rightarrow> instant) \<Rightarrow> world \<Rightarrow> (exn ended \<times> nat \<times> world) option" where
  "reaper_run cfg stop env locked clock =
     run_forever stop env (\<lambda>n. reaper_pass (locked n) (cfg_idempotency_reaper_batch_size cfg)
       (cfg_idempotency_stale_timeout cfg) (clock n)) 0"

definition payment_run :: "settings \<Rightarrow> bool \<Rightarrow> bool \<Rightarrow> (nat \<Rightarrow> bool) \<Rightarrow> (nat \<Rightarrow> world \<Rightarrow> world) \<Rightarrow> (nat \<Rightarrow> string set) \<Rightarrow>
    (nat \<Rightarrow> instant) \<Rightarrow> world \<Rightarrow> (worker_exn ended \<times> nat \<times> world) option" where
  "payment_run cfg refresh_raises empty_insert stop env locked clock =
     run_forever stop env (\<lambda>n. payment_pass refresh_raises empty_insert (locked n)
       (cfg_payment_worker_batch_size cfg) (clock n)) 0"

definition reconciler_run :: "settings \<Rightarrow> (nat \<Rightarrow> bool) \<Rightarrow> (nat \<Rightarrow> world \<Rightarrow> world) \<Rightarrow> (nat \<Rightarrow> world \<Rightarrow> world) \<Rightarrow>
    (nat \<Rightarrow> instant) \<Rightarrow> world \<Rightarrow> (reconcile_exn ended \<times> nat \<times> world) option" where
  "reconciler_run cfg stop env mid clock =
     run_forever stop env (\<lambda>n. reconciler_pass (mid n) (cfg_reconciler_grace cfg) (clock n)) 0"

section \<open>The loop\<close>

text \<open>The state after \<open>n\<close> passes.\<close>

primrec after_passes :: "(nat \<Rightarrow> 's \<Rightarrow> 's) \<Rightarrow> (nat \<Rightarrow> 's \<Rightarrow> ('x + unit) \<times> 's) \<Rightarrow> nat \<Rightarrow> 's \<Rightarrow> 's" where
  "after_passes env pass 0 s = s"
| "after_passes env pass (Suc n) s = snd (pass n (env n (after_passes env pass n s)))"

lemma run_forever_step:
  assumes "\<not> stop n" "fst (pass n (env n s)) = Inr ()"
  shows "run_forever stop env pass n s = run_forever stop env pass (Suc n) (snd (pass n (env n s)))"
  using assms by (subst run_forever.simps) (cases "pass n (env n s)", simp)

lemma run_forever_reaches:
  assumes "\<forall>j < k. \<not> stop j" "\<forall>j < k. fst (pass j (env j (after_passes env pass j s))) = Inr ()"
  shows "run_forever stop env pass 0 s = run_forever stop env pass k (after_passes env pass k s)"
  using assms
proof (induction k)
  case (Suc k)
  then have "run_forever stop env pass 0 s = run_forever stop env pass k (after_passes env pass k s)" by simp
  also have "\<dots> = run_forever stop env pass (Suc k) (after_passes env pass (Suc k) s)"
    using run_forever_step [of stop k pass env] Suc.prems by simp
  finally show ?case .
qed simp

lemma run_forever_stops:
  assumes "\<forall>j < k. \<not> stop j" "stop k" "\<forall>j < k. fst (pass j (env j (after_passes env pass j s))) = Inr ()"
  shows "run_forever stop env pass 0 s = Some (Stopped, k, after_passes env pass k s)"
  using run_forever_reaches [of k stop pass env s] assms by (simp add: run_forever.simps [of stop env pass k])

lemma run_forever_SomeD:
  "run_forever stop env pass n s = Some y \<Longrightarrow> (\<exists>j. stop j) \<or> (\<exists>j s x. fst (pass j s) = Inl x)"
proof (induction stop env pass n s y rule: run_forever.raw_induct [rotated 1, consumes 1, case_names step])
  case (step f stop env pass n s y)
  show ?case
  proof (cases "stop n \<or> (\<exists>x. fst (pass n (env n s)) = Inl x)")
    case False
    then obtain u s' where p: "pass n (env n s) = (Inr u, s')"
      by (metis old.sum.exhaust prod.collapse)
    have "f stop env pass (Suc n) s' = Some y" using step(2) False p by simp
    then show ?thesis by (rule step(1))
  qed blast
qed

lemma run_forever_never:
  "\<forall>j. \<not> stop j \<Longrightarrow> \<forall>j s. fst (pass j s) = Inr () \<Longrightarrow> run_forever stop env pass n s = None"
  using run_forever_SomeD [of stop env pass n s] by (cases "run_forever stop env pass n s") auto

text \<open>A loop whose passes never raise ends exactly if the stop event is ever set, at the first test that sees it.\<close>

lemma run_forever_total:
  assumes "\<forall>j s. fst (pass j s) = Inr ()"
  shows "run_forever stop env pass 0 s =
    (if \<exists>k. stop k then let k = LEAST k. stop k in Some (Stopped, k, after_passes env pass k s) else None)"
proof (cases "\<exists>k. stop k")
  case True
  then have "stop (LEAST k. stop k)" by (rule LeastI_ex)
  moreover have "\<forall>j < (LEAST k. stop k). \<not> stop j" using not_less_Least by blast
  ultimately have "run_forever stop env pass 0 s = Some (Stopped, LEAST k. stop k, after_passes env pass (LEAST k. stop k) s)"
    using assms by (intro run_forever_stops) blast+
  with True show ?thesis by (simp only: if_True Let_def)
next
  case False
  then show ?thesis using run_forever_never [of stop pass env 0 s] assms by simp
qed

lemma sweeper_pass_Inr: "fst (sweeper_pass locked batch now w) = Inr ()"
  by (simp add: sweeper_pass_def split: prod.split)

lemma reaper_pass_Inr: "fst (reaper_pass locked batch timeout now w) = Inr ()"
  by (simp add: reaper_pass_def split: prod.split)

lemma sweeper_pass_db: "fst (snd (sweeper_pass locked batch now (d, r, m))) = fst (snd (sweep_once locked batch now d r m))"
  by (simp add: sweeper_pass_def split: prod.split)

section \<open>Starvation\<close>

definition held_count :: "db \<Rightarrow> nat" where
  "held_count d = rowcount (\<lambda>r. sr_status r = HELD) (db_seats d)"

definition overdue :: "instant \<Rightarrow> db \<Rightarrow> bool" where
  "overdue t d \<longleftrightarrow> (\<exists>r \<in> set (db_seats d). lapsed_hold t r)"

lemma lapsed_mono: "t \<le> now \<Longrightarrow> lapsed_hold t r \<Longrightarrow> lapsed_hold now r"
  by (auto simp: lapsed_hold_def expired_sql_def split: option.splits)

text \<open>
  A pass that leaves an overdue hold behind has freed a whole batch: nothing becomes overdue by
  waiting in the queue, and the number of held seats goes down by the batch.
\<close>

lemma sweep_leaves_overdue:
  assumes "schema_ok d" "t \<le> now" "overdue t (fst (snd (sweep_once {} batch now d r m)))"
  shows "overdue t d \<and> held_count (fst (snd (sweep_once {} batch now d r m))) + batch \<le> held_count d"
proof -
  let ?rows = "sweep_rows {} batch now d"
  let ?P = "\<lambda>x. sr_id x \<in> set (map sr_id ?rows)"
  note props = sweep_rows_props [OF assms(1), of "{}" batch now]
  have d': "db_seats (fst (snd (sweep_once {} batch now d r m))) = upd_where ?P (free_row (db_clock d)) (db_seats d)"
    unfolding sweep_once_db [OF assms(1)] by simp
  obtain x where x: "x \<in> set (db_seats d)" "\<not> ?P x" "lapsed_hold t x"
    using assms(3) unfolding overdue_def d' set_upd_where by (auto simp: lapsed_hold_def split: if_splits)
  have "lapsed_hold now x" using lapsed_mono [OF assms(2) x(3)] .
  then have "\<not> rowcount (lapsed_hold now) (db_seats d) \<le> batch"
  proof -
    assume l: "lapsed_hold now x"
    have "x \<in> set ?rows" if "rowcount (lapsed_hold now) (db_seats d) \<le> batch"
    proof -
      have "?rows = sort_key sr_id (filter (lapsed_hold now) (db_seats d))"
        using that by (simp add: sweep_rows_def rowcount_def)
      with x(1) l show ?thesis by simp
    qed
    with x(2) show ?thesis by auto
  qed
  then have len: "length ?rows = batch" using props(4) by simp
  have dist: "distinct (map sr_id (db_seats d))" using assms(1) by (simp add: schema_ok_iff)
  have "rowcount (\<lambda>r. ?P r \<and> sr_status r = HELD) (db_seats d) = length (map sr_id ?rows)"
    using props(1,2) by (subst rowcount_in_full_iff [OF dist]) (fastforce simp: lapsed_hold_def)
  then have n: "rowcount (\<lambda>r. ?P r \<and> sr_status r = HELD) (db_seats d) = batch" using len by simp
  have le: "rowcount (\<lambda>r. ?P r \<and> sr_status r = HELD) rs \<le> rowcount (\<lambda>r. sr_status r = HELD) rs" for rs
    by (induction rs) auto
  have "held_count (fst (snd (sweep_once {} batch now d r m))) + batch \<le> held_count d"
  proof -
    have "rowcount (\<lambda>r. sr_status r = HELD) (upd_where ?P (free_row (db_clock d)) (db_seats d)) =
        rowcount (\<lambda>r. sr_status r = HELD) (db_seats d) - rowcount (\<lambda>r. ?P r \<and> sr_status r = HELD) (db_seats d)"
      by (rule rowcount_upd_where) (simp add: free_row_def)
    with n le [of "db_seats d"] show ?thesis unfolding held_count_def d' by simp
  qed
  with x show ?thesis by (auto simp: overdue_def)
qed

lemma sweeps_clear:
  assumes "schema_ok d" "\<forall>j < k. t \<le> clock j"
    and "after_passes (\<lambda>_. id) (\<lambda>n. sweeper_pass {} batch (clock n)) k (d, r, m) = (d', r', m')"
  shows "schema_ok d' \<and> (overdue t d' \<longrightarrow> held_count d' + k * batch \<le> held_count d)"
  using assms(2,3)
proof (induction k arbitrary: d' r' m')
  case (Suc k)
  obtain d1 r1 m1 where w: "after_passes (\<lambda>_. id) (\<lambda>n. sweeper_pass {} batch (clock n)) k (d, r, m) = (d1, r1, m1)"
    by (metis prod_cases3)
  note IH = Suc.IH [OF _ w]
  have d': "d' = fst (snd (sweep_once {} batch (clock k) d1 r1 m1))"
    using Suc.prems(2) [unfolded after_passes.simps(2) w] sweeper_pass_db [of "{}" batch "clock k" d1 r1 m1] by simp
  have ok: "schema_ok d1" "overdue t d1 \<longrightarrow> held_count d1 + k * batch \<le> held_count d"
    using IH Suc.prems(1) by auto
  have "schema_ok d'" unfolding d' by (rule sweep_schema [OF ok(1)])
  moreover have "held_count d' + Suc k * batch \<le> held_count d" if "overdue t d'"
    using sweep_leaves_overdue [OF ok(1) _ that [unfolded d']] ok(2) Suc.prems(1) by (simp add: d')
  ultimately show ?case by blast
qed (use assms(1) in simp)

section \<open>Crashes\<close>

lemma process_events_Inl:
  "process_events rr e base now es s d m = (Inl x, d', m') \<Longrightarrow> d' = base"
proof (induction es arbitrary: s d m)
  case (Cons ev es)
  then show ?case by (fastforce split: if_splits prod.splits sum.splits)
qed simp

lemma process_once_Inl:
  "process_once rr e locked limit now d r m = (Inl x, d', r', m') \<Longrightarrow> d' = d \<and> r' = r"
  using process_events_Inl [of rr e d now] by (auto simp: process_once_def Let_def split: prod.splits sum.splits)

text \<open>A confirmation over a seat whose row in \<open>booking_seats\<close> is still active rolls the batch back.\<close>

lemma orphaned_link_rolls_back:
  assumes "find_booking i d = Some b" "br_status b = PENDING" "seats_still_valid_for_booking b now d"
    and "s \<in> set (br_seat_ids b)" "s \<in> active_seat_ids d"
  shows "\<exists>m'. apply_payment_succeeded e base (Some i) now d m = (Inr ((handled_as REJECTED [])\<lparr>hd_rolled_back := True\<rparr>), base, m')"
proof -
  have id: "br_id b = i" using find_booking_SomeD [OF assms(1)] by simp
  have "\<not> links_insertable e i (br_seat_ids b) d" using links_insertable_fresh assms(4,5) by blast
  then have "\<exists>m'. attempt_confirm_write e base i (br_seat_ids b) (br_session_id b) now None d m = (Inr False, base, m')"
    using assms(1) by (simp add: attempt_confirm_write_def Let_def)
  then show ?thesis
    using assms(1-3) id by (auto simp: apply_payment_succeeded_def load_booking_def)
qed

section \<open>Properties\<close>


text \<open>
  C18: The sweeper starves nobody. Let the loop make \<open>k\<close> passes with nobody else writing, the clock
  never below \<open>t\<close>, and let \<open>k\<close> batches exceed the number of held seats: the loop returns, and no
  hold that had run out by \<open>t\<close> is left, although every pass takes the lowest seat ids first and
  holds that run out meanwhile may go before it.
\<close>

theorem sweeper_never_starves:
  assumes "schema_ok d" "stop k" "\<forall>j < k. \<not> stop j" "\<forall>j < k. t \<le> clock j"
    and "held_count d < k * cfg_sweeper_batch_size cfg"
  shows "\<exists>d' r' m'. sweeper_run cfg stop (\<lambda>_. id) (\<lambda>_. {}) clock (d, r, m) = Some (Stopped, k, d', r', m') \<and>
    (\<forall>x \<in> set (db_seats d'). \<not> lapsed_hold t x)"
proof -
  let ?pass = "\<lambda>n. sweeper_pass {} (cfg_sweeper_batch_size cfg) (clock n)"
  obtain d' r' m' where w: "after_passes (\<lambda>_. id) ?pass k (d, r, m) = (d', r', m')" by (metis prod_cases3)
  have "run_forever stop (\<lambda>_. id) ?pass 0 (d, r, m) = Some (Stopped, k, d', r', m')"
    using run_forever_stops [OF assms(3,2), of ?pass "\<lambda>_. id" "(d, r, m)"] w by (simp add: sweeper_pass_Inr)
  moreover have "\<not> overdue t d'"
    using sweeps_clear [OF assms(1,4) w] assms(5) by auto
  ultimately show ?thesis by (auto simp: sweeper_run_def overdue_def)
qed

theorem sweeper_never_starves_witness:
  "\<exists>d' r' m'. sweeper_run default_settings (\<lambda>n. n = 1) (\<lambda>_. id) (\<lambda>_. {}) (\<lambda>_. 100) (sample_db, sample_redis, zero_metrics) =
      Some (Stopped, 1, d', r', m') \<and> list_all (\<lambda>x. \<not> lapsed_hold 95 x) (db_seats d')"
proof -
  have "held_count sample_db < 1 * cfg_sweeper_batch_size default_settings"
    by (simp add: held_count_def sample_db_def default_settings_def)
  with sweeper_never_starves [of sample_db "\<lambda>n. n = 1" 1 95 "\<lambda>_. 100" default_settings sample_redis zero_metrics]
  show ?thesis by (auto simp: list_all_iff)
qed

text \<open>
  C33: One stale row stops all payments. Let the oldest unprocessed event be a successful payment
  of a PENDING booking whose seats are held, one of them with a \<open>booking_seats\<close> row that is still
  active, and let a second event wait behind it. The confirmation is rolled back, which expires the
  loaded events, and reading the second one raises: the process ends with the database and Redis
  as they were. Whoever restarts it while the hold lasts gets the same result.
\<close>

theorem payment_worker_crash_loop:
  assumes "find_booking i d = Some b" "br_status b = PENDING" "seats_still_valid_for_booking b (clock 0) d"
    and "s \<in> set (br_seat_ids b)" "s \<in> active_seat_ids d"
    and "queued_events (locked 0) (cfg_payment_worker_batch_size cfg) d = ev1 # ev2 # rest"
    and "pe_type ev1 = ''payment.succeeded''" "pe_booking_id ev1 = Some i" "\<not> stop 0"
  shows "\<exists>m'. payment_run cfg True ei stop (\<lambda>_. id) locked clock (d, r, m) = Some (Crashed MissingGreenlet, 0, d, r, m')"
proof -
  obtain m1 where a: "apply_payment_succeeded ei d (Some i) (clock 0) d m =
      (Inr ((handled_as REJECTED [])\<lparr>hd_rolled_back := True\<rparr>), d, m1)"
    using orphaned_link_rolls_back [OF assms(1-5)] by blast
  have "process_once True ei (locked 0) (cfg_payment_worker_batch_size cfg) (clock 0) d r m = (Inl MissingGreenlet, d, r, m1)"
    using assms(6-8) a by (simp add: process_once_def Let_def count_event_def)
  then show ?thesis
    using assms(9) by (simp add: payment_run_def payment_pass_def run_forever.simps [of stop])
qed

definition stuck_db :: db where
  "stuck_db = sample_db
     \<lparr>db_booking_seats := [\<lparr>bs_booking_id = 1, bs_seat_id = 4, bs_released_at = None\<rparr>,
                            \<lparr>bs_booking_id = 1, bs_seat_id = 2, bs_released_at = None\<rparr>],
      db_payment_events := [payment_row ''e1'' ''payment.succeeded'' JNull (Some 2) 80,
                            payment_row ''e2'' ''payment.succeeded'' JNull (Some 2) 90]\<rparr>"

theorem payment_worker_crash_loop_witness:
  "\<exists>m'. payment_run default_settings True False (\<lambda>_. False) (\<lambda>_. id) (\<lambda>_. {}) (\<lambda>_. 100) (stuck_db, sample_redis, zero_metrics) =
     Some (Crashed MissingGreenlet, 0, stuck_db, sample_redis, m')"
proof -
  have b: "find_booking 2 stuck_db = Some (booking_at 2 ''A'' PENDING [2] ''k2'')"
    by (simp add: stuck_db_def find_booking_def sample_db_def booking_at_def)
  have v: "seats_still_valid_for_booking (booking_at 2 ''A'' PENDING [2] ''k2'') 100 stuck_db"
    by (simp add: seats_still_valid_for_booking_def select_seats_def stuck_db_def sample_db_def booking_at_def
        held_by_sql_def unexpired_sql_def)
  have q: "queued_events {} (cfg_payment_worker_batch_size default_settings) stuck_db =
      [payment_row ''e1'' ''payment.succeeded'' JNull (Some 2) 80, payment_row ''e2'' ''payment.succeeded'' JNull (Some 2) 90]"
    by (simp add: queued_events_def stuck_db_def default_settings_def payment_row_def)
  have act: "2 \<in> active_seat_ids stuck_db" by (simp add: active_seat_ids_def bs_active_def stuck_db_def)
  from payment_worker_crash_loop [OF b _ v _ act q, of "\<lambda>_. False" False sample_redis zero_metrics] show ?thesis
    by (simp add: booking_at_def)
qed

end
