(* ===== verification/App.thy ===== *)
theory App
  imports Routes
begin

text \<open>
  \<^verbatim>\<open>app/main.py\<close>: which response an exception that leaves a route becomes, and the health report.
\<close>

section \<open>Exception handlers\<close>

text \<open>
  The exceptions by the class the handlers are registered for. \<open>DbApi\<close> is any
  \<open>sqlalchemy.exc.DBAPIError\<close>, \<open>AsyncpgOther\<close> an asyncpg error outside the two connection
  families, \<open>Http\<close> FastAPI's own \<open>HTTPException\<close>.
\<close>

datatype server_exn =
    Strategy_Unavailable string
  | DbApi string
  | PostgresConnectionError
  | OperatorInterventionError
  | AsyncpgOther string
  | Connection_Error
  | Http int string
  | Uncaught exn

definition database_unavailable_response :: "int \<times> string" where
  "database_unavailable_response = (503, ''database temporarily unavailable'')"

fun handle_exception :: "server_exn \<Rightarrow> int \<times> string" where
  "handle_exception (Strategy_Unavailable why) = (503, why)"
| "handle_exception (DbApi why) = database_unavailable_response"
| "handle_exception PostgresConnectionError = database_unavailable_response"
| "handle_exception OperatorInterventionError = database_unavailable_response"
| "handle_exception Connection_Error = database_unavailable_response"
| "handle_exception (Http code detail) = (code, detail)"
| "handle_exception (AsyncpgOther why) = (500, ''Internal Server Error'')"
| "handle_exception (Uncaught x) = (500, ''Internal Server Error'')"

text \<open>What the routes of the model raise, as the server sees it.\<close>

fun server_exn_of :: "raised \<Rightarrow> server_exn" where
  "server_exn_of (RaisedByAcquire (StrategyUnavailable why)) = Strategy_Unavailable why"
| "server_exn_of (RaisedByAcquire (DBAPIError sqlstate)) = DbApi sqlstate"
| "server_exn_of (RaisedByAcquire (PyError x)) = Uncaught x"
| "server_exn_of (RaisedByDb IntegrityError) = DbApi ''23000''"
| "server_exn_of (RaisedByDb DataError) = DbApi ''22000''"
| "server_exn_of (RaisedByDb (SqlState s)) = DbApi s"
| "server_exn_of (RaisedPy x) = Uncaught x"

text \<open>A business refusal never takes this way: what raises is answered 500 or 503, nothing else.\<close>

lemma exception_status_handler: "exception_status x = fst (handle_exception (server_exn_of x))"
proof (cases x)
  case (RaisedByAcquire a)
  then show ?thesis by (cases a) (simp_all add: database_unavailable_response_def)
next
  case (RaisedByDb e)
  then show ?thesis by (cases e) (simp_all add: database_unavailable_response_def)
qed simp

section \<open>Health\<close>

text \<open>A probe answers None, or the text of the exception it raised.\<close>

definition check_line :: "string option \<Rightarrow> string" where
  "check_line probe = (case probe of None \<Rightarrow> ''ok'' | Some why \<Rightarrow> ''error: '' @ why)"

definition health :: "string option \<Rightarrow> string option \<Rightarrow> int \<times> (string \<times> string) list" where
  "health postgres redis =
     (let checks = [(''postgres'', check_line postgres), (''redis'', check_line redis)]
      in (if list_all (\<lambda>c. snd c = ''ok'') checks then 200 else 503, checks))"

text \<open>One probe's failure never hides the other's result.\<close>

lemma health_independent:
  "fst (health p r) = (if p = None \<and> r = None then 200 else 503) \<and>
   map_of (snd (health p r)) ''postgres'' = Some (check_line p) \<and>
   map_of (snd (health p r)) ''redis'' = Some (check_line r)"
  by (cases p; cases r) (simp_all add: health_def check_line_def)

end
