(* ===== verification/Catalog.thy ===== *)
theory Catalog
  imports Tables
begin

text \<open>
  What PostgreSQL keeps of the schema, and the DDL statements the migrations run on it
  (\<^verbatim>\<open>migrations/\<close>). A statement is checked twice: against the catalog, whether the objects it names are
  there, and against the rows, whether they satisfy the constraint it adds. Rows are functions from
  column names to values, so that every table fits.
\<close>

section \<open>Catalogs\<close>

datatype sql_type = BIGINT | INTEGER | VARCHAR "nat option" | NUMERIC nat nat | TIMESTAMPTZ | JSONB | BIGINT_ARRAY

datatype col_default = Identity | Server_now | Server_text string

record column_def =
  cl_name :: string
  cl_type :: sql_type
  cl_nullable :: bool
  cl_default :: "col_default option"

text \<open>The conditions of CHECK constraints and of partial indexes.\<close>

datatype condition = Col_in string "string list" | Col_eq string string | Col_null string | Col_not_null string

datatype on_delete = NO_ACTION | CASCADE | SET_NULL | RESTRICT

datatype constr =
    Primary_key string "string list"
  | Unique_key string "string list"
  | Check_that string condition
  | Foreign_key string string string string on_delete

fun constr_name :: "constr \<Rightarrow> string" where
  "constr_name (Primary_key n cs) = n"
| "constr_name (Unique_key n cs) = n"
| "constr_name (Check_that n p) = n"
| "constr_name (Foreign_key n c t rc od) = n"

fun is_primary :: "constr \<Rightarrow> bool" where
  "is_primary (Primary_key n cs) = True"
| "is_primary _ = False"

fun constr_columns :: "constr \<Rightarrow> string list" where
  "constr_columns (Primary_key n cs) = cs"
| "constr_columns (Unique_key n cs) = cs"
| "constr_columns (Check_that n (Col_in c vs)) = [c]"
| "constr_columns (Check_that n (Col_eq c v)) = [c]"
| "constr_columns (Check_that n (Col_null c)) = [c]"
| "constr_columns (Check_that n (Col_not_null c)) = [c]"
| "constr_columns (Foreign_key n c t rc od) = [c]"

fun refers_to :: "string \<Rightarrow> constr \<Rightarrow> bool" where
  "refers_to n (Foreign_key m c t rc od) = (t = n)"
| "refers_to n _ = False"

record table_def =
  tb_name :: string
  tb_columns :: "column_def list"
  tb_constraints :: "constr list"

record index_def =
  ix_name :: string
  ix_table :: string
  ix_columns :: "string list"
  ix_unique :: bool
  ix_where :: "condition option"

record catalog =
  ct_tables :: "table_def list"
  ct_indexes :: "index_def list"

definition empty_catalog :: catalog where
  "empty_catalog = \<lparr>ct_tables = [], ct_indexes = []\<rparr>"

section \<open>Values and rows\<close>

datatype sql_value =
    VNull
  | VInt int
  | VText string
  | VTime instant
  | VInts "int list"
  | VJson json
  | VBody response_body

type_synonym sql_row = "string \<Rightarrow> sql_value"
type_synonym contents = "string \<Rightarrow> sql_row list"

text \<open>Three-valued: NULL makes a comparison unknown, \<open>None\<close>.\<close>

fun condition_value :: "condition \<Rightarrow> sql_row \<Rightarrow> bool option" where
  "condition_value (Col_in c vs) r = (if r c = VNull then None else Some (\<exists>v \<in> set vs. r c = VText v))"
| "condition_value (Col_eq c v) r = (if r c = VNull then None else Some (r c = VText v))"
| "condition_value (Col_null c) r = Some (r c = VNull)"
| "condition_value (Col_not_null c) r = Some (r c \<noteq> VNull)"

definition selected :: "condition option \<Rightarrow> sql_row \<Rightarrow> bool" where
  "selected w r = (case w of None \<Rightarrow> True | Some p \<Rightarrow> condition_value p r = Some True)"

definition check_passes :: "condition \<Rightarrow> sql_row \<Rightarrow> bool" where
  "check_passes p r \<longleftrightarrow> condition_value p r \<noteq> Some False"

text \<open>Rows with a NULL among the columns never collide.\<close>

definition unique_over :: "string list \<Rightarrow> condition option \<Rightarrow> sql_row list \<Rightarrow> bool" where
  "unique_over cs w rs \<longleftrightarrow>
     distinct (map (\<lambda>r. map r cs) (filter (\<lambda>r. selected w r \<and> list_all (\<lambda>c. r c \<noteq> VNull) cs) rs))"

definition not_null :: "string list \<Rightarrow> sql_row list \<Rightarrow> bool" where
  "not_null cs rs \<longleftrightarrow> list_all (\<lambda>r. list_all (\<lambda>c. r c \<noteq> VNull) cs) rs"

section \<open>Statements\<close>

datatype ddl =
    Create_table table_def
  | Drop_table string
  | Create_index index_def
  | Drop_index string
  | Add_column string column_def
  | Drop_column string string
  | Drop_constraint string string
  | Create_check string string condition
  | Create_primary_key string string "string list"

datatype ddl_error =
    DuplicateTable string
  | UndefinedTable string
  | DuplicateObject string
  | UndefinedObject string
  | DuplicateColumn string
  | UndefinedColumn string
  | DependentObjectsStillExist string
  | InvalidTableDefinition string
  | RowsViolate ddl

definition find_table :: "string \<Rightarrow> catalog \<Rightarrow> table_def option" where
  "find_table n s = by_key tb_name n (ct_tables s)"

definition has_column :: "table_def \<Rightarrow> string \<Rightarrow> bool" where
  "has_column t c \<longleftrightarrow> c \<in> set (map cl_name (tb_columns t))"

text \<open>Tables and indexes share one name space.\<close>

definition relation_exists :: "string \<Rightarrow> catalog \<Rightarrow> bool" where
  "relation_exists n s \<longleftrightarrow> n \<in> set (map tb_name (ct_tables s)) \<or> n \<in> set (map ix_name (ct_indexes s))"

definition set_table :: "table_def \<Rightarrow> catalog \<Rightarrow> catalog" where
  "set_table t s = s\<lparr>ct_tables := upd_where (\<lambda>u. tb_name u = tb_name t) (\<lambda>_. t) (ct_tables s)\<rparr>"

definition targets_exist :: "catalog \<Rightarrow> table_def \<Rightarrow> bool" where
  "targets_exist s t \<longleftrightarrow> list_all (\<lambda>k. case k of
       Foreign_key n c u rc od \<Rightarrow> (case find_table u s of None \<Rightarrow> False | Some v \<Rightarrow> has_column v rc)
     | _ \<Rightarrow> True) (tb_constraints t)"

text \<open>What is wrong with a table definition before it is looked up: its own constraints and columns.\<close>

definition columns_exist :: "table_def \<Rightarrow> bool" where
  "columns_exist t \<longleftrightarrow> list_all (\<lambda>k. list_all (has_column t) (constr_columns k)) (tb_constraints t)"

definition in_table :: "string \<Rightarrow> catalog \<Rightarrow> (table_def \<Rightarrow> ddl_error + catalog) \<Rightarrow> ddl_error + catalog" where
  "in_table n s f = (case find_table n s of None \<Rightarrow> Inl (UndefinedTable n) | Some t \<Rightarrow> f t)"

definition add_constraint :: "constr \<Rightarrow> table_def \<Rightarrow> catalog \<Rightarrow> ddl_error + catalog" where
  "add_constraint k t s =
     (if constr_name k \<in> set (map constr_name (tb_constraints t)) then Inl (DuplicateObject (constr_name k))
      else if \<not> list_all (has_column t) (constr_columns k) then Inl (UndefinedColumn (constr_name k))
      else Inr (set_table (t\<lparr>tb_constraints := tb_constraints t @ [k]\<rparr>) s))"

fun ddl_catalog :: "ddl \<Rightarrow> catalog \<Rightarrow> ddl_error + catalog" where
  "ddl_catalog (Create_table t) s =
     (if relation_exists (tb_name t) s then Inl (DuplicateTable (tb_name t))
      else if \<not> columns_exist t then Inl (UndefinedColumn (tb_name t))
      else if \<not> targets_exist s t then Inl (UndefinedTable (tb_name t))
      else Inr (s\<lparr>ct_tables := ct_tables s @ [t]\<rparr>))"
| "ddl_catalog (Drop_table n) s = in_table n s (\<lambda>t.
     if list_ex (\<lambda>u. tb_name u \<noteq> n \<and> list_ex (refers_to n) (tb_constraints u)) (ct_tables s)
     then Inl (DependentObjectsStillExist n)
     else Inr \<lparr>ct_tables = filter (\<lambda>u. tb_name u \<noteq> n) (ct_tables s),
               ct_indexes = filter (\<lambda>i. ix_table i \<noteq> n) (ct_indexes s)\<rparr>)"
| "ddl_catalog (Create_index i) s = in_table (ix_table i) s (\<lambda>t.
     if relation_exists (ix_name i) s then Inl (DuplicateTable (ix_name i))
     else if \<not> list_all (has_column t) (ix_columns i) then Inl (UndefinedColumn (ix_name i))
     else Inr (s\<lparr>ct_indexes := ct_indexes s @ [i]\<rparr>))"
| "ddl_catalog (Drop_index n) s =
     (if n \<in> set (map ix_name (ct_indexes s))
      then Inr (s\<lparr>ct_indexes := filter (\<lambda>i. ix_name i \<noteq> n) (ct_indexes s)\<rparr>)
      else Inl (UndefinedObject n))"
| "ddl_catalog (Add_column n c) s = in_table n s (\<lambda>t.
     if has_column t (cl_name c) then Inl (DuplicateColumn (cl_name c))
     else Inr (set_table (t\<lparr>tb_columns := tb_columns t @ [c]\<rparr>) s))"
| "ddl_catalog (Drop_column n c) s = in_table n s (\<lambda>t.
     if \<not> has_column t c then Inl (UndefinedColumn c)
     else if list_ex (\<lambda>u. list_ex (\<lambda>k. case k of Foreign_key m d v rc od \<Rightarrow> v = n \<and> rc = c | _ \<Rightarrow> False)
                  (tb_constraints u)) (ct_tables s) then Inl (DependentObjectsStillExist c)
     else Inr (let t' = t\<lparr>tb_columns := filter (\<lambda>x. cl_name x \<noteq> c) (tb_columns t),
                          tb_constraints := filter (\<lambda>k. c \<notin> set (constr_columns k)) (tb_constraints t)\<rparr>
               in (set_table t' s)\<lparr>ct_indexes := filter (\<lambda>i. \<not> (ix_table i = n \<and> c \<in> set (ix_columns i))) (ct_indexes s)\<rparr>))"
| "ddl_catalog (Drop_constraint n k) s = in_table n s (\<lambda>t.
     if k \<notin> set (map constr_name (tb_constraints t)) then Inl (UndefinedObject k)
     else if list_ex (\<lambda>x. constr_name x = k \<and> is_primary x) (tb_constraints t) \<and>
             list_ex (\<lambda>u. list_ex (refers_to n) (tb_constraints u)) (ct_tables s) then Inl (DependentObjectsStillExist k)
     else Inr (set_table (t\<lparr>tb_constraints := filter (\<lambda>x. constr_name x \<noteq> k) (tb_constraints t)\<rparr>) s))"
| "ddl_catalog (Create_check n k p) s = in_table n s (\<lambda>t. add_constraint (Check_that k p) t s)"
| "ddl_catalog (Create_primary_key n k cs) s = in_table n s (\<lambda>t.
     if list_ex is_primary (tb_constraints t) then Inl (InvalidTableDefinition n)
     else add_constraint (Primary_key k cs)
       (t\<lparr>tb_columns := upd_where (\<lambda>c. cl_name c \<in> set cs) (\<lambda>c. c\<lparr>cl_nullable := False\<rparr>) (tb_columns t)\<rparr>) s)"

text \<open>
  What a statement asks of the rows, and what it makes of them. No migration adds a column with a
  default; adding one is not modelled and counts as refused.
\<close>

fun ddl_allowed :: "ddl \<Rightarrow> contents \<Rightarrow> bool" where
  "ddl_allowed (Create_index i) rs = (ix_unique i \<longrightarrow> unique_over (ix_columns i) (ix_where i) (rs (ix_table i)))"
| "ddl_allowed (Add_column n c) rs = (cl_default c = None \<and> (cl_nullable c \<or> rs n = []))"
| "ddl_allowed (Create_check n k p) rs = list_all (check_passes p) (rs n)"
| "ddl_allowed (Create_primary_key n k cs) rs = (not_null cs (rs n) \<and> unique_over cs None (rs n))"
| "ddl_allowed _ rs = True"

fun ddl_contents :: "ddl \<Rightarrow> contents \<Rightarrow> contents" where
  "ddl_contents (Create_table t) rs = rs(tb_name t := [])"
| "ddl_contents (Drop_table n) rs = rs(n := [])"
| "ddl_contents (Add_column n c) rs = rs(n := map (\<lambda>r. r(cl_name c := VNull)) (rs n))"
| "ddl_contents (Drop_column n c) rs = rs(n := map (\<lambda>r. r(c := VNull)) (rs n))"
| "ddl_contents _ rs = rs"

definition run_ddl :: "ddl \<Rightarrow> catalog \<times> contents \<Rightarrow> ddl_error + catalog \<times> contents" where
  "run_ddl x db = (case db of (s, rs) \<Rightarrow>
     bindE (ddl_catalog x s) (\<lambda>s'. if ddl_allowed x rs then Inr (s', ddl_contents x rs) else Inl (RowsViolate x)))"

text \<open>A migration runs in a transaction: an error leaves everything as it was.\<close>

fun run_script :: "ddl list \<Rightarrow> catalog \<times> contents \<Rightarrow> ddl_error + catalog \<times> contents" where
  "run_script [] db = Inr db"
| "run_script (x # xs) db = bindE (run_ddl x db) (run_script xs)"

section \<open>The two halves of a script\<close>

fun catalog_script :: "ddl list \<Rightarrow> catalog \<Rightarrow> ddl_error + catalog" where
  "catalog_script [] s = Inr s"
| "catalog_script (x # xs) s = bindE (ddl_catalog x s) (catalog_script xs)"

fun allowed_script :: "ddl list \<Rightarrow> contents \<Rightarrow> bool" where
  "allowed_script [] rs = True"
| "allowed_script (x # xs) rs = (ddl_allowed x rs \<and> allowed_script xs (ddl_contents x rs))"

fun contents_script :: "ddl list \<Rightarrow> contents \<Rightarrow> contents" where
  "contents_script [] rs = rs"
| "contents_script (x # xs) rs = contents_script xs (ddl_contents x rs)"

lemma run_script_iff:
  "run_script xs (s, rs) = Inr (s', rs') \<longleftrightarrow>
     catalog_script xs s = Inr s' \<and> allowed_script xs rs \<and> rs' = contents_script xs rs"
  by (induction xs arbitrary: s rs) (auto simp: run_ddl_def bindE_eq_Inr_iff)

lemma run_script_append: "run_script (xs @ ys) db = bindE (run_script xs db) (run_script ys)"
  by (induction xs arbitrary: db) (auto simp: bindE_def split: sum.splits)

lemma catalog_script_append: "catalog_script (xs @ ys) s = bindE (catalog_script xs s) (catalog_script ys)"
  by (induction xs arbitrary: s) (auto simp: bindE_def split: sum.splits)

section \<open>When two catalogs describe the same schema\<close>

text \<open>The order of tables, columns, constraints and indexes does not matter.\<close>

definition same_elements :: "'a list \<Rightarrow> 'a list \<Rightarrow> bool" where
  "same_elements xs ys \<longleftrightarrow> distinct xs \<and> distinct ys \<and> list_all (\<lambda>x. x \<in> set ys) xs \<and> list_all (\<lambda>y. y \<in> set xs) ys"

lemma same_elements_sets: "same_elements xs ys \<longleftrightarrow> distinct xs \<and> distinct ys \<and> set xs = set ys"
  by (auto simp: same_elements_def list_all_iff)

definition same_table :: "table_def \<Rightarrow> table_def \<Rightarrow> bool" where
  "same_table t u \<longleftrightarrow> tb_name t = tb_name u \<and> same_elements (tb_columns t) (tb_columns u) \<and>
     same_elements (tb_constraints t) (tb_constraints u)"

definition same_catalog :: "catalog \<Rightarrow> catalog \<Rightarrow> bool" where
  "same_catalog s t \<longleftrightarrow> same_elements (ct_indexes s) (ct_indexes t) \<and>
     same_elements (map tb_name (ct_tables s)) (map tb_name (ct_tables t)) \<and>
     list_all (\<lambda>u. list_ex (same_table u) (ct_tables t)) (ct_tables s)"

section \<open>Rows that satisfy a schema\<close>

definition column_ok :: "column_def \<Rightarrow> sql_row \<Rightarrow> bool" where
  "column_ok c r \<longleftrightarrow> cl_nullable c \<or> r (cl_name c) \<noteq> VNull"

fun constr_ok :: "contents \<Rightarrow> sql_row list \<Rightarrow> constr \<Rightarrow> bool" where
  "constr_ok rs us (Primary_key n cs) = unique_over cs None us"
| "constr_ok rs us (Unique_key n cs) = unique_over cs None us"
| "constr_ok rs us (Check_that n p) = list_all (check_passes p) us"
| "constr_ok rs us (Foreign_key n c t rc od) = list_all (\<lambda>r. r c = VNull \<or> r c \<in> set (map (\<lambda>v. v rc) (rs t))) us"

definition satisfies :: "catalog \<Rightarrow> contents \<Rightarrow> bool" where
  "satisfies s rs \<longleftrightarrow>
     list_all (\<lambda>t. list_all (\<lambda>c. list_all (column_ok c) (rs (tb_name t))) (tb_columns t) \<and>
       list_all (constr_ok rs (rs (tb_name t))) (tb_constraints t)) (ct_tables s) \<and>
     list_all (\<lambda>i. ix_unique i \<longrightarrow> unique_over (ix_columns i) (ix_where i) (rs (ix_table i))) (ct_indexes s)"

end
