(* ===== verification/Migrations.thy ===== *)
theory Migrations
  imports Catalog
begin

text \<open>
  \<^verbatim>\<open>migrations/versions/\<close>: the five revisions, each as the script its \<open>upgrade()\<close> runs and the one its
  \<open>downgrade()\<close> runs, and the declarations of \<^verbatim>\<open>app/infra/tables.py\<close> with the names the naming
  convention of their metadata gives to constraints and indexes.

  Alembic itself is not part of the repository; of it the model has that revisions are applied in the
  order of their \<open>down_revision\<close> links, within one transaction, and that a name that is not marked
  with \<open>op.f\<close> goes through the naming convention of the target metadata.
\<close>

section \<open>Naming convention\<close>

fun join :: "string list \<Rightarrow> string" where
  "join [] = []"
| "join [c] = c"
| "join (c # cs) = c @ ''_'' @ join cs"

definition ix_convention :: "string \<Rightarrow> string list \<Rightarrow> string" where
  "ix_convention t cs = ''ix_'' @ t @ ''_'' @ join cs"

definition uq_convention :: "string \<Rightarrow> string list \<Rightarrow> string" where
  "uq_convention t cs = ''uq_'' @ t @ ''_'' @ join cs"

definition ck_convention :: "string \<Rightarrow> string \<Rightarrow> string" where
  "ck_convention t n = ''ck_'' @ t @ ''_'' @ n"

definition fk_convention :: "string \<Rightarrow> string \<Rightarrow> string \<Rightarrow> string" where
  "fk_convention t c referred = ''fk_'' @ t @ ''_'' @ c @ ''_'' @ referred"

definition pk_convention :: "string \<Rightarrow> string" where
  "pk_convention t = ''pk_'' @ t"

section \<open>Columns\<close>

definition required :: "string \<Rightarrow> sql_type \<Rightarrow> column_def" where
  "required n ty = \<lparr>cl_name = n, cl_type = ty, cl_nullable = False, cl_default = None\<rparr>"

definition optional :: "string \<Rightarrow> sql_type \<Rightarrow> column_def" where
  "optional n ty = \<lparr>cl_name = n, cl_type = ty, cl_nullable = True, cl_default = None\<rparr>"

definition defaulted :: "string \<Rightarrow> sql_type \<Rightarrow> col_default \<Rightarrow> column_def" where
  "defaulted n ty df = \<lparr>cl_name = n, cl_type = ty, cl_nullable = False, cl_default = Some df\<rparr>"

definition plain_index :: "string \<Rightarrow> string \<Rightarrow> string list \<Rightarrow> condition option \<Rightarrow> index_def" where
  "plain_index n t cs w = \<lparr>ix_name = n, ix_table = t, ix_columns = cs, ix_unique = False, ix_where = w\<rparr>"

definition unique_index :: "string \<Rightarrow> string \<Rightarrow> string list \<Rightarrow> condition option \<Rightarrow> index_def" where
  "unique_index n t cs w = \<lparr>ix_name = n, ix_table = t, ix_columns = cs, ix_unique = True, ix_where = w\<rparr>"

section \<open>Revisions\<close>

record revision =
  rev_id :: string
  rev_down :: "string option"
  rev_upgrade :: "ddl list"
  rev_downgrade :: "ddl list"

definition old_statuses :: "string list" where
  "old_statuses = [''PENDING'', ''CONFIRMED'', ''CANCELLED'', ''REFUNDED'']"

definition new_statuses :: "string list" where
  "new_statuses = [''PENDING'', ''CONFIRMED'', ''CANCELLED'', ''REFUNDED'', ''REFUND_REQUIRED'']"

definition initial_schema :: revision where
  "initial_schema =
     \<lparr>rev_id = ''b69852358522'', rev_down = None,
      rev_upgrade =
       [Create_table \<lparr>tb_name = ''events'',
          tb_columns = [defaulted ''id'' BIGINT Identity, required ''name'' (VARCHAR None), required ''venue'' (VARCHAR None),
            required ''starts_at'' TIMESTAMPTZ, required ''total_seats'' INTEGER, defaulted ''created_at'' TIMESTAMPTZ Server_now],
          tb_constraints = [Primary_key ''pk_events'' [''id'']]\<rparr>,
        Create_table \<lparr>tb_name = ''bookings'',
          tb_columns = [defaulted ''id'' BIGINT Identity, required ''event_id'' BIGINT, required ''user_id'' BIGINT,
            required ''session_id'' (VARCHAR None), required ''status'' (VARCHAR (Some 16)),
            required ''total_amount'' (NUMERIC 12 2), required ''currency'' (VARCHAR (Some 3)),
            optional ''idempotency_key'' (VARCHAR None), defaulted ''created_at'' TIMESTAMPTZ Server_now,
            optional ''confirmed_at'' TIMESTAMPTZ],
          tb_constraints = [Check_that ''ck_bookings_booking_status_valid'' (Col_in ''status'' old_statuses),
            Foreign_key ''fk_bookings_event_id_events'' ''event_id'' ''events'' ''id'' NO_ACTION,
            Primary_key ''pk_bookings'' [''id'']]\<rparr>,
        Create_index (plain_index ''ix_bookings_idempotency_key'' ''bookings'' [''idempotency_key''] None),
        Create_table \<lparr>tb_name = ''seats'',
          tb_columns = [defaulted ''id'' BIGINT Identity, required ''event_id'' BIGINT, required ''section'' (VARCHAR None),
            required ''row_label'' (VARCHAR None), required ''seat_number'' INTEGER, required ''status'' (VARCHAR (Some 16)),
            defaulted ''version'' INTEGER (Server_text ''0''), optional ''held_by_session_id'' (VARCHAR None),
            optional ''hold_expires_at'' TIMESTAMPTZ, optional ''booking_id'' BIGINT,
            defaulted ''updated_at'' TIMESTAMPTZ Server_now],
          tb_constraints = [Check_that ''ck_seats_seat_status_valid'' (Col_in ''status'' [''AVAILABLE'', ''HELD'', ''BOOKED'']),
            Foreign_key ''fk_seats_booking_id_bookings'' ''booking_id'' ''bookings'' ''id'' SET_NULL,
            Foreign_key ''fk_seats_event_id_events'' ''event_id'' ''events'' ''id'' CASCADE,
            Primary_key ''pk_seats'' [''id''],
            Unique_key ''uq_seats_event_id_section_row_label_seat_number'' [''event_id'', ''section'', ''row_label'', ''seat_number'']]\<rparr>,
        Create_index (plain_index ''ix_seats_event_id_status'' ''seats'' [''event_id'', ''status''] None),
        Create_index (plain_index ''ix_seats_hold_expires_at'' ''seats'' [''hold_expires_at''] (Some (Col_eq ''status'' ''HELD''))),
        Create_table \<lparr>tb_name = ''booking_seats'',
          tb_columns = [required ''booking_id'' BIGINT, required ''seat_id'' BIGINT, optional ''released_at'' TIMESTAMPTZ],
          tb_constraints = [Foreign_key ''fk_booking_seats_booking_id_bookings'' ''booking_id'' ''bookings'' ''id'' CASCADE,
            Foreign_key ''fk_booking_seats_seat_id_seats'' ''seat_id'' ''seats'' ''id'' RESTRICT,
            Primary_key ''pk_booking_seats'' [''booking_id'', ''seat_id'']]\<rparr>,
        Create_index (unique_index ''ix_booking_seats_seat_id'' ''booking_seats'' [''seat_id''] (Some (Col_null ''released_at'')))],
      rev_downgrade =
       [Drop_index ''ix_booking_seats_seat_id'', Drop_table ''booking_seats'', Drop_index ''ix_seats_hold_expires_at'',
        Drop_index ''ix_seats_event_id_status'', Drop_table ''seats'', Drop_index ''ix_bookings_idempotency_key'',
        Drop_table ''bookings'', Drop_table ''events'']\<rparr>"

definition add_hold_audit :: revision where
  "add_hold_audit =
     \<lparr>rev_id = ''77e044b6f4b8'', rev_down = Some ''b69852358522'',
      rev_upgrade =
       [Create_table \<lparr>tb_name = ''hold_audit'',
          tb_columns = [defaulted ''id'' BIGINT Identity, required ''seat_id'' BIGINT, required ''session_id'' (VARCHAR None),
            required ''acquired_at'' TIMESTAMPTZ],
          tb_constraints = [Foreign_key ''fk_hold_audit_seat_id_seats'' ''seat_id'' ''seats'' ''id'' CASCADE,
            Primary_key ''pk_hold_audit'' [''id'']]\<rparr>,
        Create_index (plain_index ''ix_hold_audit_seat_id'' ''hold_audit'' [''seat_id''] None)],
      rev_downgrade = [Drop_index ''ix_hold_audit_seat_id'', Drop_table ''hold_audit'']\<rparr>"

definition phase_5_tables :: revision where
  "phase_5_tables =
     \<lparr>rev_id = ''6a15cecb828f'', rev_down = Some ''77e044b6f4b8'',
      rev_upgrade =
       [Create_table \<lparr>tb_name = ''idempotency_keys'',
          tb_columns = [required ''key'' (VARCHAR None), required ''user_id'' BIGINT,
            required ''request_fingerprint'' (VARCHAR None), required ''status'' (VARCHAR (Some 16)),
            optional ''response_status'' INTEGER, optional ''response_body'' JSONB,
            defaulted ''created_at'' TIMESTAMPTZ Server_now, required ''expires_at'' TIMESTAMPTZ],
          tb_constraints = [Check_that ''ck_idempotency_keys_idempotency_key_status_valid''
              (Col_in ''status'' [''IN_PROGRESS'', ''COMPLETED'', ''FAILED'']),
            Primary_key ''pk_idempotency_keys'' [''key'']]\<rparr>,
        Create_index (plain_index ''ix_idempotency_keys_created_at'' ''idempotency_keys'' [''created_at'']
          (Some (Col_eq ''status'' ''IN_PROGRESS''))),
        Create_table \<lparr>tb_name = ''outbox'',
          tb_columns = [defaulted ''id'' BIGINT Identity, required ''aggregate_id'' (VARCHAR None),
            required ''event_type'' (VARCHAR None), required ''payload'' JSONB,
            defaulted ''created_at'' TIMESTAMPTZ Server_now, optional ''published_at'' TIMESTAMPTZ],
          tb_constraints = [Primary_key ''pk_outbox'' [''id'']]\<rparr>,
        Create_index (plain_index ''ix_outbox_created_at'' ''outbox'' [''created_at''] (Some (Col_null ''published_at''))),
        Create_table \<lparr>tb_name = ''payment_events'',
          tb_columns = [required ''provider_event_id'' (VARCHAR None), optional ''booking_id'' BIGINT,
            required ''event_type'' (VARCHAR None), required ''payload'' JSONB, defaulted ''received_at'' TIMESTAMPTZ Server_now,
            optional ''processed_at'' TIMESTAMPTZ, optional ''processing_status'' (VARCHAR (Some 16))],
          tb_constraints = [Foreign_key ''fk_payment_events_booking_id_bookings'' ''booking_id'' ''bookings'' ''id'' SET_NULL,
            Primary_key ''pk_payment_events'' [''provider_event_id'']]\<rparr>,
        Create_index (plain_index ''ix_payment_events_booking_id'' ''payment_events'' [''booking_id''] None),
        Create_index (plain_index ''ix_payment_events_received_at'' ''payment_events'' [''received_at''] (Some (Col_null ''processed_at''))),
        Drop_index ''ix_bookings_idempotency_key'',
        Create_index (unique_index ''ix_bookings_idempotency_key'' ''bookings'' [''idempotency_key'']
          (Some (Col_not_null ''idempotency_key''))),
        Drop_constraint ''bookings'' ''ck_bookings_booking_status_valid'',
        Create_check ''bookings'' (ck_convention ''bookings'' ''booking_status_valid'') (Col_in ''status'' new_statuses)],
      rev_downgrade =
       [Drop_constraint ''bookings'' ''ck_bookings_booking_status_valid'',
        Create_check ''bookings'' (ck_convention ''bookings'' ''booking_status_valid'') (Col_in ''status'' old_statuses),
        Drop_index ''ix_bookings_idempotency_key'',
        Create_index (plain_index ''ix_bookings_idempotency_key'' ''bookings'' [''idempotency_key''] None),
        Drop_index ''ix_payment_events_received_at'', Drop_index ''ix_payment_events_booking_id'', Drop_table ''payment_events'',
        Drop_index ''ix_outbox_created_at'', Drop_table ''outbox'',
        Drop_index ''ix_idempotency_keys_created_at'', Drop_table ''idempotency_keys'']\<rparr>"

definition add_seat_ids :: revision where
  "add_seat_ids =
     \<lparr>rev_id = ''263d962dba7a'', rev_down = Some ''6a15cecb828f'',
      rev_upgrade = [Add_column ''bookings'' (required ''seat_ids'' BIGINT_ARRAY)],
      rev_downgrade = [Drop_column ''bookings'' ''seat_ids'']\<rparr>"

definition scope_keys_to_users :: revision where
  "scope_keys_to_users =
     \<lparr>rev_id = ''cd8815978689'', rev_down = Some ''263d962dba7a'',
      rev_upgrade =
       [Drop_index ''ix_bookings_idempotency_key'',
        Create_index (unique_index ''ix_bookings_user_id_idempotency_key'' ''bookings'' [''user_id'', ''idempotency_key'']
          (Some (Col_not_null ''idempotency_key''))),
        Drop_constraint ''idempotency_keys'' ''pk_idempotency_keys'',
        Create_primary_key ''idempotency_keys'' ''pk_idempotency_keys'' [''user_id'', ''key'']],
      rev_downgrade =
       [Drop_constraint ''idempotency_keys'' ''pk_idempotency_keys'',
        Create_primary_key ''idempotency_keys'' ''pk_idempotency_keys'' [''key''],
        Drop_index ''ix_bookings_user_id_idempotency_key'',
        Create_index (unique_index ''ix_bookings_idempotency_key'' ''bookings'' [''idempotency_key'']
          (Some (Col_not_null ''idempotency_key'')))]\<rparr>"

text \<open>The scripts of the directory, in the order their file names sort.\<close>

definition version_scripts :: "revision list" where
  "version_scripts = [add_seat_ids, phase_5_tables, add_hold_audit, initial_schema, scope_keys_to_users]"

text \<open>Following the links from a revision on; no chain is longer than the directory.\<close>

fun chain_from :: "nat \<Rightarrow> revision list \<Rightarrow> string option \<Rightarrow> revision list" where
  "chain_from 0 rs cur = []"
| "chain_from (Suc n) rs cur =
     (case find (\<lambda>r. rev_down r = cur) rs of
        None \<Rightarrow> []
      | Some r \<Rightarrow> r # chain_from n rs (Some (rev_id r)))"

definition chain :: "revision list" where
  "chain = chain_from (length version_scripts) version_scripts None"

definition upgrade_to_head :: "catalog \<times> contents \<Rightarrow> ddl_error + catalog \<times> contents" where
  "upgrade_to_head = run_script (concat (map rev_upgrade chain))"

definition downgrade_to_base :: "catalog \<times> contents \<Rightarrow> ddl_error + catalog \<times> contents" where
  "downgrade_to_base = run_script (concat (map rev_downgrade (rev chain)))"

section \<open>Declarations\<close>

record mapped_column =
  mc_def :: column_def
  mc_primary :: bool
  mc_references :: "(string \<times> string \<times> on_delete) option"

datatype table_arg =
    Unique_arg "string list"
  | Check_arg condition string
  | Index_arg "string list" bool "condition option"

record model =
  md_table :: string
  md_columns :: "mapped_column list"
  md_args :: "table_arg list"

definition plain :: "column_def \<Rightarrow> mapped_column" where
  "plain c = \<lparr>mc_def = c, mc_primary = False, mc_references = None\<rparr>"

definition primary :: "column_def \<Rightarrow> mapped_column" where
  "primary c = \<lparr>mc_def = c, mc_primary = True, mc_references = None\<rparr>"

definition references :: "string \<Rightarrow> on_delete \<Rightarrow> mapped_column \<Rightarrow> mapped_column" where
  "references t od c = c\<lparr>mc_references := Some (t, ''id'', od)\<rparr>"

definition model_constraints :: "model \<Rightarrow> constr list" where
  "model_constraints md =
     Primary_key (pk_convention (md_table md)) (map (cl_name \<circ> mc_def) (filter mc_primary (md_columns md))) #
     List.map_filter (\<lambda>c. case mc_references c of
         None \<Rightarrow> None
       | Some (t, rc, od) \<Rightarrow>
           Some (Foreign_key (fk_convention (md_table md) (cl_name (mc_def c)) t) (cl_name (mc_def c)) t rc od)) (md_columns md) @
     List.map_filter (\<lambda>a. case a of
         Unique_arg cs \<Rightarrow> Some (Unique_key (uq_convention (md_table md) cs) cs)
       | Check_arg p n \<Rightarrow> Some (Check_that (ck_convention (md_table md) n) p)
       | Index_arg cs u w \<Rightarrow> None) (md_args md)"

definition model_indexes :: "model \<Rightarrow> index_def list" where
  "model_indexes md = List.map_filter (\<lambda>a. case a of
       Index_arg cs u w \<Rightarrow> Some \<lparr>ix_name = ix_convention (md_table md) cs, ix_table = md_table md, ix_columns = cs,
         ix_unique = u, ix_where = w\<rparr>
     | _ \<Rightarrow> None) (md_args md)"

definition metadata_catalog :: "model list \<Rightarrow> catalog" where
  "metadata_catalog mds =
     \<lparr>ct_tables = map (\<lambda>md. \<lparr>tb_name = md_table md, tb_columns = map mc_def (md_columns md),
        tb_constraints = model_constraints md\<rparr>) mds,
      ct_indexes = concat (map model_indexes mds)\<rparr>"

definition event_model :: model where
  "event_model =
     \<lparr>md_table = ''events'',
      md_columns = [primary (defaulted ''id'' BIGINT Identity), plain (required ''name'' (VARCHAR None)),
        plain (required ''venue'' (VARCHAR None)), plain (required ''starts_at'' TIMESTAMPTZ),
        plain (required ''total_seats'' INTEGER), plain (defaulted ''created_at'' TIMESTAMPTZ Server_now)],
      md_args = []\<rparr>"

definition seat_model :: model where
  "seat_model =
     \<lparr>md_table = ''seats'',
      md_columns = [primary (defaulted ''id'' BIGINT Identity),
        references ''events'' CASCADE (plain (required ''event_id'' BIGINT)), plain (required ''section'' (VARCHAR None)),
        plain (required ''row_label'' (VARCHAR None)), plain (required ''seat_number'' INTEGER),
        plain (required ''status'' (VARCHAR (Some 16))), plain (defaulted ''version'' INTEGER (Server_text ''0'')),
        plain (optional ''held_by_session_id'' (VARCHAR None)), plain (optional ''hold_expires_at'' TIMESTAMPTZ),
        references ''bookings'' SET_NULL (plain (optional ''booking_id'' BIGINT)),
        plain (defaulted ''updated_at'' TIMESTAMPTZ Server_now)],
      md_args = [Unique_arg [''event_id'', ''section'', ''row_label'', ''seat_number''],
        Check_arg (Col_in ''status'' [''AVAILABLE'', ''HELD'', ''BOOKED'']) ''seat_status_valid'',
        Index_arg [''hold_expires_at''] False (Some (Col_eq ''status'' ''HELD'')),
        Index_arg [''event_id'', ''status''] False None]\<rparr>"

definition booking_model :: model where
  "booking_model =
     \<lparr>md_table = ''bookings'',
      md_columns = [primary (defaulted ''id'' BIGINT Identity),
        references ''events'' NO_ACTION (plain (required ''event_id'' BIGINT)), plain (required ''user_id'' BIGINT),
        plain (required ''session_id'' (VARCHAR None)), plain (required ''status'' (VARCHAR (Some 16))),
        plain (required ''total_amount'' (NUMERIC 12 2)), plain (required ''currency'' (VARCHAR (Some 3))),
        plain (required ''seat_ids'' BIGINT_ARRAY), plain (optional ''idempotency_key'' (VARCHAR None)),
        plain (defaulted ''created_at'' TIMESTAMPTZ Server_now), plain (optional ''confirmed_at'' TIMESTAMPTZ)],
      md_args = [Check_arg (Col_in ''status'' [''PENDING'', ''CONFIRMED'', ''CANCELLED'', ''REFUNDED'', ''REFUND_REQUIRED''])
          ''booking_status_valid'',
        Index_arg [''user_id'', ''idempotency_key''] True (Some (Col_not_null ''idempotency_key''))]\<rparr>"

definition booking_seat_model :: model where
  "booking_seat_model =
     \<lparr>md_table = ''booking_seats'',
      md_columns = [references ''bookings'' CASCADE (primary (required ''booking_id'' BIGINT)),
        references ''seats'' RESTRICT (primary (required ''seat_id'' BIGINT)), plain (optional ''released_at'' TIMESTAMPTZ)],
      md_args = [Index_arg [''seat_id''] True (Some (Col_null ''released_at''))]\<rparr>"

definition hold_audit_model :: model where
  "hold_audit_model =
     \<lparr>md_table = ''hold_audit'',
      md_columns = [primary (defaulted ''id'' BIGINT Identity),
        references ''seats'' CASCADE (plain (required ''seat_id'' BIGINT)), plain (required ''session_id'' (VARCHAR None)),
        plain (required ''acquired_at'' TIMESTAMPTZ)],
      md_args = [Index_arg [''seat_id''] False None]\<rparr>"

definition idempotency_key_model :: model where
  "idempotency_key_model =
     \<lparr>md_table = ''idempotency_keys'',
      md_columns = [primary (required ''user_id'' BIGINT), primary (required ''key'' (VARCHAR None)),
        plain (required ''request_fingerprint'' (VARCHAR None)), plain (required ''status'' (VARCHAR (Some 16))),
        plain (optional ''response_status'' INTEGER), plain (optional ''response_body'' JSONB),
        plain (defaulted ''created_at'' TIMESTAMPTZ Server_now), plain (required ''expires_at'' TIMESTAMPTZ)],
      md_args = [Check_arg (Col_in ''status'' [''IN_PROGRESS'', ''COMPLETED'', ''FAILED'']) ''idempotency_key_status_valid'',
        Index_arg [''created_at''] False (Some (Col_eq ''status'' ''IN_PROGRESS''))]\<rparr>"

definition payment_event_model :: model where
  "payment_event_model =
     \<lparr>md_table = ''payment_events'',
      md_columns = [primary (required ''provider_event_id'' (VARCHAR None)),
        references ''bookings'' SET_NULL (plain (optional ''booking_id'' BIGINT)), plain (required ''event_type'' (VARCHAR None)),
        plain (required ''payload'' JSONB), plain (defaulted ''received_at'' TIMESTAMPTZ Server_now),
        plain (optional ''processed_at'' TIMESTAMPTZ), plain (optional ''processing_status'' (VARCHAR (Some 16)))],
      md_args = [Index_arg [''booking_id''] False None,
        Index_arg [''received_at''] False (Some (Col_null ''processed_at''))]\<rparr>"

definition outbox_model :: model where
  "outbox_model =
     \<lparr>md_table = ''outbox'',
      md_columns = [primary (defaulted ''id'' BIGINT Identity), plain (required ''aggregate_id'' (VARCHAR None)),
        plain (required ''event_type'' (VARCHAR None)), plain (required ''payload'' JSONB),
        plain (defaulted ''created_at'' TIMESTAMPTZ Server_now), plain (optional ''published_at'' TIMESTAMPTZ)],
      md_args = [Index_arg [''created_at''] False (Some (Col_null ''published_at''))]\<rparr>"

definition declared_models :: "model list" where
  "declared_models = [event_model, seat_model, booking_model, booking_seat_model, hold_audit_model,
     idempotency_key_model, payment_event_model, outbox_model]"

end
