(* ===== verification/Migration_Properties.thy ===== *)
theory Migration_Properties
  imports Migrations Samples
begin

text \<open>
  What the migrations lead to: the schema the code declares, and back again; which rows make a
  migration fail; and that the declared schema is what the other theories assume of a database.
\<close>

section \<open>The catalogs along the chain\<close>

definition catalog_at :: "nat \<Rightarrow> ddl_error + catalog" where
  "catalog_at k = catalog_script (concat (map rev_upgrade (take k chain))) empty_catalog"

lemma chain_unfold: "chain = [initial_schema, add_hold_audit, phase_5_tables, add_seat_ids, scope_keys_to_users]"
  by code_simp

lemmas revision_defs = initial_schema_def add_hold_audit_def phase_5_tables_def add_seat_ids_def scope_keys_to_users_def

lemma catalog_at_Suc:
  assumes "k < 5" "catalog_at k = Inr s"
  shows "catalog_at (k + 1) = catalog_script (rev_upgrade (chain ! k)) s"
proof -
  have "k < length chain" using assms(1) by (simp add: chain_unfold)
  then have "concat (map rev_upgrade (take (k + 1) chain)) = concat (map rev_upgrade (take k chain)) @ rev_upgrade (chain ! k)"
    by (simp add: take_Suc_conv_app_nth)
  then show ?thesis using assms(2) by (simp add: catalog_at_def catalog_script_append bindE_def)
qed

section \<open>Empty tables\<close>

fun adds_no_default :: "ddl \<Rightarrow> bool" where
  "adds_no_default (Add_column t c) = (cl_default c = None)"
| "adds_no_default _ = True"

lemma empty_allowed: "adds_no_default x \<Longrightarrow> ddl_allowed x (\<lambda>_. [])"
  by (cases x) (simp_all add: unique_over_def not_null_def)

lemma empty_contents: "ddl_contents x (\<lambda>_. []) = (\<lambda>_. [])"
  by (cases x) (simp_all add: fun_eq_iff)

lemma empty_script:
  "list_all adds_no_default xs \<Longrightarrow> allowed_script xs (\<lambda>_. []) \<and> contents_script xs (\<lambda>_. []) = (\<lambda>_. [])"
  by (induction xs) (simp_all add: empty_allowed empty_contents)

lemma chain_adds_no_default: "list_all adds_no_default (concat (map rev_upgrade chain))"
  by code_simp

section \<open>Which rows let a migration through\<close>

definition status_in :: "string list \<Rightarrow> sql_row \<Rightarrow> bool" where
  "status_in vs r \<longleftrightarrow> r ''status'' = VNull \<or> list_ex (\<lambda>v. r ''status'' = VText v) vs"

lemma check_status: "check_passes (Col_in ''status'' vs) = status_in vs"
  by (auto simp: fun_eq_iff check_passes_def status_in_def list_ex_iff)

lemma unique_over_Nil [simp]: "unique_over cs w []"
  by (simp add: unique_over_def)

lemma unique_over_not_null [simp]:
  "c \<in> set cs \<Longrightarrow> unique_over cs (Some (Col_not_null c)) rs = unique_over cs None rs"
proof -
  assume "c \<in> set cs"
  then have "(selected (Some (Col_not_null c)) r \<and> list_all (\<lambda>c. r c \<noteq> VNull) cs) =
      (selected None r \<and> list_all (\<lambda>c. r c \<noteq> VNull) cs)" for r
    by (auto simp: selected_def list_all_iff)
  then show ?thesis by (simp only: unique_over_def)
qed

text \<open>More columns in a key make it weaker.\<close>

lemma unique_over_more:
  assumes "unique_over cs w rs" "set cs \<subseteq> set ds"
  shows "unique_over ds w rs"
proof -
  let ?K = "\<lambda>es r. selected w r \<and> list_all (\<lambda>c. r c \<noteq> VNull) es"
  have sub: "filter (?K ds) rs = filter (?K ds) (filter (?K cs) rs)"
    using assms(2) by (auto simp: list_all_iff intro!: filter_cong)
  have "distinct (map (\<lambda>r. map r cs) (filter (?K ds) rs))"
    unfolding sub by (rule distinct_map_filter) (use assms(1) in \<open>simp only: unique_over_def\<close>)
  moreover have "map r ds = map q ds \<Longrightarrow> map r cs = map q cs" for r q :: sql_row
    using assms(2) by auto
  ultimately show ?thesis unfolding unique_over_def distinct_map inj_on_def by blast
qed

lemma allowed_0: "allowed_script (rev_upgrade initial_schema) rs"
  by (simp add: initial_schema_def plain_index_def unique_index_def)

lemma allowed_1: "allowed_script (rev_upgrade add_hold_audit) rs"
  by (simp add: add_hold_audit_def plain_index_def)

lemma allowed_2: "allowed_script (rev_upgrade phase_5_tables) rs \<longleftrightarrow>
    unique_over [''idempotency_key''] None (rs ''bookings'') \<and> list_all (status_in new_statuses) (rs ''bookings'')"
  by (simp add: phase_5_tables_def plain_index_def unique_index_def check_status)

lemma allowed_3: "allowed_script (rev_upgrade add_seat_ids) rs \<longleftrightarrow> rs ''bookings'' = []"
  by (simp add: add_seat_ids_def required_def)

lemma allowed_4: "allowed_script (rev_upgrade scope_keys_to_users) rs \<longleftrightarrow>
    unique_over [''user_id'', ''idempotency_key''] None (rs ''bookings'') \<and>
    not_null [''user_id'', ''key''] (rs ''idempotency_keys'') \<and>
    unique_over [''user_id'', ''key''] None (rs ''idempotency_keys'')"
  by (simp add: scope_keys_to_users_def unique_index_def)

lemma back_allowed_0: "allowed_script (rev_downgrade initial_schema) rs"
  by (simp add: initial_schema_def)

lemma back_allowed_1: "allowed_script (rev_downgrade add_hold_audit) rs"
  by (simp add: add_hold_audit_def)

lemma back_allowed_2: "allowed_script (rev_downgrade phase_5_tables) rs \<longleftrightarrow> list_all (status_in old_statuses) (rs ''bookings'')"
  by (simp add: phase_5_tables_def plain_index_def check_status)

lemma back_allowed_3: "allowed_script (rev_downgrade add_seat_ids) rs"
  by (simp add: add_seat_ids_def)

lemma back_allowed_4: "allowed_script (rev_downgrade scope_keys_to_users) rs \<longleftrightarrow>
    not_null [''key''] (rs ''idempotency_keys'') \<and> unique_over [''key''] None (rs ''idempotency_keys'') \<and>
    unique_over [''idempotency_key''] None (rs ''bookings'')"
  by (auto simp: scope_keys_to_users_def unique_index_def)

section \<open>What a catalog says of the rows\<close>

text \<open>
  The parts of a catalog the conditions below use, by the name of the table: which columns are NOT
  NULL, which uniqueness constraints hold, which checks.
\<close>

definition implies_not_null :: "catalog \<Rightarrow> string \<Rightarrow> string \<Rightarrow> bool" where
  "implies_not_null s t c \<longleftrightarrow> list_ex (\<lambda>u. tb_name u = t \<and>
     list_ex (\<lambda>x. cl_name x = c \<and> \<not> cl_nullable x) (tb_columns u)) (ct_tables s)"

definition implies_unique :: "catalog \<Rightarrow> string \<Rightarrow> string list \<Rightarrow> bool" where
  "implies_unique s t cs \<longleftrightarrow> list_ex (\<lambda>u. tb_name u = t \<and>
     list_ex (\<lambda>k. case k of Primary_key n ds \<Rightarrow> set ds \<subseteq> set cs | _ \<Rightarrow> False) (tb_constraints u)) (ct_tables s) \<or>
   list_ex (\<lambda>i. ix_table i = t \<and> ix_unique i \<and> set (ix_columns i) \<subseteq> set cs \<and>
     (case ix_where i of None \<Rightarrow> True | Some p \<Rightarrow> list_ex (\<lambda>c. p = Col_not_null c) (ix_columns i))) (ct_indexes s)"

definition implies_status :: "catalog \<Rightarrow> string \<Rightarrow> string list \<Rightarrow> bool" where
  "implies_status s t vs \<longleftrightarrow> list_ex (\<lambda>u. tb_name u = t \<and>
     list_ex (\<lambda>k. case k of Check_that n (Col_in c ws) \<Rightarrow> c = ''status'' \<and> set ws \<subseteq> set vs | _ \<Rightarrow> False) (tb_constraints u)) (ct_tables s)"

lemma satisfiesD:
  assumes "satisfies s rs"
  shows "u \<in> set (ct_tables s) \<Longrightarrow> x \<in> set (tb_columns u) \<Longrightarrow> r \<in> set (rs (tb_name u)) \<Longrightarrow> column_ok x r"
    and "u \<in> set (ct_tables s) \<Longrightarrow> k \<in> set (tb_constraints u) \<Longrightarrow> constr_ok rs (rs (tb_name u)) k"
    and "i \<in> set (ct_indexes s) \<Longrightarrow> ix_unique i \<Longrightarrow> unique_over (ix_columns i) (ix_where i) (rs (ix_table i))"
  using assms unfolding satisfies_def list_all_iff by blast+

lemma not_null_from:
  assumes "satisfies s rs" "list_all (implies_not_null s t) cs"
  shows "not_null cs (rs t)"
  unfolding not_null_def list_all_iff
proof (intro ballI)
  fix r c assume r: "r \<in> set (rs t)" "c \<in> set cs"
  then obtain u x where u: "u \<in> set (ct_tables s)" "tb_name u = t" "x \<in> set (tb_columns u)" "cl_name x = c" "\<not> cl_nullable x"
    using assms(2) by (auto simp: list_all_iff list_ex_iff implies_not_null_def)
  then have "column_ok x r" using satisfiesD(1) [OF assms(1)] r(1) by blast
  with u show "r c \<noteq> VNull" by (simp add: column_ok_def)
qed

lemma unique_from:
  assumes "satisfies s rs" "implies_unique s t cs"
  shows "unique_over cs None (rs t)"
  using assms(2) unfolding implies_unique_def
proof
  assume "list_ex (\<lambda>u. tb_name u = t \<and> list_ex (\<lambda>k. case k of Primary_key n ds \<Rightarrow> set ds \<subseteq> set cs | _ \<Rightarrow> False)
    (tb_constraints u)) (ct_tables s)"
  then obtain u k where k: "u \<in> set (ct_tables s)" "tb_name u = t" "k \<in> set (tb_constraints u)"
    "case k of Primary_key n ds \<Rightarrow> set ds \<subseteq> set cs | _ \<Rightarrow> False" unfolding list_ex_iff by blast
  from k(4) obtain n ds where "k = Primary_key n ds" "set ds \<subseteq> set cs" by (cases k) simp_all
  note u = k(1,2) k(3) [unfolded this(1)] this(2)
  from u have "constr_ok rs (rs t) (Primary_key n ds)" using satisfiesD(2) [OF assms(1)] by blast
  then show ?thesis using unique_over_more u(4) by simp
next
  assume "list_ex (\<lambda>i. ix_table i = t \<and> ix_unique i \<and> set (ix_columns i) \<subseteq> set cs \<and>
     (case ix_where i of None \<Rightarrow> True | Some p \<Rightarrow> list_ex (\<lambda>c. p = Col_not_null c) (ix_columns i))) (ct_indexes s)"
  then obtain i where i: "i \<in> set (ct_indexes s)" "ix_table i = t" "ix_unique i" "set (ix_columns i) \<subseteq> set cs"
    "case ix_where i of None \<Rightarrow> True | Some p \<Rightarrow> list_ex (\<lambda>c. p = Col_not_null c) (ix_columns i)"
    unfolding list_ex_iff by blast
  then have "unique_over (ix_columns i) (ix_where i) (rs t)" using satisfiesD(3) [OF assms(1)] by blast
  moreover have "unique_over (ix_columns i) (ix_where i) (rs t) = unique_over (ix_columns i) None (rs t)"
    using i(5) by (cases "ix_where i") (auto simp: list_ex_iff)
  ultimately show ?thesis using unique_over_more i(4) by blast
qed

lemma status_from:
  assumes "satisfies s rs" "implies_status s t vs"
  shows "list_all (status_in vs) (rs t)"
proof -
  obtain u k where k: "u \<in> set (ct_tables s)" "tb_name u = t" "k \<in> set (tb_constraints u)"
    "case k of Check_that n (Col_in c ws) \<Rightarrow> c = ''status'' \<and> set ws \<subseteq> set vs | _ \<Rightarrow> False"
    using assms(2) unfolding implies_status_def list_ex_iff by blast
  from k(4) obtain n p where p: "k = Check_that n p" by (cases k) simp_all
  with k(4) obtain ws where "k = Check_that n (Col_in ''status'' ws)" "set ws \<subseteq> set vs" by (cases p) simp_all
  note u = k(1,2) k(3) [unfolded this(1)] this(2)
  from u have "constr_ok rs (rs t) (Check_that n (Col_in ''status'' ws))" using satisfiesD(2) [OF assms(1)] by blast
  then show ?thesis using u(4) by (auto simp: list_all_iff list_ex_iff check_status status_in_def)
qed

definition known_before :: "nat \<Rightarrow> catalog \<Rightarrow> bool" where
  "known_before k s \<longleftrightarrow>
     (k = 2 \<longrightarrow> implies_status s ''bookings'' new_statuses) \<and>
     (k = 4 \<longrightarrow> implies_unique s ''bookings'' [''user_id'', ''idempotency_key''] \<and>
        list_all (implies_not_null s ''idempotency_keys'') [''user_id'', ''key''] \<and>
        implies_unique s ''idempotency_keys'' [''user_id'', ''key''])"

text \<open>
  One walk along the chain checks all that the proofs need of the catalogs: every upgrade finds the objects it
  names, so does every downgrade after it, which leads back; and the last catalog is the declared one.
\<close>

fun walk :: "nat \<Rightarrow> catalog \<Rightarrow> revision list \<Rightarrow> bool" where
  "walk k s [] = (implies_not_null s ''idempotency_keys'' ''key'' \<and> same_catalog s (metadata_catalog declared_models))"
| "walk k s (r # rs) =
     (known_before k s \<and>
      (case catalog_script (rev_upgrade r) s of
         Inl _ \<Rightarrow> False
       | Inr s' \<Rightarrow>
           (case catalog_script (rev_downgrade r) s' of Inl _ \<Rightarrow> False | Inr t \<Rightarrow> same_catalog t s) \<and> walk (k + 1) s' rs))"

lemma walk_chain: "walk 0 empty_catalog chain"
  by code_simp

lemma walk_at: "k \<le> 5 \<Longrightarrow> \<exists>s. catalog_at k = Inr s \<and> walk k s (drop k chain)"
proof (induction k)
  case 0
  then show ?case using walk_chain by (simp add: catalog_at_def)
next
  case (Suc k)
  then obtain s where s: "catalog_at k = Inr s" "walk k s (drop k chain)" by auto
  have "drop k chain = chain ! k # drop (Suc k) chain"
    using Suc.prems by (intro Cons_nth_drop_Suc [symmetric]) (simp add: chain_unfold)
  with s(2) show ?case using catalog_at_Suc [OF _ s(1)] Suc.prems by (auto split: sum.splits)
qed

lemma scripts_fit_cases:
  assumes "k < 5" "catalog_at k = Inr s" "catalog_at (k + 1) = Inr s'"
  shows "catalog_script (rev_upgrade (chain ! k)) s = Inr s' \<and> known_before k s \<and>
    (\<exists>t. catalog_script (rev_downgrade (chain ! k)) s' = Inr t \<and> same_catalog t s)"
proof -
  have "walk k s (drop k chain)" using walk_at [of k] assms(1,2) by auto
  moreover have "drop k chain = chain ! k # drop (Suc k) chain"
    using assms(1) by (intro Cons_nth_drop_Suc [symmetric]) (simp add: chain_unfold)
  ultimately show ?thesis using catalog_at_Suc [OF assms(1,2)] assms(3) by (auto split: sum.splits)
qed

lemma head_catalog:
  "\<exists>s. catalog_at 5 = Inr s \<and> implies_not_null s ''idempotency_keys'' ''key'' \<and>
     same_catalog s (metadata_catalog declared_models)"
  using walk_at [of 5] by (simp add: chain_unfold)

section \<open>Properties\<close>

text \<open>
  C22: The migrations build the schema the code declares. Upgrading an empty database to the head of
  the chain succeeds, and the catalog it leads to has exactly the tables, columns, types, defaults,
  constraints and indexes of \<open>app/infra/tables.py\<close>, each under the name the naming convention gives it.
\<close>

theorem migrations_build_declared_schema:
  "\<exists>s. upgrade_to_head (empty_catalog, \<lambda>_. []) = Inr (s, \<lambda>_. []) \<and> same_catalog s (metadata_catalog declared_models)"
proof -
  obtain s where "catalog_script (concat (map rev_upgrade chain)) empty_catalog = Inr s"
    "same_catalog s (metadata_catalog declared_models)"
    using head_catalog by (auto simp: catalog_at_def chain_unfold)
  moreover from this(1) have "upgrade_to_head (empty_catalog, \<lambda>_. []) = Inr (s, \<lambda>_. [])"
    unfolding upgrade_to_head_def run_script_iff using empty_script [OF chain_adds_no_default] by (intro conjI) simp_all
  ultimately show ?thesis by (intro exI conjI)
qed

text \<open>
  C24: Which rows let a migration through. On a database at any revision of the chain whose rows
  satisfy its constraints, the next upgrade succeeds except in two cases: the one that makes
  idempotency keys of bookings unique fails if two bookings share one, and the one that adds
  \<open>seat_ids\<close> fails if there is any booking. The downgrade leads back to the schema before, and succeeds
  except in two cases: a booking that waits for a refund, and a key that two users have used.
\<close>

theorem migrations_succeed_iff:
  assumes "k < 5" "catalog_at k = Inr s" "satisfies s rs" "catalog_at (k + 1) = Inr s'" "satisfies s' rs'"
  shows "((\<exists>db. run_script (rev_upgrade (chain ! k)) (s, rs) = Inr db) \<longleftrightarrow>
      (k = 2 \<longrightarrow> unique_over [''idempotency_key''] None (rs ''bookings'')) \<and> (k = 3 \<longrightarrow> rs ''bookings'' = [])) \<and>
    ((\<exists>db. run_script (rev_downgrade (chain ! k)) (s', rs') = Inr db) \<longleftrightarrow>
      (k = 2 \<longrightarrow> list_all (status_in old_statuses) (rs' ''bookings'')) \<and>
      (k = 4 \<longrightarrow> unique_over [''key''] None (rs' ''idempotency_keys'') \<and> unique_over [''idempotency_key''] None (rs' ''bookings''))) \<and>
    (\<forall>t rs''. run_script (rev_downgrade (chain ! k)) (s', rs') = Inr (t, rs'') \<longrightarrow> same_catalog t s)"
proof (intro conjI allI impI)
  obtain u where u: "catalog_script (rev_upgrade (chain ! k)) s = Inr s'"
    "catalog_script (rev_downgrade (chain ! k)) s' = Inr u" "same_catalog u s" and before: "known_before k s"
    using scripts_fit_cases [OF assms(1,2,4)] by blast
  have k: "k \<in> {0, 1, 2, 3, 4}" using assms(1) by auto
  have "allowed_script (rev_upgrade (chain ! k)) rs \<longleftrightarrow>
      (k = 2 \<longrightarrow> unique_over [''idempotency_key''] None (rs ''bookings'')) \<and> (k = 3 \<longrightarrow> rs ''bookings'' = [])"
    using k before status_from [OF assms(3)] unique_from [OF assms(3)] not_null_from [OF assms(3)]
    by (auto simp: chain_unfold known_before_def allowed_0 allowed_1 allowed_2 allowed_3 allowed_4)
  then show "(\<exists>db. run_script (rev_upgrade (chain ! k)) (s, rs) = Inr db) \<longleftrightarrow>
      (k = 2 \<longrightarrow> unique_over [''idempotency_key''] None (rs ''bookings'')) \<and> (k = 3 \<longrightarrow> rs ''bookings'' = [])"
    using u(1) by (simp add: split_paired_Ex run_script_iff)
  have "not_null [''key''] (rs' ''idempotency_keys'')" if "k = 4"
    using that assms(4) head_catalog not_null_from [OF assms(5)] by simp
  then have "allowed_script (rev_downgrade (chain ! k)) rs' \<longleftrightarrow>
      (k = 2 \<longrightarrow> list_all (status_in old_statuses) (rs' ''bookings'')) \<and>
      (k = 4 \<longrightarrow> unique_over [''key''] None (rs' ''idempotency_keys'') \<and> unique_over [''idempotency_key''] None (rs' ''bookings''))"
    using k by (auto simp: chain_unfold back_allowed_0 back_allowed_1 back_allowed_2 back_allowed_3 back_allowed_4)
  then show "(\<exists>db. run_script (rev_downgrade (chain ! k)) (s', rs') = Inr db) \<longleftrightarrow>
      (k = 2 \<longrightarrow> list_all (status_in old_statuses) (rs' ''bookings'')) \<and>
      (k = 4 \<longrightarrow> unique_over [''key''] None (rs' ''idempotency_keys'') \<and> unique_over [''idempotency_key''] None (rs' ''bookings''))"
    using u(2) by (simp add: split_paired_Ex run_script_iff)
  show "same_catalog t s" if "run_script (rev_downgrade (chain ! k)) (s', rs') = Inr (t, rs'')" for t rs''
    using that u(2,3) by (simp add: run_script_iff)
qed

text \<open>The database with one booking and one key at the revision before \<open>seat_ids\<close> was added.\<close>

definition one_booking :: contents where
  "one_booking = (\<lambda>_. [])
     (''events'' := [(\<lambda>_. VNull)(''id'' := VInt 1, ''name'' := VText ''E'', ''venue'' := VText ''V'', ''starts_at'' := VTime 9,
        ''total_seats'' := VInt 1, ''created_at'' := VTime 0)],
      ''bookings'' := [(\<lambda>_. VNull)(''id'' := VInt 1, ''event_id'' := VInt 1, ''user_id'' := VInt 7, ''session_id'' := VText ''A'',
        ''status'' := VText ''PENDING'', ''total_amount'' := VInt 100, ''currency'' := VText ''usd'', ''seat_ids'' := VInts [1],
        ''idempotency_key'' := VText ''k'', ''created_at'' := VTime 1)])"

lemma one_booking_satisfies:
  "(case catalog_at 3 of Inl _ \<Rightarrow> False | Inr s \<Rightarrow> satisfies s one_booking) \<and>
   (case catalog_at 4 of Inl _ \<Rightarrow> False | Inr s \<Rightarrow> satisfies s one_booking)"
  by code_simp

theorem migrations_succeed_iff_witness:
  "\<exists>s s'. catalog_at 3 = Inr s \<and> \<not> (\<exists>db. run_script (rev_upgrade add_seat_ids) (s, one_booking) = Inr db) \<and>
     catalog_at 4 = Inr s' \<and> (\<exists>db. run_script (rev_downgrade add_seat_ids) (s', one_booking) = Inr db)"
proof -
  obtain s s' where s: "catalog_at 3 = Inr s" "satisfies s one_booking" "catalog_at (3 + 1) = Inr s'" "satisfies s' one_booking"
    using one_booking_satisfies by (auto split: sum.splits)
  have c: "chain ! 3 = add_seat_ids" by (simp add: chain_unfold)
  have "one_booking ''bookings'' \<noteq> []" by (simp add: one_booking_def)
  with migrations_succeed_iff [OF _ s] s show ?thesis unfolding c by simp
qed

end
