(* ===== verification/Enforced.thy ===== *)
theory Enforced
  imports Migration_Properties Ledger
begin

text \<open>
  The rows of the model as PostgreSQL holds them, and what the declared schema says of them: the keys
  that \<open>schema_ok\<close> asks for, which the other theories take as given, are the constraints of the DDL.
\<close>

section \<open>Encoding\<close>

fun seat_status_text :: "seat_status \<Rightarrow> string" where
  "seat_status_text AVAILABLE = ''AVAILABLE''"
| "seat_status_text HELD = ''HELD''"
| "seat_status_text BOOKED = ''BOOKED''"

fun booking_status_text :: "booking_status \<Rightarrow> string" where
  "booking_status_text PENDING = ''PENDING''"
| "booking_status_text CONFIRMED = ''CONFIRMED''"
| "booking_status_text CANCELLED = ''CANCELLED''"
| "booking_status_text REFUNDED = ''REFUNDED''"
| "booking_status_text REFUND_REQUIRED = ''REFUND_REQUIRED''"

fun idem_status_text :: "idem_status \<Rightarrow> string" where
  "idem_status_text IN_PROGRESS = ''IN_PROGRESS''"
| "idem_status_text COMPLETED = ''COMPLETED''"
| "idem_status_text FAILED = ''FAILED''"

fun processing_status_text :: "processing_status \<Rightarrow> string" where
  "processing_status_text APPLIED = ''APPLIED''"
| "processing_status_text REJECTED = ''REJECTED''"
| "processing_status_text UNRESOLVED = ''UNRESOLVED''"
| "processing_status_text ERROR = ''ERROR''"

definition nullable :: "('a \<Rightarrow> sql_value) \<Rightarrow> 'a option \<Rightarrow> sql_value" where
  "nullable f x = (case x of None \<Rightarrow> VNull | Some y \<Rightarrow> f y)"

lemma nullable_simps [simp]: "nullable f None = VNull" "nullable f (Some y) = f y"
  by (simp_all add: nullable_def)

abbreviation all_null :: sql_row where
  "all_null \<equiv> \<lambda>_. VNull"

definition event_values :: "event_row \<Rightarrow> sql_row" where
  "event_values r = all_null(''id'' := VInt (ev_id r), ''name'' := VText (ev_name r), ''venue'' := VText (ev_venue r),
     ''starts_at'' := VTime (ev_starts_at r), ''total_seats'' := VInt (ev_total_seats r), ''created_at'' := VTime (ev_created_at r))"

definition seat_values :: "seat_row \<Rightarrow> sql_row" where
  "seat_values r = all_null(''id'' := VInt (sr_id r), ''event_id'' := VInt (sr_event_id r), ''section'' := VText (sr_section r),
     ''row_label'' := VText (sr_row_label r), ''seat_number'' := VInt (sr_seat_number r),
     ''status'' := VText (seat_status_text (sr_status r)), ''version'' := VInt (sr_version r),
     ''held_by_session_id'' := nullable VText (sr_held_by r), ''hold_expires_at'' := nullable VTime (sr_expires r),
     ''booking_id'' := nullable VInt (sr_booking_id r), ''updated_at'' := VTime (sr_updated_at r))"

definition booking_values :: "booking_row \<Rightarrow> sql_row" where
  "booking_values b = all_null(''id'' := VInt (br_id b), ''event_id'' := VInt (br_event_id b), ''user_id'' := VInt (br_user_id b),
     ''session_id'' := VText (br_session_id b), ''status'' := VText (booking_status_text (br_status b)),
     ''total_amount'' := VInt (br_total_amount b), ''currency'' := VText (br_currency b), ''seat_ids'' := VInts (br_seat_ids b),
     ''idempotency_key'' := nullable VText (br_idempotency_key b), ''created_at'' := VTime (br_created_at b),
     ''confirmed_at'' := nullable VTime (br_confirmed_at b))"

definition booking_seat_values :: "booking_seat_row \<Rightarrow> sql_row" where
  "booking_seat_values l = all_null(''booking_id'' := VInt (bs_booking_id l), ''seat_id'' := VInt (bs_seat_id l),
     ''released_at'' := nullable VTime (bs_released_at l))"

definition idem_values :: "idem_row \<Rightarrow> sql_row" where
  "idem_values k = all_null(''user_id'' := VInt (ik_user_id k), ''key'' := VText (ik_key k),
     ''request_fingerprint'' := VText (ik_fingerprint k), ''status'' := VText (idem_status_text (ik_status k)),
     ''response_status'' := nullable VInt (ik_response_status k), ''response_body'' := nullable VBody (ik_response_body k),
     ''created_at'' := VTime (ik_created_at k), ''expires_at'' := VTime (ik_expires_at k))"

definition payment_event_values :: "payment_event_row \<Rightarrow> sql_row" where
  "payment_event_values e = all_null(''provider_event_id'' := VText (pe_id e), ''booking_id'' := nullable VInt (pe_booking_id e),
     ''event_type'' := VText (pe_type e), ''payload'' := VJson (pe_payload e), ''received_at'' := VTime (pe_received_at e),
     ''processed_at'' := nullable VTime (pe_processed_at e),
     ''processing_status'' := nullable (VText \<circ> processing_status_text) (pe_status e))"

text \<open>The identity columns of the two append-only tables number their rows.\<close>

definition hold_audit_values :: "nat \<times> hold_audit_row \<Rightarrow> sql_row" where
  "hold_audit_values x = (case x of (n, a) \<Rightarrow> all_null(''id'' := VInt (int n), ''seat_id'' := VInt (ha_seat_id a),
     ''session_id'' := VText (ha_session_id a), ''acquired_at'' := VTime (ha_acquired_at a)))"

fun outbox_document :: "outbox_payload \<Rightarrow> int \<times> string \<times> json" where
  "outbox_document (BookingConfirmed i ids) =
     (i, ''booking.confirmed'', JObj [(''booking_id'', JInt i), (''seat_ids'', JArr (map JInt ids))])"
| "outbox_document (BookingRefundRequired i) = (i, ''booking.refund_required'', JObj [(''booking_id'', JInt i),
     (''reason'', JStr ''late_payment_success_after_resale'')])"
| "outbox_document (BookingRefunded i ids) =
     (i, ''booking.refunded'', JObj [(''booking_id'', JInt i), (''seat_ids'', JArr (map JInt ids))])"

definition outbox_values :: "nat \<times> outbox_row \<Rightarrow> sql_row" where
  "outbox_values x = (case x of (n, o1) \<Rightarrow> case outbox_document (ob_payload o1) of (i, typ, doc) \<Rightarrow>
     all_null(''id'' := VInt (int n), ''aggregate_id'' := VText (''booking:'' @ int_dec i), ''event_type'' := VText typ,
       ''payload'' := VJson doc, ''created_at'' := VTime (ob_created_at o1), ''published_at'' := nullable VTime (ob_published_at o1)))"

definition encode :: "db \<Rightarrow> contents" where
  "encode d = (\<lambda>_. [])(''events'' := map event_values (db_events d), ''seats'' := map seat_values (db_seats d),
     ''bookings'' := map booking_values (db_bookings d), ''booking_seats'' := map booking_seat_values (db_booking_seats d),
     ''hold_audit'' := map hold_audit_values (enumerate 1 (db_hold_audit d)),
     ''idempotency_keys'' := map idem_values (db_idempotency_keys d),
     ''payment_events'' := map payment_event_values (db_payment_events d),
     ''outbox'' := map outbox_values (enumerate 1 (db_outbox d)))"

text \<open>The foreign keys, on the model's rows.\<close>

definition event_exists :: "db \<Rightarrow> int \<Rightarrow> bool" where
  "event_exists d i \<longleftrightarrow> i \<in> set (map ev_id (db_events d))"

definition seat_exists :: "db \<Rightarrow> int \<Rightarrow> bool" where
  "seat_exists d i \<longleftrightarrow> i \<in> set (map sr_id (db_seats d))"

definition booking_exists :: "db \<Rightarrow> int option \<Rightarrow> bool" where
  "booking_exists d x \<longleftrightarrow> (case x of None \<Rightarrow> True | Some i \<Rightarrow> i \<in> set (map br_id (db_bookings d)))"

definition references_ok :: "db \<Rightarrow> bool" where
  "references_ok d \<longleftrightarrow>
     list_all (\<lambda>r. booking_exists d (sr_booking_id r) \<and> event_exists d (sr_event_id r)) (db_seats d) \<and>
     list_all (\<lambda>b. event_exists d (br_event_id b)) (db_bookings d) \<and>
     list_all (\<lambda>l. booking_exists d (Some (bs_booking_id l)) \<and> seat_exists d (bs_seat_id l)) (db_booking_seats d) \<and>
     list_all (\<lambda>a. seat_exists d (ha_seat_id a)) (db_hold_audit d) \<and>
     list_all (\<lambda>e. booking_exists d (pe_booking_id e)) (db_payment_events d)"

section \<open>What the declarations ask for\<close>

definition model_ok :: "contents \<Rightarrow> model \<Rightarrow> bool" where
  "model_ok rs md \<longleftrightarrow>
     list_all (\<lambda>c. list_all (column_ok (mc_def c)) (rs (md_table md))) (md_columns md) \<and>
     list_all (constr_ok rs (rs (md_table md))) (model_constraints md) \<and>
     list_all (\<lambda>i. ix_unique i \<longrightarrow> unique_over (ix_columns i) (ix_where i) (rs (ix_table i))) (model_indexes md)"

lemma satisfies_models: "satisfies (metadata_catalog mds) rs \<longleftrightarrow> list_all (model_ok rs) mds"
  by (auto simp: satisfies_def metadata_catalog_def model_ok_def list_all_iff)

lemma distinct_map_same:
  "(\<And>x y. f x = f y \<longleftrightarrow> g x = g y) \<Longrightarrow> distinct (map f xs) = distinct (map g xs)"
  by (simp add: distinct_map inj_on_def)

lemma unique_over_map:
  "unique_over cs w (map f xs) =
     distinct (map (\<lambda>x. map (f x) cs) (filter (\<lambda>x. selected w (f x) \<and> list_all (\<lambda>c. f x c \<noteq> VNull) cs) xs))"
  by (simp add: unique_over_def filter_map comp_def)

lemma event_values_sel [simp]:
  "event_values r ''id'' = VInt (ev_id r)"
  "event_values r ''name'' = VText (ev_name r)"
  "event_values r ''venue'' = VText (ev_venue r)"
  "event_values r ''starts_at'' = VTime (ev_starts_at r)"
  "event_values r ''total_seats'' = VInt (ev_total_seats r)"
  "event_values r ''created_at'' = VTime (ev_created_at r)"
  by (simp_all add: event_values_def)

lemma seat_values_sel [simp]:
  "seat_values r ''id'' = VInt (sr_id r)"
  "seat_values r ''event_id'' = VInt (sr_event_id r)"
  "seat_values r ''section'' = VText (sr_section r)"
  "seat_values r ''row_label'' = VText (sr_row_label r)"
  "seat_values r ''seat_number'' = VInt (sr_seat_number r)"
  "seat_values r ''status'' = VText (seat_status_text (sr_status r))"
  "seat_values r ''version'' = VInt (sr_version r)"
  "seat_values r ''held_by_session_id'' = nullable VText (sr_held_by r)"
  "seat_values r ''hold_expires_at'' = nullable VTime (sr_expires r)"
  "seat_values r ''booking_id'' = nullable VInt (sr_booking_id r)"
  "seat_values r ''updated_at'' = VTime (sr_updated_at r)"
  by (simp_all add: seat_values_def)

lemma booking_values_sel [simp]:
  "booking_values b ''id'' = VInt (br_id b)"
  "booking_values b ''event_id'' = VInt (br_event_id b)"
  "booking_values b ''user_id'' = VInt (br_user_id b)"
  "booking_values b ''session_id'' = VText (br_session_id b)"
  "booking_values b ''status'' = VText (booking_status_text (br_status b))"
  "booking_values b ''total_amount'' = VInt (br_total_amount b)"
  "booking_values b ''currency'' = VText (br_currency b)"
  "booking_values b ''seat_ids'' = VInts (br_seat_ids b)"
  "booking_values b ''idempotency_key'' = nullable VText (br_idempotency_key b)"
  "booking_values b ''created_at'' = VTime (br_created_at b)"
  "booking_values b ''confirmed_at'' = nullable VTime (br_confirmed_at b)"
  by (simp_all add: booking_values_def)

lemma booking_seat_values_sel [simp]:
  "booking_seat_values l ''booking_id'' = VInt (bs_booking_id l)"
  "booking_seat_values l ''seat_id'' = VInt (bs_seat_id l)"
  "booking_seat_values l ''released_at'' = nullable VTime (bs_released_at l)"
  by (simp_all add: booking_seat_values_def)

lemma idem_values_sel [simp]:
  "idem_values k ''user_id'' = VInt (ik_user_id k)"
  "idem_values k ''key'' = VText (ik_key k)"
  "idem_values k ''request_fingerprint'' = VText (ik_fingerprint k)"
  "idem_values k ''status'' = VText (idem_status_text (ik_status k))"
  "idem_values k ''response_status'' = nullable VInt (ik_response_status k)"
  "idem_values k ''response_body'' = nullable VBody (ik_response_body k)"
  "idem_values k ''created_at'' = VTime (ik_created_at k)"
  "idem_values k ''expires_at'' = VTime (ik_expires_at k)"
  by (simp_all add: idem_values_def)

lemma payment_event_values_sel [simp]:
  "payment_event_values e ''provider_event_id'' = VText (pe_id e)"
  "payment_event_values e ''booking_id'' = nullable VInt (pe_booking_id e)"
  "payment_event_values e ''event_type'' = VText (pe_type e)"
  "payment_event_values e ''payload'' = VJson (pe_payload e)"
  "payment_event_values e ''received_at'' = VTime (pe_received_at e)"
  "payment_event_values e ''processed_at'' = nullable VTime (pe_processed_at e)"
  "payment_event_values e ''processing_status'' = nullable (VText \<circ> processing_status_text) (pe_status e)"
  by (simp_all add: payment_event_values_def)

lemma hold_audit_values_sel [simp]:
  "hold_audit_values x ''id'' = VInt (int (fst x))" "hold_audit_values x ''seat_id'' = VInt (ha_seat_id (snd x))"
  "hold_audit_values x ''session_id'' = VText (ha_session_id (snd x))"
  "hold_audit_values x ''acquired_at'' = VTime (ha_acquired_at (snd x))"
  by (simp_all add: hold_audit_values_def split: prod.split)

lemma outbox_values_sel [simp]:
  "outbox_values x ''id'' = VInt (int (fst x))" "outbox_values x ''aggregate_id'' \<noteq> VNull" "outbox_values x ''event_type'' \<noteq> VNull"
  "outbox_values x ''payload'' \<noteq> VNull" "outbox_values x ''created_at'' = VTime (ob_created_at (snd x))"
  by (simp_all add: outbox_values_def split: prod.split)

lemma encode_sel [simp]:
  "encode d ''events'' = map event_values (db_events d)" "encode d ''seats'' = map seat_values (db_seats d)"
  "encode d ''bookings'' = map booking_values (db_bookings d)"
  "encode d ''booking_seats'' = map booking_seat_values (db_booking_seats d)"
  "encode d ''hold_audit'' = map hold_audit_values (enumerate 1 (db_hold_audit d))"
  "encode d ''idempotency_keys'' = map idem_values (db_idempotency_keys d)"
  "encode d ''payment_events'' = map payment_event_values (db_payment_events d)"
  "encode d ''outbox'' = map outbox_values (enumerate 1 (db_outbox d))"
  by (simp_all add: encode_def)

lemma nullable_Null [simp]:
  "nullable VInt x = VNull \<longleftrightarrow> x = None" "nullable VText y = VNull \<longleftrightarrow> y = None" "nullable VTime t = VNull \<longleftrightarrow> t = None"
  by (simp_all add: nullable_def split: option.split)

lemma nullable_inject [simp]: "nullable VText x = nullable VText y \<longleftrightarrow> x = y"
  by (cases x; cases y) simp_all

text \<open>A foreign key holds of a value if that is NULL or the id of a row.\<close>

lemma foreign_key [simp]: "VInt i \<in> (\<lambda>x. VInt (f x)) ` S \<longleftrightarrow> i \<in> f ` S"
  by auto

lemma foreign_nullable [simp]:
  "x = None \<or> nullable VInt x \<in> (\<lambda>x. VInt (f x)) ` S \<longleftrightarrow> (case x of None \<Rightarrow> True | Some i \<Rightarrow> i \<in> f ` S)"
  by (cases x) simp_all

lemma list_all_True [simp]: "list_all (\<lambda>x. True) xs"
  by (simp add: list_all_iff)

lemma active_rows: "filter (\<lambda>l. bs_released_at l = None) ls = filter bs_active ls"
  by (rule filter_cong) (simp_all add: bs_active_def)

lemma list_all_conj: "list_all (\<lambda>x. P x \<and> Q x) xs \<longleftrightarrow> list_all P xs \<and> list_all Q xs"
  by (auto simp: list_all_iff)

lemma list_all_enumerate: "list_all (\<lambda>x. P (snd x)) (enumerate n xs) \<longleftrightarrow> list_all P xs"
  using list.pred_map [of P snd "enumerate n xs"] by (simp add: comp_def)

lemma booking_exists_iff: "booking_exists d x \<longleftrightarrow> (case x of None \<Rightarrow> True | Some i \<Rightarrow> i \<in> br_id ` set (db_bookings d))"
  by (cases x) (simp_all add: booking_exists_def)

section \<open>Table by table\<close>

lemma distinct_VInt [simp]: "distinct (map (\<lambda>x. [VInt (f x)]) xs) = distinct (map f xs)"
  by (rule distinct_map_same) simp

lemma distinct_VText [simp]: "distinct (map (\<lambda>x. [VText (f x)]) xs) = distinct (map f xs)"
  by (rule distinct_map_same) simp

lemma distinct_place [simp]:
  "distinct (map (\<lambda>x. [VInt (sr_event_id x), VText (sr_section x), VText (sr_row_label x), VInt (sr_seat_number x)]) rs) =
   distinct (map seat_place rs)"
  by (rule distinct_map_same) (simp add: seat_place_def)

lemma distinct_bs_pk [simp]:
  "distinct (map (\<lambda>x. [VInt (bs_booking_id x), VInt (bs_seat_id x)]) ls) = distinct (map bs_pk ls)"
  by (rule distinct_map_same) (simp add: bs_pk_def)

lemma distinct_ik_pk [simp]:
  "distinct (map (\<lambda>x. [VInt (ik_user_id x), VText (ik_key x)]) ks) = distinct (map ik_pk ks)"
  by (rule distinct_map_same) (simp add: ik_pk_def)

lemma distinct_booking_key [simp]:
  "distinct (map (\<lambda>b. [VInt (br_user_id b), nullable VText (br_idempotency_key b)]) bs) =
   distinct (map (\<lambda>b. (br_user_id b, br_idempotency_key b)) bs)"
  by (rule distinct_map_same) simp

lemma distinct_numbers [simp]: "distinct (map (int \<circ> fst) (enumerate n xs))" "distinct (map (\<lambda>x. int (fst x)) (enumerate n xs))"
proof -
  have "map (int \<circ> fst) (enumerate n xs) = map int [n..<n + length xs]"
    by (simp flip: map_map add: enumerate_eq_zip)
  then show "distinct (map (int \<circ> fst) (enumerate n xs))" by (simp add: distinct_map)
  then show "distinct (map (\<lambda>x. int (fst x)) (enumerate n xs))" by (simp add: comp_def)
qed

lemmas model_unfold = model_ok_def model_constraints_def model_indexes_def plain_def primary_def references_def
  required_def optional_def defaulted_def column_ok_def unique_over_map selected_def list.pred_map comp_def

lemma seat_status_checked [simp]:
  "check_passes (Col_in ''status'' [''AVAILABLE'', ''HELD'', ''BOOKED'']) (seat_values r)"
  by (cases "sr_status r") (simp_all add: check_passes_def)

lemma booking_status_checked [simp]:
  "check_passes (Col_in ''status'' [''PENDING'', ''CONFIRMED'', ''CANCELLED'', ''REFUNDED'', ''REFUND_REQUIRED'']) (booking_values b)"
  by (cases "br_status b") (simp_all add: check_passes_def)

lemma idem_status_checked [simp]:
  "check_passes (Col_in ''status'' [''IN_PROGRESS'', ''COMPLETED'', ''FAILED'']) (idem_values k)"
  by (cases "ik_status k") (simp_all add: check_passes_def)

lemma event_model_ok: "model_ok (encode d) event_model \<longleftrightarrow> event_keys_ok (db_events d)"
  by (simp add: event_model_def model_unfold event_keys_ok_def)

lemma seat_model_ok: "model_ok (encode d) seat_model \<longleftrightarrow>
    seat_keys_ok (db_seats d) \<and> list_all (\<lambda>r. booking_exists d (sr_booking_id r) \<and> event_exists d (sr_event_id r)) (db_seats d)"
  by (auto simp: seat_model_def model_unfold seat_keys_ok_def booking_exists_iff event_exists_def list_all_conj)

lemma booking_model_ok:
  assumes "list_all (\<lambda>b. br_id b < db_next_booking d) (db_bookings d)"
  shows "model_ok (encode d) booking_model \<longleftrightarrow>
    booking_keys_ok (db_bookings d) (db_next_booking d) \<and> list_all (\<lambda>b. event_exists d (br_event_id b)) (db_bookings d)"
  using assms by (auto simp: booking_model_def model_unfold booking_keys_ok_def booking_key_unique_def event_exists_def)

lemma booking_seat_model_ok: "model_ok (encode d) booking_seat_model \<longleftrightarrow> booking_seat_keys_ok (db_booking_seats d) \<and>
    list_all (\<lambda>l. booking_exists d (Some (bs_booking_id l)) \<and> seat_exists d (bs_seat_id l)) (db_booking_seats d)"
  by (auto simp: booking_seat_model_def model_unfold booking_seat_keys_ok_def booking_exists_iff seat_exists_def
      list_all_conj active_rows)

lemma hold_audit_model_ok: "model_ok (encode d) hold_audit_model \<longleftrightarrow> list_all (\<lambda>a. seat_exists d (ha_seat_id a)) (db_hold_audit d)"
  by (simp add: hold_audit_model_def model_unfold seat_exists_def list_all_enumerate [where P = "\<lambda>a. ha_seat_id a \<in> sr_id ` set (db_seats d)"])

lemma idempotency_key_model_ok: "model_ok (encode d) idempotency_key_model \<longleftrightarrow> idem_keys_ok (db_idempotency_keys d)"
  by (simp add: idempotency_key_model_def model_unfold idem_keys_ok_def)

lemma payment_event_model_ok: "model_ok (encode d) payment_event_model \<longleftrightarrow>
    payment_event_keys_ok (db_payment_events d) \<and> list_all (\<lambda>e. booking_exists d (pe_booking_id e)) (db_payment_events d)"
  by (auto simp: payment_event_model_def model_unfold payment_event_keys_ok_def booking_exists_iff)

lemma outbox_model_ok: "model_ok (encode d) outbox_model"
  by (simp add: outbox_model_def model_unfold)

section \<open>Properties\<close>

text \<open>
  C23: The schema the development assumes is the one the database enforces. A database satisfies every
  NOT NULL, key, unique index, check and foreign key that \<open>app/infra/tables.py\<close> declares exactly if
  it is \<open>schema_ok\<close> and its references exist; the one part of \<open>schema_ok\<close> the DDL does not say is that
  the identity column of \<open>bookings\<close> is ahead of the ids given out.
\<close>

theorem declared_schema_is_schema_ok:
  assumes "list_all (\<lambda>b. br_id b < db_next_booking d) (db_bookings d)"
  shows "satisfies (metadata_catalog declared_models) (encode d) \<longleftrightarrow> schema_ok d \<and> references_ok d"
  by (auto simp: satisfies_models declared_models_def event_model_ok seat_model_ok booking_model_ok [OF assms]
      booking_seat_model_ok hold_audit_model_ok idempotency_key_model_ok payment_event_model_ok outbox_model_ok
      schema_ok_def references_ok_def)

theorem declared_schema_is_schema_ok_witness:
  "satisfies (metadata_catalog declared_models) (encode sample_db) \<and>
   \<not> satisfies (metadata_catalog declared_models)
       (encode (sample_db\<lparr>db_booking_seats := db_booking_seats sample_db @ [\<lparr>bs_booking_id = 2, bs_seat_id = 4, bs_released_at = None\<rparr>]\<rparr>))"
    (is "_ \<and> \<not> satisfies _ (encode ?d)")
proof -
  have ids: "list_all (\<lambda>b. br_id b < db_next_booking sample_db) (db_bookings sample_db)"
    "list_all (\<lambda>b. br_id b < db_next_booking ?d) (db_bookings ?d)"
    by (simp_all add: sample_defs)
  have "references_ok sample_db"
    by (simp add: references_ok_def booking_exists_def event_exists_def seat_exists_def sample_defs)
  moreover have "\<not> schema_ok ?d"
    by (simp add: schema_ok_iff one_active_booking_per_seat_def bs_active_def sample_defs)
  ultimately show ?thesis
    using declared_schema_is_schema_ok [OF ids(1)] declared_schema_is_schema_ok [OF ids(2)] by simp
qed

end
