(* ===== verification/Recirculation.thy ===== *)
theory Recirculation
  imports Strategy_Properties Sweeper_Properties Admin "HOL-Library.Multiset"
begin

text \<open>
  The oversell check of the recirculating sweep (\<^verbatim>\<open>loadtest/recirculating_sweep.py\<close>): holds of a seat that
  overlap in time, read off the audit log, and why it subtracts the latency of a request.

  The instant a hold is recorded under is taken at the top of the request, before the strategy reaches the
  database; the sweeper takes its own. So the recorded instants of a seat can be closer than the duration
  of a hold although no two holds of it ever overlapped.
\<close>

section \<open>The check\<close>

definition acquired_times :: "int \<Rightarrow> db \<Rightarrow> instant list" where
  "acquired_times seat d = map ha_acquired_at (filter (\<lambda>a. ha_seat_id a = seat) (db_hold_audit d))"

text \<open>\<open>ORDER BY seat_id, acquired_at\<close> over the audit rows of the event's seats.\<close>

definition ordered_audit :: "int \<Rightarrow> db \<Rightarrow> (int \<times> instant) list" where
  "ordered_audit evt d =
     sort_key fst (sort_key snd (map (\<lambda>a. (ha_seat_id a, ha_acquired_at a))
       (filter (\<lambda>a. list_ex (\<lambda>r. sr_id r = ha_seat_id a) (event_seats evt d)) (db_hold_audit d))))"

definition times_by_seat :: "(int \<times> instant) list \<Rightarrow> instant list list" where
  "times_by_seat rows = map (\<lambda>s. map snd (filter (\<lambda>p. fst p = s) rows)) (remdups (map fst rows))"

fun overlaps :: "timedelta \<Rightarrow> instant list \<Rightarrow> nat" where
  "overlaps delta (prev # cur # rest) = (if cur < prev + delta then 1 else 0) + overlaps delta (cur # rest)"
| "overlaps delta _ = 0"

definition hold_delta :: "timedelta \<Rightarrow> timedelta \<Rightarrow> timedelta" where
  "hold_delta hold_duration tolerance = max 0 (hold_duration - tolerance)"

definition check_recirculating_oversell :: "int \<Rightarrow> timedelta \<Rightarrow> timedelta \<Rightarrow> db \<Rightarrow> nat \<times> nat" where
  "check_recirculating_oversell evt hold_duration tolerance d =
     (let counts = map (overlaps (hold_delta hold_duration tolerance)) (times_by_seat (ordered_audit evt d))
      in (length (filter (\<lambda>n. 0 < n) counts), sum_list counts))"

section \<open>What it finds\<close>

text \<open>Any two entries of the list, adjacent or not, in any order.\<close>

definition apart :: "timedelta \<Rightarrow> instant list \<Rightarrow> bool" where
  "apart delta ts \<longleftrightarrow> sorted_wrt (\<lambda>a b. delta \<le> \<bar>b - a\<bar>) ts"

lemma apart_insort: "apart delta (insort t ts) \<longleftrightarrow> (\<forall>x \<in> set ts. delta \<le> \<bar>x - t\<bar>) \<and> apart delta ts"
  by (induction ts) (auto simp: apart_def set_insort_key abs_minus_commute)

lemma apart_sort: "apart delta (sort ts) \<longleftrightarrow> apart delta ts"
proof (induction ts)
  case (Cons t ts)
  then show ?case by (simp add: apart_insort) (simp add: apart_def)
qed simp

text \<open>In a sorted list the neighbours decide.\<close>

lemma overlaps_0_iff:
  assumes "sorted ts" "0 \<le> delta"
  shows "overlaps delta ts = 0 \<longleftrightarrow> apart delta ts"
  using assms
proof (induction delta ts rule: overlaps.induct)
  case (1 delta prev cur rest)
  then have "overlaps delta (prev # cur # rest) = 0 \<longleftrightarrow> prev + delta \<le> cur \<and> apart delta (cur # rest)" by auto
  also have "\<dots> \<longleftrightarrow> apart delta (prev # cur # rest)"
    using "1.prems" by (auto simp: apart_def)
  finally show ?case .
qed (auto simp: apart_def)

lemma event_seat_listed: "list_ex (\<lambda>r. sr_id r = i) (event_seats evt d) \<longleftrightarrow> i \<in> sr_id ` set (event_seats evt d)"
  by (auto simp: list_ex_iff)

lemma times_of_seat:
  assumes "s \<in> sr_id ` set (event_seats evt d)"
  shows "map snd (filter (\<lambda>p. fst p = s) (ordered_audit evt d)) = sort (acquired_times s d)"
proof -
  let ?rows = "map (\<lambda>a. (ha_seat_id a, ha_acquired_at a))
    (filter (\<lambda>a. list_ex (\<lambda>r. sr_id r = ha_seat_id a) (event_seats evt d)) (db_hold_audit d))"
  have here: "map snd (filter (\<lambda>p. fst p = s) ?rows) = acquired_times s d"
    using assms by (auto simp: acquired_times_def filter_map o_def event_seat_listed intro!: arg_cong [where f = "map ha_acquired_at"] filter_cong)
  have "map snd (filter (\<lambda>p. fst p = s) (ordered_audit evt d)) = map snd (sort_key snd (filter (\<lambda>p. fst p = s) ?rows))"
    by (simp add: ordered_audit_def sort_key_stable filter_sort)
  also have "\<dots> = sort (map snd (filter (\<lambda>p. fst p = s) ?rows))"
    by (rule properties_for_sort [symmetric]) simp_all
  finally show ?thesis unfolding here .
qed

lemma times_by_seat_set:
  "set (times_by_seat (ordered_audit evt d)) =
     (\<lambda>s. sort (acquired_times s d)) ` {s \<in> sr_id ` set (event_seats evt d). acquired_times s d \<noteq> []}"
proof -
  have seats: "fst ` set (ordered_audit evt d) = {s \<in> sr_id ` set (event_seats evt d). acquired_times s d \<noteq> []}"
    by (auto simp: ordered_audit_def acquired_times_def event_seat_listed filter_empty_conv image_iff) metis
  have "set (times_by_seat (ordered_audit evt d)) =
      (\<lambda>s. map snd (filter (\<lambda>p. fst p = s) (ordered_audit evt d))) ` fst ` set (ordered_audit evt d)"
    by (simp add: times_by_seat_def image_image)
  also have "\<dots> = (\<lambda>s. sort (acquired_times s d)) ` fst ` set (ordered_audit evt d)"
    unfolding seats by (rule image_cong) (auto simp: times_of_seat)
  finally show ?thesis unfolding seats .
qed

lemma sum_list_0_iff: "sum_list ns = (0 :: nat) \<longleftrightarrow> (\<forall>n \<in> set ns. n = 0)"
  by (induction ns) auto

lemma no_overlaps_iff:
  "snd (check_recirculating_oversell evt hold_duration tolerance d) = 0 \<longleftrightarrow>
     (\<forall>r \<in> set (event_seats evt d). apart (hold_delta hold_duration tolerance) (acquired_times (sr_id r) d))"
proof -
  have each: "overlaps (hold_delta hold_duration tolerance) (sort ts) = 0 \<longleftrightarrow>
      apart (hold_delta hold_duration tolerance) ts" for ts
    using overlaps_0_iff [of "sort ts"] by (simp add: hold_delta_def apart_sort)
  have "snd (check_recirculating_oversell evt hold_duration tolerance d) = 0 \<longleftrightarrow>
      (\<forall>ts \<in> set (times_by_seat (ordered_audit evt d)). overlaps (hold_delta hold_duration tolerance) ts = 0)"
    by (simp add: check_recirculating_oversell_def Let_def sum_list_0_iff)
  also have "\<dots> \<longleftrightarrow> (\<forall>s \<in> sr_id ` set (event_seats evt d). acquired_times s d \<noteq> [] \<longrightarrow>
      apart (hold_delta hold_duration tolerance) (acquired_times s d))"
    by (auto simp: times_by_seat_set each)
  also have "\<dots> \<longleftrightarrow> (\<forall>r \<in> set (event_seats evt d). apart (hold_delta hold_duration tolerance) (acquired_times (sr_id r) d))"
    by (auto simp: apart_def)
  finally show ?thesis .
qed

lemma counted_seats:
  "fst (check_recirculating_oversell evt hold_duration tolerance d) \<le> snd (check_recirculating_oversell evt hold_duration tolerance d) \<and>
   (fst (check_recirculating_oversell evt hold_duration tolerance d) = 0 \<longleftrightarrow> snd (check_recirculating_oversell evt hold_duration tolerance d) = 0)"
proof -
  have "length (filter ((<) 0) ns) \<le> sum_list ns \<and> (length (filter ((<) 0) ns) = 0 \<longleftrightarrow> sum_list ns = 0)" for ns :: "nat list"
    by (induction ns) auto
  then show ?thesis unfolding check_recirculating_oversell_def Let_def fst_conv snd_conv by blast
qed

section \<open>A recirculating workload\<close>

text \<open>
  Requests that hold seats for one duration and passes of the sweeper, each with the instant it took before
  it reached the database: at most \<open>lag\<close> earlier than its commit for a request, any earlier instant for the
  sweeper. The state is the database with the time of its last commit; commits are in order.
  What a request meets under its row locks, or at its conditional UPDATE, is the database of that moment.
\<close>

inductive recirculates :: "timedelta \<Rightarrow> timedelta \<Rightarrow> instant \<times> db \<Rightarrow> instant \<times> db \<Rightarrow> bool" for lag dur where
  acquires: "s \<noteq> NaiveStrategy \<Longrightarrow> distinct ids \<Longrightarrow> c \<le> c' \<Longrightarrow> now \<le> c' \<Longrightarrow> c' \<le> now + lag \<Longrightarrow>
    acquire s (undisturbed e) ids h dur now d m = (res, d', m') \<Longrightarrow> recirculates lag dur (c, d) (c', d')"
| sweeps: "c \<le> c' \<Longrightarrow> now \<le> c' \<Longrightarrow> sweep_once locked batch now d r m = (sres, d', r', m') \<Longrightarrow>
    recirculates lag dur (c, d) (c', d')"

text \<open>
  The recorded instants of a seat are in order and at least \<open>dur - lag\<close> apart; the hold of the last one is
  still in the row, or its duration is over.
\<close>

definition hold_over :: "timedelta \<Rightarrow> instant \<Rightarrow> instant list \<Rightarrow> seat_row \<Rightarrow> bool" where
  "hold_over dur c ts r \<longleftrightarrow>
     (case sr_status r of
        AVAILABLE \<Rightarrow> last ts + dur \<le> c
      | HELD \<Rightarrow> (case sr_expires r of None \<Rightarrow> True | Some e \<Rightarrow> last ts + dur \<le> e)
      | BOOKED \<Rightarrow> True)"

definition spaced :: "timedelta \<Rightarrow> timedelta \<Rightarrow> instant \<times> db \<Rightarrow> bool" where
  "spaced lag dur x \<longleftrightarrow>
     (case x of (c, d) \<Rightarrow> schema_ok d \<and>
        (\<forall>r \<in> set (db_seats d). sorted_wrt (\<lambda>a b. a + (dur - lag) \<le> b) (acquired_times (sr_id r) d) \<and>
           (acquired_times (sr_id r) d \<noteq> [] \<longrightarrow> hold_over dur c (acquired_times (sr_id r) d) r)))"

lemma hold_over_later: "hold_over dur c ts r \<Longrightarrow> c \<le> c' \<Longrightarrow> hold_over dur c' ts r"
  by (auto simp: hold_over_def split: seat_status.splits)

lemma spaced_later: "spaced lag dur (c, d) \<Longrightarrow> c \<le> c' \<Longrightarrow> spaced lag dur (c', d)"
  using hold_over_later by (auto simp: spaced_def)

lemma acquired_times_held:
  "distinct ids \<Longrightarrow> acquired_times i (held_db ids ids h e t now d) = acquired_times i d @ (if i \<in> set ids then [now] else [])"
proof -
  assume "distinct ids"
  then have "map ha_acquired_at (filter (\<lambda>a. ha_seat_id a = i) (audit_rows ids h now)) = (if i \<in> set ids then [now] else [])"
    by (induction ids) (auto simp: audit_rows_def)
  then show ?thesis by (simp add: acquired_times_def held_db_def)
qed

text \<open>A win records an instant that is at least \<open>dur - lag\<close> after the last one.\<close>

lemma win_in_time:
  assumes "spaced lag dur (c, d)" "r \<in> set (db_seats d)" "reclaimable_sql now r" "c \<le> now + lag" "0 \<le> lag"
    and "acquired_times (sr_id r) d \<noteq> []"
  shows "last (acquired_times (sr_id r) d) + (dur - lag) \<le> now"
proof -
  have "hold_over dur c (acquired_times (sr_id r) d) r" using assms(1,2,6) by (auto simp: spaced_def)
  then show ?thesis
    using assms(3-5) by (auto simp: hold_over_def reclaimable_sql_def expired_sql_def split: option.splits)
qed

lemma sorted_wrt_snoc:
  assumes "sorted_wrt (\<lambda>a b. a + g \<le> b) ts" "ts \<noteq> [] \<Longrightarrow> last ts + g \<le> t" "0 \<le> (g :: int)"
  shows "sorted_wrt (\<lambda>a b. a + g \<le> b) (ts @ [t])"
proof -
  have "a + g \<le> t" if "a \<in> set ts" for a
  proof -
    have "a \<le> last ts" using assms(1,3) that by (cases ts rule: rev_cases) (auto simp: sorted_wrt_append)
    then show ?thesis using assms(2) that by fastforce
  qed
  then show ?thesis using assms(1) by (simp add: sorted_wrt_append)
qed

lemma spaced_upd:
  assumes "schema_ok d'" "db_seats d' = upd_where P f (db_seats d)" "\<And>r. sr_id (f r) = sr_id r"
    and "\<And>r. r \<in> set (db_seats d) \<Longrightarrow> sorted_wrt (\<lambda>a b. a + (dur - lag) \<le> b) (acquired_times (sr_id r) d') \<and>
      (acquired_times (sr_id r) d' \<noteq> [] \<longrightarrow> hold_over dur c (acquired_times (sr_id r) d') (if P r then f r else r))"
  shows "spaced lag dur (c, d')"
proof -
  have "sorted_wrt (\<lambda>a b. a + (dur - lag) \<le> b) (acquired_times (sr_id x) d') \<and>
      (acquired_times (sr_id x) d' \<noteq> [] \<longrightarrow> hold_over dur c (acquired_times (sr_id x) d') x)"
    if x: "x \<in> set (db_seats d')" for x
  proof -
    obtain r where "r \<in> set (db_seats d)" "x = (if P r then f r else r)" using x unfolding assms(2) set_upd_where by blast
    with assms(4) [of r] assms(3) show ?thesis by (cases "P r") simp_all
  qed
  with assms(1) show ?thesis by (simp add: spaced_def)
qed

lemma spaced_held:
  assumes "spaced lag dur (c, d)" "distinct ids" "\<forall>i \<in> set ids. \<exists>row. find_seat i d = Some row \<and> reclaimable_sql now row"
    and "c \<le> now + lag" "0 \<le> lag" "lag \<le> dur"
  shows "spaced lag dur (c, held_db ids ids h (now + dur) t now d)"
proof -
  let ?d = "held_db ids ids h (now + dur) t now d"
  have sch: "schema_ok d" using assms(1) by (simp add: spaced_def)
  have rec: "reclaimable_sql now r" if "r \<in> set (db_seats d)" "sr_id r \<in> set ids" for r
  proof -
    have "find_seat (sr_id r) d = Some r" using that(1) sch by (simp add: find_seat_iff)
    with assms(3) that(2) show ?thesis by fastforce
  qed
  have "sorted_wrt (\<lambda>a b. a + (dur - lag) \<le> b) (acquired_times (sr_id r) ?d) \<and>
      (acquired_times (sr_id r) ?d \<noteq> [] \<longrightarrow> hold_over dur c (acquired_times (sr_id r) ?d)
        (if sr_id r \<in> set ids then hold_row h (now + dur) t r else r))"
    if r: "r \<in> set (db_seats d)" for r
  proof (cases "sr_id r \<in> set ids")
    case True
    have "sorted_wrt (\<lambda>a b. a + (dur - lag) \<le> b) (acquired_times (sr_id r) d)"
      using assms(1) r by (simp add: spaced_def)
    then have "sorted_wrt (\<lambda>a b. a + (dur - lag) \<le> b) (acquired_times (sr_id r) d @ [now])"
      using win_in_time [OF assms(1) r rec [OF r True] assms(4,5)] assms(6) by (intro sorted_wrt_snoc) auto
    then show ?thesis using True assms(2) by (simp add: acquired_times_held hold_over_def hold_row_def)
  next
    case False
    then show ?thesis using assms(1,2) r by (simp add: acquired_times_held spaced_def)
  qed
  then show ?thesis
    by (intro spaced_upd [OF held_db_schema_ok [OF sch] held_db_sel(1)]) (simp add: hold_row_def, blast)
qed

lemma spaced_swept:
  assumes "spaced lag dur (c, d)" "sweep_once locked batch now d r m = (sres, d', r', m')" "now \<le> c"
  shows "spaced lag dur (c, d')"
proof -
  have sch: "schema_ok d" using assms(1) by (simp add: spaced_def)
  let ?P = "\<lambda>x. sr_id x \<in> set (map sr_id (sweep_rows locked batch now d))"
  have d': "d' = d\<lparr>db_seats := upd_where ?P (free_row (db_clock d)) (db_seats d)\<rparr>"
    using sweep_once_db [OF sch, of locked batch now r m] assms(2) by simp
  have times: "acquired_times i d' = acquired_times i d" for i by (simp add: d' acquired_times_def)
  have "hold_over dur c (acquired_times (sr_id x) d) (free_row (db_clock d) x)"
    if x: "x \<in> set (db_seats d)" "?P x" "acquired_times (sr_id x) d \<noteq> []" for x
  proof -
    obtain y where y: "y \<in> set (sweep_rows locked batch now d)" "sr_id y = sr_id x" using x(2) by auto
    then have "y \<in> set (db_seats d)" "lapsed_hold now y" using sweep_rows_props(1) [OF sch] by auto
    then have "x = y" using x(1) y(2) find_seat_iff [OF sch] by (metis option.inject)
    then have "lapsed_hold now x" using \<open>lapsed_hold now y\<close> by simp
    moreover have "hold_over dur c (acquired_times (sr_id x) d) x" using assms(1) x by (simp add: spaced_def)
    ultimately show ?thesis
      using assms(3) by (auto simp: hold_over_def lapsed_hold_def expired_sql_def split: option.splits)
  qed
  moreover have "schema_ok d'" using sweep_schema [OF sch, of locked batch now r m] assms(2) by simp
  moreover have "db_seats d' = upd_where ?P (free_row (db_clock d)) (db_seats d)" by (simp add: d')
  ultimately show ?thesis
    using assms(1) by (intro spaced_upd [where P = ?P and f = "free_row (db_clock d)" and d = d]) (simp_all add: times spaced_def)
qed

lemma undisturbed_win:
  assumes "schema_ok d" "s \<noteq> NaiveStrategy" "acquire s (undisturbed e) ids h dur now d m = (res, d', m')" "d' \<noteq> d"
  shows "(\<forall>i \<in> set ids. \<exists>row. find_seat i d = Some row \<and> reclaimable_sql now row) \<and>
    (\<exists>t. d' = held_db ids ids h (now + dur) t now d)"
proof (cases s)
  case PessimisticStrategy
  then have p: "pessimistic_acquire (ae_lock_error e) ids h dur now d m = (res, d', m')"
    using assms(3) by (simp add: acquire_undisturbed)
  with assms(4) obtain r where "res = Inr r" "ar_success r" using pessimistic.not_won by metis
  then show ?thesis using pessimistic_outcome(1,3) [OF assms(1), of _ ids h dur now m r d' m'] p by blast
next
  case OptimisticStrategy
  then have "optimistic_acquire (\<lambda>_. id) (\<lambda>_. id) (ae_update_errors e) (ae_max_attempts e) ids h dur now d m = (res, d', m')"
    using assms(3) by (simp add: acquire_undisturbed)
  from optimistic_alone [OF assms(1) this] assms(4) show ?thesis by (auto simp: wins_on_def)
qed (use assms(2) in simp)

lemma spaced_step:
  assumes "recirculates lag dur (c, d) (c', d')" "spaced lag dur (c, d)" "0 \<le> lag" "lag \<le> dur"
  shows "spaced lag dur (c', d')"
  using assms(1)
proof (cases rule: recirculates.cases)
  case (acquires s ids now e h m res m')
  have now: "spaced lag dur (c', d)" using spaced_later assms(2) acquires(3) by blast
  show ?thesis
  proof (cases "d' = d")
    case False
    have "schema_ok d" using assms(2) by (simp add: spaced_def)
    from undisturbed_win [OF this acquires(1,6) False] obtain t where
      "\<forall>i \<in> set ids. \<exists>row. find_seat i d = Some row \<and> reclaimable_sql now row" "d' = held_db ids ids h (now + dur) t now d"
      by blast
    then show ?thesis using spaced_held [OF now acquires(2) _ acquires(5) assms(3,4)] by blast
  qed (simp add: now)
next
  case (sweeps now locked batch r m sres r' m')
  then show ?thesis using spaced_swept spaced_later [OF assms(2)] by blast
qed

lemma spaced_steps:
  assumes "(recirculates lag dur)\<^sup>*\<^sup>* x y" "spaced lag dur x" "0 \<le> lag" "lag \<le> dur"
  shows "spaced lag dur y"
  using assms(1,2)
proof (induction)
  case (step y z)
  then show ?case using spaced_step assms(3,4) by (cases y; cases z) blast
qed

lemma apart_spaced: "sorted_wrt (\<lambda>a b. a + g \<le> b) ts \<Longrightarrow> 0 \<le> g \<Longrightarrow> delta \<le> g \<Longrightarrow> apart delta ts"
  unfolding apart_def by (erule sorted_wrt_mono_rel [rotated]) auto

lemma apart_0: "delta \<le> 0 \<Longrightarrow> apart delta ts"
  unfolding apart_def by (induction ts) (auto intro: order_trans)

section \<open>The check is sound\<close>

text \<open>
  The check reports no overlap exactly if any two recorded holds of a seat of the event, neighbours or not, are at
  least the duration of a hold less the tolerance apart; and it counts a seat exactly if it counts an overlap.
\<close>

theorem recirculation_check_exact:
  "(check_recirculating_oversell evt hold_duration tolerance d = (0, 0) \<longleftrightarrow>
     (\<forall>r \<in> set (event_seats evt d). apart (max 0 (hold_duration - tolerance)) (acquired_times (sr_id r) d))) \<and>
   fst (check_recirculating_oversell evt hold_duration tolerance d) \<le> snd (check_recirculating_oversell evt hold_duration tolerance d)"
  using no_overlaps_iff [of evt hold_duration tolerance d] counted_seats [of evt hold_duration tolerance d]
  by (auto simp: prod_eq_iff hold_delta_def)

lemma recirculation_check_exact_witness:
  "check_recirculating_oversell 1 60 0 (held_db [1] [1] ''B'' 200 100 140 (held_db [1] [1] ''A'' 160 100 100 sample_db)) = (1, 1) \<and>
   \<not> apart 60 (acquired_times 1 (held_db [1] [1] ''B'' 200 100 140 (held_db [1] [1] ''A'' 160 100 100 sample_db)))"
proof -
  let ?d = "held_db [1] [1] ''B'' 200 100 140 (held_db [1] [1] ''A'' 160 100 100 sample_db)"
  have check: "check_recirculating_oversell 1 60 0 ?d = (1, 1)" by code_simp
  then have "\<not> (\<forall>r \<in> set (event_seats 1 ?d). apart (max 0 (60 - 0)) (acquired_times (sr_id r) ?d))"
    using recirculation_check_exact [of 1 60 0 ?d] by simp
  moreover have "\<forall>r \<in> set (event_seats 1 ?d). sr_id r \<noteq> 1 \<longrightarrow> acquired_times (sr_id r) ?d = []" by code_simp
  ultimately have "\<not> apart 60 (acquired_times 1 ?d)" by (auto simp: apart_def)
  with check show ?thesis by blast
qed


text \<open>
  Why the tolerance is there: a request takes its instant, 150; the sweeper frees the seat at 160; the request finds it free
  and holds it. No two holds overlap, yet without a tolerance the check reports one; with the lag of
  the request as tolerance it does not.
\<close>

definition pessimistic_hold :: "session_id \<Rightarrow> instant \<Rightarrow> db \<Rightarrow> db" where
  "pessimistic_hold h now d = fst (snd (acquire PessimisticStrategy (undisturbed quiet_env) [1] h 60 now d zero_metrics))"

definition recirculated_db :: db where
  "recirculated_db =
     pessimistic_hold ''B'' 150 (fst (snd (sweep_once {} 10 160 (pessimistic_hold ''A'' 100 sample_db) sample_redis zero_metrics)))"

lemma late_instant_looks_like_an_overlap:
  "check_recirculating_oversell 1 60 0 recirculated_db = (1, 1)"
  unfolding recirculated_db_def pessimistic_hold_def undisturbed_quiet by code_simp

lemma recirculated: "(recirculates 10 60)\<^sup>*\<^sup>* (100, sample_db) (160, recirculated_db)"
proof -
  let ?d1 = "pessimistic_hold ''A'' 100 sample_db"
  let ?d2 = "fst (snd (sweep_once {} 10 160 ?d1 sample_redis zero_metrics))"
  have hold: "recirculates 10 60 (c, d) (c', pessimistic_hold h now d)" if "c \<le> c'" "now \<le> c'" "c' \<le> now + 10" for c c' now h d
    unfolding pessimistic_hold_def using that
    by (intro acquires [where s = PessimisticStrategy and ids = "[1]" and e = quiet_env and h = h and m = zero_metrics and now = now])
      (auto simp: prod_eq_iff)
  have "recirculates 10 60 (100, sample_db) (100, ?d1)" by (rule hold) simp_all
  moreover have "recirculates 10 60 (100, ?d1) (160, ?d2)"
    by (rule sweeps [where now = 160 and m = zero_metrics and r = sample_redis]) (auto simp: prod_eq_iff)
  moreover have "recirculates 10 60 (160, ?d2) (160, recirculated_db)"
    unfolding recirculated_db_def by (rule hold) simp_all
  ultimately show ?thesis by (meson rtranclp.rtrancl_into_rtrancl rtranclp.rtrancl_refl)
qed

lemma sample_no_audit: "db_hold_audit sample_db = []"
  by (simp add: sample_db_def)


end
