(* ===== verification/Metrics_Text.thy ===== *)
theory Metrics_Text
  imports Text Complex_Main
begin

text \<open>
  Reading the text of \<^verbatim>\<open>GET /metrics\<close>: the parsers of \<^verbatim>\<open>loadtest/run_benchmark.py\<close> and of
  \<^verbatim>\<open>loadtest/chaos/harness.py\<close>. A value is \<open>None\<close> where Python raises, on a line without a value or with one
  that is no number. Floats are exact rationals.
\<close>

section \<open>Lines and numbers\<close>

text \<open>\<open>str.splitlines\<close>: a carriage return followed by a line feed is one line break.\<close>

definition line_break :: "char \<Rightarrow> bool" where
  "line_break c \<longleftrightarrow> (of_char c :: nat) \<in> {10, 11, 12, 13, 28, 29, 30, 133}"

fun lines_from :: "string \<Rightarrow> string \<Rightarrow> string list" where
  "lines_from line [] = (if line = [] then [] else [rev line])"
| "lines_from line (c # cs) =
     (if c = CHR 0x0D \<and> cs \<noteq> [] \<and> hd cs = CHR 0x0A then rev line # lines_from [] (tl cs)
      else if line_break c then rev line # lines_from [] cs
      else lines_from (c # line) cs)"

definition splitlines :: "string \<Rightarrow> string list" where
  "splitlines = lines_from []"

text \<open>\<open>line.rsplit(" ", 1)[1]\<close>; an IndexError without a space.\<close>

definition last_word :: "string \<Rightarrow> string option" where
  "last_word line = (if CHR '' '' \<in> set line then Some (rev (takeWhile (\<lambda>c. c \<noteq> CHR '' '') (rev line))) else None)"

text \<open>The value of a string of digits.\<close>

fun digits_value :: "nat \<Rightarrow> string \<Rightarrow> nat" where
  "digits_value acc [] = acc"
| "digits_value acc (c # cs) = digits_value (10 * acc + (of_char c - 48)) cs"

text \<open>
  \<open>float(s)\<close> of a decimal literal. Infinities, NaN and digits with underscores between them, which a
  counter never shows, are not numbers here.
\<close>

definition unsigned :: "string \<Rightarrow> rat option" where
  "unsigned s =
     (let whole = takeWhile is_digit s; rest = dropWhile is_digit s;
          frac = (case rest of c # cs \<Rightarrow> if c = CHR ''.'' then takeWhile is_digit cs else [] | [] \<Rightarrow> []);
          after = (case rest of c # cs \<Rightarrow> if c = CHR ''.'' then dropWhile is_digit cs else rest | [] \<Rightarrow> []);
          m = of_nat (digits_value 0 (whole @ frac)) / 10 ^ length frac
      in if whole @ frac = [] then None
         else case after of
             [] \<Rightarrow> Some m
           | e # ds \<Rightarrow>
               if e = CHR ''e'' \<or> e = CHR ''E''
               then map_option (\<lambda>k. if 0 \<le> k then m * 10 ^ nat k else m / 10 ^ nat (- k)) (py_int ds)
               else None)"

definition py_float :: "string \<Rightarrow> rat option" where
  "py_float text =
     (case strip text of
        [] \<Rightarrow> None
      | c # cs \<Rightarrow> if c = CHR ''-'' then map_option uminus (unsigned cs)
                  else if c = CHR ''+'' then unsigned cs else unsigned (c # cs))"

definition sample_value :: "string \<Rightarrow> rat option" where
  "sample_value line = Option.bind (last_word line) py_float"

text \<open>The first series of a metric without labels, and the sum over the series of a metric; None if a raise.\<close>

fun first_value :: "string \<Rightarrow> string list \<Rightarrow> rat option" where
  "first_value prefix [] = Some 0"
| "first_value prefix (line # lines) =
     (if starts_with prefix line then sample_value line else first_value prefix lines)"

definition parse_counter_value :: "string \<Rightarrow> string \<Rightarrow> rat option" where
  "parse_counter_value metrics_text metric_name = first_value (metric_name @ '' '') (splitlines metrics_text)"

fun total_loop :: "string \<Rightarrow> rat \<Rightarrow> string list \<Rightarrow> rat option" where
  "total_loop name acc [] = Some acc"
| "total_loop name acc (line # lines) =
     (if starts_with (name @ ''{'') line \<or> starts_with (name @ '' '') line
      then Option.bind (sample_value line) (\<lambda>x. total_loop name (acc + x) lines)
      else total_loop name acc lines)"

definition parse_counter_total :: "string \<Rightarrow> string \<Rightarrow> rat option" where
  "parse_counter_total metrics_text metric_name = total_loop metric_name 0 (splitlines metrics_text)"

text \<open>The sum and count of a histogram without labels; the last line of each counts.\<close>

fun sum_count_loop :: "string \<Rightarrow> rat \<times> rat \<Rightarrow> string list \<Rightarrow> (rat \<times> rat) option" where
  "sum_count_loop name acc [] = Some acc"
| "sum_count_loop name acc (line # lines) =
     (if starts_with (name @ ''_sum '') line
      then Option.bind (sample_value line) (\<lambda>x. sum_count_loop name (x, snd acc) lines)
      else if starts_with (name @ ''_count '') line
      then Option.bind (sample_value line) (\<lambda>x. sum_count_loop name (fst acc, x) lines)
      else sum_count_loop name acc lines)"

definition parse_histogram_sum_count :: "string \<Rightarrow> string \<Rightarrow> (rat \<times> rat) option" where
  "parse_histogram_sum_count metrics_text metric_name = sum_count_loop metric_name (0, 0) (splitlines metrics_text)"

text \<open>What follows the first occurrence of a text, if there is one, and what precedes it.\<close>

fun text_after :: "string \<Rightarrow> string \<Rightarrow> string option" where
  "text_after p [] = (if p = [] then Some [] else None)"
| "text_after p (c # cs) = (if starts_with p (c # cs) then Some (drop (length p) (c # cs)) else text_after p cs)"

fun text_before :: "string \<Rightarrow> string \<Rightarrow> string" where
  "text_before p [] = []"
| "text_before p (c # cs) = (if starts_with p (c # cs) then [] else c # text_before p cs)"

text \<open>\<open>line.split('le="')[1].split('"')[0]\<close>.\<close>

definition le_label :: "string \<Rightarrow> string option" where
  "le_label line = map_option (\<lambda>rest. takeWhile (\<lambda>c. c \<noteq> CHR 0x22) (text_before (''le='' @ [CHR 0x22]) rest))
     (text_after (''le='' @ [CHR 0x22]) line)"

text \<open>A bucket: its boundary, \<open>None\<close> for infinity, and its cumulative count.\<close>

fun read_buckets :: "string \<Rightarrow> string list \<Rightarrow> (rat option \<times> rat) list option" where
  "read_buckets name [] = Some []"
| "read_buckets name (line # lines) =
     (if starts_with (name @ ''_bucket'') line
      then Option.bind (le_label line) (\<lambda>le_str.
           Option.bind (last_word line) (\<lambda>count_str.
           Option.bind (if le_str = ''+Inf'' then Some None else map_option Some (py_float le_str)) (\<lambda>le.
           Option.bind (py_float count_str) (\<lambda>n. map_option (Cons (le, n)) (read_buckets name lines)))))
      else read_buckets name lines)"

definition sort_buckets :: "(rat option \<times> rat) list \<Rightarrow> (rat option \<times> rat) list" where
  "sort_buckets bs = sort_key (\<lambda>b. the (fst b)) (filter (\<lambda>b. fst b \<noteq> None) bs) @ filter (\<lambda>b. fst b = None) bs"

text \<open>The outer option is an exception, the inner one the None of the code.\<close>

definition parse_histogram_p99_seconds :: "string \<Rightarrow> string \<Rightarrow> rat option option" where
  "parse_histogram_p99_seconds metrics_text metric_name =
     map_option (\<lambda>found.
       let buckets = sort_buckets found
       in if buckets = [] then None
          else (let total_count = snd (last buckets)
                in if total_count = 0 then None
                   else (case find (\<lambda>b. total_count * (99 / 100) \<le> snd b) buckets of
                           None \<Rightarrow> None
                         | Some b \<Rightarrow> fst b)))
     (read_buckets metric_name (splitlines metrics_text))"

text \<open>
  Why the harness does not reuse the parser of the benchmark: on a metric whose series all carry labels
  that parser answers 0, whatever the series say.
\<close>

lemma starts_with_iff: "starts_with p l \<longleftrightarrow> (\<exists>r. l = p @ r)"
  by (auto simp: starts_with_def) (metis append_take_drop_id)

lemma first_value_none: "\<forall>l \<in> set ls. \<not> starts_with p l \<Longrightarrow> first_value p ls = Some 0"
  by (induction ls) auto

lemma brace_not_space: "starts_with (n @ ''{'') l \<Longrightarrow> \<not> starts_with (n @ '' '') l"
  by (auto simp: starts_with_iff)

lemma labelled_counter_reads_zero:
  assumes "\<forall>l \<in> set (splitlines metrics_text). starts_with name l \<longrightarrow> starts_with (name @ ''{'') l"
  shows "parse_counter_value metrics_text name = Some 0"
proof -
  have "starts_with (name @ '' '') l \<Longrightarrow> starts_with name l" for l
    by (auto simp: starts_with_iff)
  then show ?thesis
    using assms brace_not_space unfolding parse_counter_value_def by (intro first_value_none) blast
qed

end
