(* ===== verification/Benchmarks.thy ===== *)
theory Benchmarks
  imports Metrics_Text
begin

text \<open>
  The figures of the load tests: \<^verbatim>\<open>loadtest/run_benchmark.py\<close>, \<^verbatim>\<open>loadtest/diagnose_exhaustion.py\<close> and
  \<^verbatim>\<open>loadtest/recirculating_pilot.py\<close>, without the processes they start and the requests they send:
  what k6 and the server report comes in as arguments.

  Floats are exact rationals here. A standard deviation is kept as its square, the variance.
\<close>

section \<open>Numbers\<close>

text \<open>\<open>round(x)\<close>: to the nearest integer, ties to even.\<close>

definition py_round :: "rat \<Rightarrow> int" where
  "py_round x =
     (let q = \<lfloor>x\<rfloor>; rest = x - of_int q
      in if rest < 1 / 2 then q else if 1 / 2 < rest then q + 1 else if even q then q else q + 1)"

text \<open>\<open>int(x)\<close>: towards zero.\<close>

definition py_trunc :: "rat \<Rightarrow> int" where
  "py_trunc x = (if 0 \<le> x then \<lfloor>x\<rfloor> else - \<lfloor>- x\<rfloor>)"

definition mean_of :: "rat list \<Rightarrow> rat option" where
  "mean_of xs = (if xs = [] then None else Some (sum_list xs / of_nat (length xs)))"

text \<open>\<open>statistics.stdev\<close>, squared; 0 for a single value.\<close>

definition variance_of :: "rat list \<Rightarrow> rat option" where
  "variance_of xs =
     (if xs = [] then None
      else if length xs = 1 then Some 0
      else (let m = sum_list xs / of_nat (length xs)
            in Some (sum_list (map (\<lambda>x. (x - m) ^ 2) xs) / of_nat (length xs - 1))))"

definition ratio_of :: "rat \<Rightarrow> rat \<Rightarrow> rat option" where
  "ratio_of x y = (if y \<noteq> 0 then Some (x / y) else None)"

text \<open>The present values of an attribute over runs.\<close>

definition collect :: "('r \<Rightarrow> rat option) \<Rightarrow> 'r list \<Rightarrow> rat list" where
  "collect attr runs = List.map_filter attr runs"

section \<open>Durations\<close>

text \<open>
  \<open>re.findall(r"(\d+(?:\.\d+)?)(h|m|s)", duration)\<close>, summed in seconds. A number that no unit follows is
  skipped character by character, as the regular expression's search does.
\<close>

definition unit_seconds :: "char \<Rightarrow> rat option" where
  "unit_seconds c =
     (if c = CHR ''h'' then Some 3600 else if c = CHR ''m'' then Some 60 else if c = CHR ''s'' then Some 1 else None)"

text \<open>A match at the start of the text: its seconds and the rest of the text.\<close>

definition duration_at :: "string \<Rightarrow> (rat \<times> string) option" where
  "duration_at s =
     (let whole = takeWhile is_digit s; rest = dropWhile is_digit s;
          with_unit = (\<lambda>n r. case r of [] \<Rightarrow> None | u # r' \<Rightarrow> map_option (\<lambda>k. (n * k, r')) (unit_seconds u))
      in if whole = [] then None
         else case rest of
             [] \<Rightarrow> None
           | c # after \<Rightarrow>
               (let frac = takeWhile is_digit after
                in if c = CHR ''.'' \<and> frac \<noteq> []
                   then with_unit (of_nat (digits_value 0 (whole @ frac)) / 10 ^ length frac) (dropWhile is_digit after)
                   else with_unit (of_nat (digits_value 0 whole)) rest))"

lemma duration_at_shorter: "duration_at s = Some (x, r) \<Longrightarrow> length r < length s"
proof -
  have drop: "length (dropWhile is_digit t) \<le> length t" for t by (rule length_dropWhile_le)
  assume "duration_at s = Some (x, r)"
  then show ?thesis
    using drop [of s] drop [of "tl (dropWhile is_digit s)"]
    by (auto simp: duration_at_def Let_def split: list.splits if_splits)
qed

function parse_duration_seconds :: "string \<Rightarrow> rat" where
  "parse_duration_seconds s =
     (case duration_at s of
        Some (x, r) \<Rightarrow> x + parse_duration_seconds r
      | None \<Rightarrow> (case s of [] \<Rightarrow> 0 | c # cs \<Rightarrow> parse_duration_seconds cs))"
  by pat_completeness auto
termination
  by (relation "measure length") (auto dest: duration_at_shorter)

declare parse_duration_seconds.simps [simp del]

section \<open>One run\<close>

record k6_figures =
  k6_successes :: int
  k6_expected_409s :: int
  k6_unexpected_app_errors :: int
  k6_transport_failures :: int
  k6_p50_ms :: "rat option"
  k6_p95_ms :: "rat option"
  k6_p99_ms :: "rat option"

text \<open>\<open>value metric stat\<close> is what the summary holds under \<open>metrics.<metric>.values.<stat>\<close>, if anything.\<close>

definition parse_k6_summary :: "(string \<Rightarrow> string \<Rightarrow> rat option) \<Rightarrow> k6_figures" where
  "parse_k6_summary value =
     (let count = (\<lambda>metric. py_trunc (case value metric ''count'' of None \<Rightarrow> 0 | Some x \<Rightarrow> x))
      in \<lparr>k6_successes = count ''status_2xx'', k6_expected_409s = count ''status_409'',
          k6_unexpected_app_errors = count ''status_other'', k6_transport_failures = count ''status_transport_error'',
          k6_p50_ms = value ''measured_duration_ms'' ''med'', k6_p95_ms = value ''measured_duration_ms'' ''p(95)'',
          k6_p99_ms = value ''measured_duration_ms'' ''p(99)''\<rparr>)"

definition total_requests :: "k6_figures \<Rightarrow> int" where
  "total_requests k = k6_successes k + k6_expected_409s k + k6_unexpected_app_errors k + k6_transport_failures k"

record sweep_run =
  sw_strategy :: string
  sw_ratio :: int
  sw_repetition :: nat
  sw_started_at :: string
  sw_seat_count :: int
  sw_vus :: int
  sw_duration :: rat
  sw_workers :: int
  sw_pool_size :: int
  sw_max_overflow :: int
  sw_naive_race_window_ms :: int
  sw_full_jitter :: "bool option"
  sw_k6 :: k6_figures
  sw_oversold_seats :: int
  sw_excess_holders :: int
  sw_total_request_rps :: "rat option"
  sw_raw_successes_rps :: "rat option"
  sw_valid_successes_rps :: "rat option"
  sw_contention_observed :: "rat option"
  sw_lock_wait_p99_ms :: "rat option"
  sw_optimistic_conflicts :: "rat option"
  sw_optimistic_retries :: "rat option"
  sw_optimistic_exhausted :: "rat option"
  sw_optimistic_attempts_mean :: "rat option"

record sweep_config =
  sc_vus :: int
  sc_duration :: rat
  sc_workers :: int
  sc_pool_size :: int
  sc_max_overflow :: int

definition sweep_seat_count :: "int \<Rightarrow> int \<Rightarrow> int" where
  "sweep_seat_count vus ratio = max 1 (py_round (of_int vus / of_int ratio))"

text \<open>
  A cell: what k6 and the oversell report say, and the text of the metrics if it could be fetched. \<open>None\<close> if
  that text does not parse.
\<close>

definition run_sweep_cell :: "sweep_config \<Rightarrow> bool option \<Rightarrow> string \<Rightarrow> int \<Rightarrow> nat \<Rightarrow> string \<Rightarrow> k6_figures \<Rightarrow> int \<Rightarrow> int \<Rightarrow>
    string option \<Rightarrow> sweep_run option" where
  "run_sweep_cell cf jitter strategy ratio repetition started_at k oversold excess metrics_text =
     (let seat_count = sweep_seat_count (sc_vus cf) ratio;
          base = \<lparr>sw_strategy = strategy, sw_ratio = ratio, sw_repetition = repetition, sw_started_at = started_at,
            sw_seat_count = seat_count, sw_vus = sc_vus cf, sw_duration = sc_duration cf, sw_workers = sc_workers cf,
            sw_pool_size = sc_pool_size cf, sw_max_overflow = sc_max_overflow cf, sw_naive_race_window_ms = 0,
            sw_full_jitter = (if strategy = ''optimistic'' then jitter else None),
            sw_k6 = k, sw_oversold_seats = oversold, sw_excess_holders = excess,
            sw_total_request_rps = ratio_of (of_int (total_requests k)) (sc_duration cf),
            sw_raw_successes_rps = ratio_of (of_int (k6_successes k)) (sc_duration cf),
            sw_valid_successes_rps = ratio_of (of_int (k6_successes k - excess)) (sc_duration cf),
            sw_contention_observed = ratio_of (of_int (total_requests k)) (of_int seat_count),
            sw_lock_wait_p99_ms = None, sw_optimistic_conflicts = None, sw_optimistic_retries = None,
            sw_optimistic_exhausted = None, sw_optimistic_attempts_mean = None\<rparr>
      in case metrics_text of
           None \<Rightarrow> Some base
         | Some text \<Rightarrow>
             if strategy = ''pessimistic''
             then map_option (\<lambda>p99. base\<lparr>sw_lock_wait_p99_ms := map_option (\<lambda>x. x * 1000) p99\<rparr>)
                    (parse_histogram_p99_seconds text ''lock_wait_seconds'')
             else if strategy = ''optimistic''
             then Option.bind (parse_counter_value text ''optimistic_conflicts_total'') (\<lambda>conflicts.
                  Option.bind (parse_counter_value text ''optimistic_retries_total'') (\<lambda>retries.
                  Option.bind (parse_counter_value text ''optimistic_exhausted_total'') (\<lambda>exhausted.
                  Option.bind (parse_histogram_sum_count text ''optimistic_attempts'') (\<lambda>(att_sum, att_count).
                    Some (base\<lparr>sw_optimistic_conflicts := Some conflicts, sw_optimistic_retries := Some retries,
                      sw_optimistic_exhausted := Some exhausted,
                      sw_optimistic_attempts_mean := ratio_of att_sum att_count\<rparr>)))))
             else Some base)"

section \<open>The matrix of a sweep\<close>

text \<open>
  The cells in the order they run: for each ratio, for each repetition, every strategy. The result of a
  cell depends on the outside and so on its number.
\<close>

definition sweep_cells :: "string list \<Rightarrow> int list \<Rightarrow> nat \<Rightarrow> (string \<times> int \<times> nat) list" where
  "sweep_cells strategies ratios reps =
     concat (map (\<lambda>ratio. concat (map (\<lambda>rep. map (\<lambda>s. (s, ratio, rep)) strategies) [1..<reps + 1])) ratios)"

type_synonym sweep_results = "string \<times> int \<Rightarrow> sweep_run list"

definition run_sweep_matrix :: "(nat \<Rightarrow> string \<Rightarrow> int \<Rightarrow> nat \<Rightarrow> sweep_run) \<Rightarrow> string list \<Rightarrow> int list \<Rightarrow> nat \<Rightarrow> sweep_results" where
  "run_sweep_matrix cell strategies ratios reps =
     (\<lambda>(s, r). List.map_filter (\<lambda>(n, s', r', rep). if s' = s \<and> r' = r then Some (cell n s' r' rep) else None)
        (enumerate 1 (sweep_cells strategies ratios reps)))"

text \<open>The fields that must agree over all runs, and the refusal to go on when they do not.\<close>

definition config_of :: "sweep_run \<Rightarrow> sweep_config" where
  "config_of r = \<lparr>sc_vus = sw_vus r, sc_duration = sw_duration r, sc_workers = sw_workers r,
     sc_pool_size = sw_pool_size r, sc_max_overflow = sw_max_overflow r\<rparr>"

fun assert_configuration :: "('r \<Rightarrow> 'c) \<Rightarrow> 'c option \<Rightarrow> 'r list \<Rightarrow> ('c \<times> 'c) option" where
  "assert_configuration f reference [] = None"
| "assert_configuration f reference (r # rs) =
     (case reference of
        None \<Rightarrow> assert_configuration f (Some (f r)) rs
      | Some c \<Rightarrow> if f r \<noteq> c then Some (f r, c) else assert_configuration f (Some c) rs)"

definition assert_sweep_configuration :: "sweep_run list \<Rightarrow> (sweep_config \<times> sweep_config) option" where
  "assert_sweep_configuration = assert_configuration config_of None"

record cell_stats =
  cs_mean :: "rat option"
  cs_min :: "rat option"
  cs_max :: "rat option"
  cs_variance :: "rat option"

definition sweep_cell_stats :: "('r \<Rightarrow> rat option) \<Rightarrow> 'r list \<Rightarrow> cell_stats" where
  "sweep_cell_stats attr runs =
     (let values = collect attr runs
      in if values = [] then \<lparr>cs_mean = None, cs_min = None, cs_max = None, cs_variance = None\<rparr>
         else \<lparr>cs_mean = mean_of values, cs_min = Some (Min (set values)), cs_max = Some (Max (set values)),
               cs_variance = variance_of values\<rparr>)"

section \<open>The crossover\<close>

text \<open>Whether the optimistic strategy is ahead at a ratio; None if one of the two was not measured.\<close>

definition optimistic_ahead :: "sweep_results \<Rightarrow> int \<Rightarrow> bool option" where
  "optimistic_ahead results ratio =
     (case cs_mean (sweep_cell_stats sw_total_request_rps (results (''optimistic'', ratio))) of
        None \<Rightarrow> None
      | Some opt \<Rightarrow>
         (case cs_mean (sweep_cell_stats sw_total_request_rps (results (''pessimistic'', ratio))) of
            None \<Rightarrow> None
          | Some pes \<Rightarrow> Some (pes \<le> opt)))"

fun crossover_loop :: "(int \<Rightarrow> bool option) \<Rightarrow> (bool \<times> int) option \<Rightarrow> int list \<Rightarrow> (int \<times> int) option" where
  "crossover_loop ahead prev [] = None"
| "crossover_loop ahead prev (ratio # ratios) =
     (case ahead ratio of
        None \<Rightarrow> crossover_loop ahead prev ratios
      | Some a \<Rightarrow>
          (case prev of
             Some (True, lo) \<Rightarrow> if \<not> a then Some (lo, ratio) else crossover_loop ahead (Some (a, ratio)) ratios
           | _ \<Rightarrow> crossover_loop ahead (Some (a, ratio)) ratios))"

definition find_crossover_interval :: "sweep_results \<Rightarrow> int list \<Rightarrow> (int \<times> int) option" where
  "find_crossover_interval results ratios = crossover_loop (optimistic_ahead results) None (sort ratios)"

definition pick_refinement_ratios :: "int \<Rightarrow> int \<Rightarrow> nat \<Rightarrow> int list" where
  "pick_refinement_ratios lo hi count =
     (if hi - lo \<le> 1 then []
      else filter (\<lambda>r. lo < r \<and> r < hi)
        (sorted_list_of_set (set (map (\<lambda>i. py_round (of_int lo + of_int (hi - lo) * of_nat i / of_nat (count + 1)))
           [1..<count + 1]))))"

text \<open>
  The two passes of a sweep: the coarse one over the given ratios, and one over ratios inside the crossover
  interval, if there is one. A pass whose runs disagree in their configuration ends the program.
\<close>

definition runs_of :: "string list \<Rightarrow> int list \<Rightarrow> sweep_results \<Rightarrow> sweep_run list" where
  "runs_of strategies ratios results = concat (map results (remdups (List.product strategies ratios)))"

record sweep_output =
  so_coarse :: sweep_results
  so_interval :: "(int \<times> int) option"
  so_refine_ratios :: "int list"
  so_refined :: "sweep_results option"

definition run_contention_sweep :: "(nat \<Rightarrow> string \<Rightarrow> int \<Rightarrow> nat \<Rightarrow> sweep_run) \<Rightarrow> (nat \<Rightarrow> string \<Rightarrow> int \<Rightarrow> nat \<Rightarrow> sweep_run) \<Rightarrow>
    string list \<Rightarrow> int list \<Rightarrow> nat \<Rightarrow> bool \<Rightarrow> (sweep_config \<times> sweep_config) + sweep_output" where
  "run_contention_sweep cell refine_cell strategies ratios reps skip_refinement =
     (let coarse = run_sweep_matrix cell strategies ratios reps
      in case assert_sweep_configuration (runs_of strategies ratios coarse) of
           Some mismatch \<Rightarrow> Inl mismatch
         | None \<Rightarrow>
             (let interval = find_crossover_interval coarse ratios;
                  picks = (case interval of
                      Some (lo, hi) \<Rightarrow> if skip_refinement then [] else pick_refinement_ratios lo hi 4
                    | None \<Rightarrow> [])
              in if picks = []
                 then Inr \<lparr>so_coarse = coarse, so_interval = interval, so_refine_ratios = [], so_refined = None\<rparr>
                 else (let refined = run_sweep_matrix refine_cell strategies picks reps
                       in case assert_sweep_configuration (runs_of strategies picks refined) of
                            Some mismatch \<Rightarrow> Inl mismatch
                          | None \<Rightarrow> Inr \<lparr>so_coarse = coarse, so_interval = interval, so_refine_ratios = picks,
                              so_refined = Some refined\<rparr>)))"

section \<open>Comparison runs\<close>

record bench_config =
  bc_scenario :: string
  bc_vus :: int
  bc_duration :: rat
  bc_workers :: int
  bc_pool_size :: int
  bc_max_overflow :: int
  bc_naive_race_window_ms :: int
  bc_seat_count :: int

text \<open>A run: its configuration, its number and warmup, and the figures.\<close>

record bench_run =
  rn_run :: nat
  rn_config :: bench_config
  rn_warmup_applied :: bool
  rn_warmup_vus :: int
  rn_warmup_duration :: rat
  rn_k6 :: k6_figures
  rn_oversold_seats :: int
  rn_excess_holders :: int
  rn_contention_ratio :: "rat option"
  rn_oversold_fraction :: "rat option"
  rn_throughput_rps :: "rat option"
  rn_violations :: "string list"

text \<open>What a repetition yields: the figures of k6, the oversell report and the invariant violations seen.\<close>

record repetition =
  rp_k6 :: k6_figures
  rp_oversold_seats :: int
  rp_excess_holders :: int
  rp_violations :: "string list"

definition collect_runs :: "bench_config \<Rightarrow> int \<Rightarrow> string \<Rightarrow> nat \<Rightarrow> (nat \<Rightarrow> repetition) \<Rightarrow> bench_run list" where
  "collect_runs cf warmup_vus warmup_duration run_count rep =
     map (\<lambda>n. let x = rep n; k = rp_k6 x
       in \<lparr>rn_run = n, rn_config = cf, rn_warmup_applied = True, rn_warmup_vus = warmup_vus,
           rn_warmup_duration = parse_duration_seconds warmup_duration, rn_k6 = k,
           rn_oversold_seats = rp_oversold_seats x, rn_excess_holders = rp_excess_holders x,
           rn_contention_ratio = ratio_of (of_int (total_requests k)) (of_int (bc_seat_count cf)),
           rn_oversold_fraction = ratio_of (of_int (rp_oversold_seats x)) (of_int (bc_seat_count cf)),
           rn_throughput_rps = ratio_of (of_int (total_requests k)) (bc_duration cf),
           rn_violations = rp_violations x\<rparr>) [1..<run_count + 1]"

definition assert_identical_configuration :: "bench_run list \<Rightarrow> (bench_config \<times> bench_config) option" where
  "assert_identical_configuration = assert_configuration rn_config None"

record aggregated =
  ag_total_oversold_seats :: int
  ag_total_excess_holders :: int
  ag_runs_with_oversold_seat :: nat
  ag_runs_with_excess_holders :: nat
  ag_runs_with_violation :: nat
  ag_p50_ms_mean :: "rat option"
  ag_p95_ms_mean :: "rat option"
  ag_p99_ms_mean :: "rat option"
  ag_throughput_rps_mean :: "rat option"
  ag_contention_ratio_mean :: "rat option"
  ag_oversold_fraction_mean :: "rat option"

definition aggregate :: "bench_run list \<Rightarrow> aggregated" where
  "aggregate runs =
     \<lparr>ag_total_oversold_seats = sum_list (map rn_oversold_seats runs),
      ag_total_excess_holders = sum_list (map rn_excess_holders runs),
      ag_runs_with_oversold_seat = length (filter (\<lambda>r. 0 < rn_oversold_seats r) runs),
      ag_runs_with_excess_holders = length (filter (\<lambda>r. 0 < rn_excess_holders r) runs),
      ag_runs_with_violation = length (filter (\<lambda>r. rn_violations r \<noteq> []) runs),
      ag_p50_ms_mean = mean_of (collect (k6_p50_ms \<circ> rn_k6) runs),
      ag_p95_ms_mean = mean_of (collect (k6_p95_ms \<circ> rn_k6) runs),
      ag_p99_ms_mean = mean_of (collect (k6_p99_ms \<circ> rn_k6) runs),
      ag_throughput_rps_mean = mean_of (collect rn_throughput_rps runs),
      ag_contention_ratio_mean = mean_of (collect rn_contention_ratio runs),
      ag_oversold_fraction_mean = mean_of (collect rn_oversold_fraction runs)\<rparr>"

section \<open>Phases of a run\<close>

text \<open>The categories a measured request falls into, and the points k6 wrote, relative to the first.\<close>

datatype status_metric = Status_2xx | Status_409 | Status_other | Status_transport_error

record phase_stats =
  ph_duration :: rat
  ph_successes :: nat
  ph_expected_409s :: nat
  ph_app_errors :: nat
  ph_transport_failures :: nat
  ph_total_request_rps :: "rat option"
  ph_p50_ms :: "rat option"
  ph_p95_ms :: "rat option"
  ph_p99_ms :: "rat option"

definition percentile :: "rat list \<Rightarrow> rat \<Rightarrow> rat option" where
  "percentile values p =
     (if values = [] then None
      else (let n = int (length values); idx = min (n - 1) (max 0 (py_round (p * of_int (n - 1))))
            in Some (sort values ! nat idx)))"

definition category_count :: "(rat \<Rightarrow> bool) \<Rightarrow> (rat \<times> status_metric) list \<Rightarrow> status_metric \<Rightarrow> nat" where
  "category_count predicate points c = length (filter (\<lambda>(t, cat). predicate t \<and> cat = c) points)"

definition phase_stats_over :: "(rat \<times> status_metric) list \<Rightarrow> (rat \<times> rat) list \<Rightarrow> (rat \<Rightarrow> bool) \<Rightarrow> rat \<Rightarrow> phase_stats" where
  "phase_stats_over status_points duration_points predicate phase_duration =
     (let count = category_count predicate status_points;
          total = count Status_2xx + count Status_409 + count Status_other + count Status_transport_error;
          durations = map snd (filter (\<lambda>(t, v). predicate t) duration_points)
      in \<lparr>ph_duration = phase_duration, ph_successes = count Status_2xx, ph_expected_409s = count Status_409,
          ph_app_errors = count Status_other, ph_transport_failures = count Status_transport_error,
          ph_total_request_rps = (if 0 < phase_duration then Some (of_nat total / phase_duration) else None),
          ph_p50_ms = percentile durations (50 / 100), ph_p95_ms = percentile durations (95 / 100),
          ph_p99_ms = percentile durations (99 / 100)\<rparr>)"

text \<open>Timestamps relative to the first of both kinds.\<close>

definition relative_points :: "(rat \<times> status_metric) list \<Rightarrow> (rat \<times> rat) list \<Rightarrow> (rat \<times> status_metric) list \<times> (rat \<times> rat) list" where
  "relative_points status_points duration_points =
     (let times = map fst status_points @ map fst duration_points
      in if times = [] then ([], [])
         else (let t0 = Min (set times)
               in (map (\<lambda>(t, c). (t - t0, c)) status_points, map (\<lambda>(t, v). (t - t0, v)) duration_points)))"

definition analyze_raw_json :: "(rat \<times> status_metric) list \<Rightarrow> (rat \<times> rat) list \<Rightarrow> rat \<Rightarrow>
    (rat \<times> phase_stats \<times> phase_stats) option" where
  "analyze_raw_json status_points duration_points configured =
     (let success_times = map fst (filter (\<lambda>(t, c). c = Status_2xx) status_points)
      in if success_times = [] then None
         else (let exhaustion = Max (set success_times)
               in Some (exhaustion,
                    phase_stats_over status_points duration_points (\<lambda>t. t \<le> exhaustion) exhaustion,
                    phase_stats_over status_points duration_points (\<lambda>t. exhaustion < t) (max 0 (configured - exhaustion)))))"

section \<open>Recirculation\<close>

record availability_sample =
  as_elapsed :: rat
  as_available :: nat
  as_held :: nat
  as_booked :: nat

fun recirculation_cycles :: "bool \<Rightarrow> availability_sample list \<Rightarrow> nat" where
  "recirculation_cycles was_zero [] = 0"
| "recirculation_cycles was_zero (s # ss) =
     (if was_zero \<and> 0 < as_available s then 1 + recirculation_cycles False ss
      else if as_available s = 0 then recirculation_cycles True ss
      else recirculation_cycles was_zero ss)"

record recirculation =
  rc_cycles :: "nat option"
  rc_fraction :: "rat option"
  rc_variance :: "rat option"
  rc_mean :: "rat option"
  rc_sample_count :: "nat option"
  rc_raw_sample_count :: "nat option"

definition analyze_recirculation :: "availability_sample list \<Rightarrow> rat \<Rightarrow> rat option \<Rightarrow> recirculation" where
  "analyze_recirculation samples window_start window_end =
     (let windowed = filter (\<lambda>s. window_start \<le> as_elapsed s \<and>
            (case window_end of None \<Rightarrow> True | Some w \<Rightarrow> as_elapsed s < w)) samples;
          counts = map as_available windowed
      in case windowed of
           [] \<Rightarrow> \<lparr>rc_cycles = None, rc_fraction = None, rc_variance = None, rc_mean = None,
                    rc_sample_count = None, rc_raw_sample_count = None\<rparr>
         | s # ss \<Rightarrow>
             \<lparr>rc_cycles = Some (recirculation_cycles (as_available s = 0) ss),
              rc_fraction = Some (of_nat (length (filter (\<lambda>c. 0 < c) counts)) / of_nat (length counts)),
              rc_variance = variance_of (map of_nat counts), rc_mean = mean_of (map of_nat counts),
              rc_sample_count = Some (length windowed), rc_raw_sample_count = Some (length samples)\<rparr>)"

definition compute_seat_count_and_vus :: "int \<Rightarrow> int \<Rightarrow> int \<Rightarrow> int \<times> int" where
  "compute_seat_count_and_vus ratio base_vus seat_floor =
     (let naive_seat_count = max 1 (py_round (of_int base_vus / of_int ratio))
      in if seat_floor \<le> naive_seat_count then (naive_seat_count, base_vus) else (seat_floor, ratio * seat_floor))"

text \<open>Which cells of the recirculating sweep count.\<close>

record recirculating_run =
  rr_fraction_available :: "rat option"
  rr_steady :: "phase_stats option"

datatype exclusion = TransportFailures nat | NoSamples | BelowThreshold rat

definition cell_mean_fraction_available :: "recirculating_run list \<Rightarrow> rat option" where
  "cell_mean_fraction_available runs = mean_of (collect rr_fraction_available runs)"

definition cell_included :: "recirculating_run list \<Rightarrow> exclusion option" where
  "cell_included runs =
     (let failures = sum_list (map ph_transport_failures (List.map_filter rr_steady runs))
      in if 0 < failures then Some (TransportFailures failures)
         else case cell_mean_fraction_available runs of
             None \<Rightarrow> Some NoSamples
           | Some m \<Rightarrow> if m < 60 / 100 then Some (BelowThreshold m) else None)"

end
