(* ===== verification/Chaos.thy ===== *)
theory Chaos
  imports Benchmarks
begin

text \<open>
  The chaos harness, \<^verbatim>\<open>loadtest/chaos/harness.py\<close>, and the verdict of \<^verbatim>\<open>scenarios/sweeper_killed.py\<close>.

  A run is the list of what it does, in order: the injection, the recovery and the polls. The readings of
  the clock, the answers of the server to the polls and the requests k6 recorded are arguments.
\<close>

section \<open>The timeline\<close>

datatype chaos_phase = Steady_state | Injected | Post_recover

type_synonym outcome_counts = "string \<Rightarrow> string \<Rightarrow> nat"

record timeline_entry =
  te_elapsed :: rat
  te_phase :: chaos_phase
  te_all_passed :: bool
  te_invariants :: "(string \<times> bool) list"
  te_outcomes :: outcome_counts
  te_metrics :: "string \<rightharpoonup> rat"

text \<open>What a poll gets: the report of the invariants and the text of the metrics, where they could be fetched.\<close>

record poll_answer =
  pa_invariants :: "(bool \<times> (string \<times> bool) list) option"
  pa_metrics :: "string option"

definition entries_before :: "timeline_entry list \<Rightarrow> rat \<Rightarrow> timeline_entry list" where
  "entries_before ts t = filter (\<lambda>e. te_elapsed e < t) ts"

definition entries_between :: "timeline_entry list \<Rightarrow> rat \<Rightarrow> rat \<Rightarrow> timeline_entry list" where
  "entries_between ts a b = filter (\<lambda>e. a \<le> te_elapsed e \<and> te_elapsed e < b) ts"

definition entries_after :: "timeline_entry list \<Rightarrow> rat \<Rightarrow> timeline_entry list" where
  "entries_after ts t = filter (\<lambda>e. t \<le> te_elapsed e) ts"

definition total_outcomes :: "timeline_entry list \<Rightarrow> string \<Rightarrow> string \<Rightarrow> nat" where
  "total_outcomes entries kind category = sum_list (map (\<lambda>e. te_outcomes e kind category) entries)"

definition invariant_violations :: "timeline_entry list \<Rightarrow> timeline_entry list" where
  "invariant_violations ts = filter (\<lambda>e. \<not> te_all_passed e) ts"

section \<open>Outcomes\<close>

record outcome_event =
  oe_elapsed :: rat
  oe_kind :: string
  oe_category :: string

definition status_category :: "string \<Rightarrow> string" where
  "status_category s =
     (case py_int s of
        None \<Rightarrow> ''transport_error''
      | Some n \<Rightarrow>
          if n = 0 then ''transport_error'' else if 200 \<le> n \<and> n < 300 then ''2xx''
          else if n = 409 then ''409'' else if n = 500 then ''500'' else if n = 503 then ''503'' else ''other'')"

text \<open>\<open>bisect.bisect_left\<close>, the loop of the standard library.\<close>

function bisect_loop :: "rat list \<Rightarrow> rat \<Rightarrow> nat \<Rightarrow> nat \<Rightarrow> nat" where
  "bisect_loop xs x lo hi =
     (if lo < hi
      then (let mid = (lo + hi) div 2
            in if xs ! mid < x then bisect_loop xs x (mid + 1) hi else bisect_loop xs x lo mid)
      else lo)"
  by pat_completeness auto
termination by (relation "measure (\<lambda>(xs, x, lo, hi). hi - lo)") auto

declare bisect_loop.simps [simp del]

definition bisect_left :: "rat list \<Rightarrow> rat \<Rightarrow> nat" where
  "bisect_left xs x = bisect_loop xs x 0 (length xs)"

definition poll_of :: "rat list \<Rightarrow> rat \<Rightarrow> nat" where
  "poll_of boundaries x = (let i = bisect_left boundaries x in if i < length boundaries then i else length boundaries - 1)"

definition count_outcome :: "outcome_event \<Rightarrow> timeline_entry \<Rightarrow> timeline_entry" where
  "count_outcome ev e =
     e\<lparr>te_outcomes := (te_outcomes e)(oe_kind ev := (te_outcomes e (oe_kind ev))
         (oe_category ev := te_outcomes e (oe_kind ev) (oe_category ev) + 1))\<rparr>"

definition merge_outcomes_into_timeline :: "timeline_entry list \<Rightarrow> outcome_event list \<Rightarrow> timeline_entry list" where
  "merge_outcomes_into_timeline ts events =
     (if ts = [] then []
      else (let boundaries = map te_elapsed ts
            in fold (\<lambda>ev t. let i = poll_of boundaries (oe_elapsed ev) in t[i := count_outcome ev (t ! i)]) events ts))"

section \<open>A run\<close>

text \<open>
  A poll at an instant in seconds after the start; \<open>None\<close> if a value of the metrics is no number. The times of
  the timeline are rounded to milliseconds. Gauges replace counters of the same name.
\<close>

definition round_milli :: "rat \<Rightarrow> rat" where
  "round_milli x = of_int (py_round (x * 1000)) / 1000"

fun read_metrics :: "(string \<Rightarrow> rat option) \<Rightarrow> (string \<rightharpoonup> rat) \<Rightarrow> string list \<Rightarrow> (string \<rightharpoonup> rat) option" where
  "read_metrics read found [] = Some found"
| "read_metrics read found (name # names) =
     Option.bind (read name) (\<lambda>x. read_metrics read (found(name \<mapsto> x)) names)"

record chaos_config =
  cc_inject_at :: rat
  cc_recover_at :: rat
  cc_metric_names :: "string list"
  cc_gauge_names :: "string list"
  cc_post_recover :: rat

definition poll_once :: "chaos_config \<Rightarrow> chaos_phase \<Rightarrow> rat \<Rightarrow> poll_answer \<Rightarrow> timeline_entry option" where
  "poll_once cf phase elapsed ans =
     (let text = (case pa_metrics ans of None \<Rightarrow> [] | Some t \<Rightarrow> t);
          (passed, results) = (case pa_invariants ans of None \<Rightarrow> (False, [(''unreachable'', False)]) | Some r \<Rightarrow> r)
      in Option.bind (read_metrics (parse_counter_total text) Map.empty (cc_metric_names cf)) (\<lambda>counters.
         Option.bind (read_metrics (parse_counter_value text) counters (cc_gauge_names cf)) (\<lambda>metrics.
           Some \<lparr>te_elapsed = round_milli elapsed, te_phase = phase, te_all_passed = passed, te_invariants = results,
                 te_outcomes = (\<lambda>_ _. 0), te_metrics = metrics\<rparr>)))"

datatype chaos_step = Inject | Recover | Polled timeline_entry

text \<open>
  The loop while k6 runs, one element of the list for every turn. It leaves what was injected and recovered,
  or \<open>None\<close> where an exception left it.
\<close>

fun poll_loop :: "chaos_config \<Rightarrow> bool \<Rightarrow> bool \<Rightarrow> (rat \<times> poll_answer) list \<Rightarrow> chaos_step list \<times> (bool \<times> bool) option" where
  "poll_loop cf injected recovered [] = ([], Some (injected, recovered))"
| "poll_loop cf injected recovered ((elapsed, ans) # turns) =
     (let injects = (\<not> injected \<and> cc_inject_at cf \<le> elapsed);
          injected' = (injected \<or> injects);
          recovers = (injected' \<and> \<not> recovered \<and> cc_recover_at cf \<le> elapsed);
          recovered' = (recovered \<or> recovers);
          phase = (if recovered' then Post_recover else if injected' then Injected else Steady_state);
          acts = (if injects then [Inject] else []) @ (if recovers then [Recover] else [])
      in case poll_once cf phase elapsed ans of
           None \<Rightarrow> (acts, None)
         | Some e \<Rightarrow>
             (let (steps, flags) = poll_loop cf injected' recovered' turns in (acts @ Polled e # steps, flags)))"

text \<open>The polls after the recovery, each with the reading of the clock the loop condition made before it.\<close>

fun recovery_loop :: "chaos_config \<Rightarrow> rat \<Rightarrow> (rat \<times> rat \<times> poll_answer) list \<Rightarrow> chaos_step list \<times> bool" where
  "recovery_loop cf deadline [] = ([], True)"
| "recovery_loop cf deadline ((clock, elapsed, ans) # turns) =
     (if clock < deadline
      then (case poll_once cf Post_recover elapsed ans of
              None \<Rightarrow> ([], False)
            | Some e \<Rightarrow> (let (steps, ok) = recovery_loop cf deadline turns in (Polled e # steps, ok)))
      else ([], True))"

definition finish_run :: "chaos_config \<Rightarrow> bool \<times> bool \<Rightarrow> rat \<times> poll_answer \<Rightarrow> chaos_step list \<times> bool" where
  "finish_run cf flags late =
     (let (injected, recovered) = flags
      in if recovered then ([], True)
         else (case poll_once cf Post_recover (fst late) (snd late) of
                 None \<Rightarrow> ((if injected then [] else [Inject]) @ [Recover], False)
               | Some e \<Rightarrow> ((if injected then [] else [Inject]) @ [Recover, Polled e], True)))"

definition timeline_of :: "chaos_step list \<Rightarrow> timeline_entry list" where
  "timeline_of steps = List.map_filter (\<lambda>s. case s of Polled e \<Rightarrow> Some e | _ \<Rightarrow> None) steps"

definition run_chaos_scenario :: "chaos_config \<Rightarrow> (rat \<times> poll_answer) list \<Rightarrow> rat \<times> poll_answer \<Rightarrow> rat \<Rightarrow>
    (rat \<times> rat \<times> poll_answer) list \<Rightarrow> outcome_event list \<Rightarrow> chaos_step list \<times> timeline_entry list option" where
  "run_chaos_scenario cf turns late k6_ended recovery events =
     (case poll_loop cf False False turns of
        (steps, None) \<Rightarrow> (steps, None)
      | (steps, Some flags) \<Rightarrow>
          (case finish_run cf flags late of
             (steps', False) \<Rightarrow> (steps @ steps', None)
           | (steps', True) \<Rightarrow>
               (case recovery_loop cf (k6_ended + cc_post_recover cf) recovery of
                  (steps'', False) \<Rightarrow> (steps @ steps' @ steps'', None)
                | (steps'', True) \<Rightarrow>
                    (steps @ steps' @ steps'',
                     Some (merge_outcomes_into_timeline (timeline_of (steps @ steps' @ steps'')) events)))))"

section \<open>The verdict on a killed sweeper\<close>

text \<open>\<open>reserved\<close> seats are marked stale at the injection; nothing but a sweeper can clear them.\<close>

definition sweeper_gauge :: "timeline_entry \<Rightarrow> rat" where
  "sweeper_gauge e = (case te_metrics e ''sweeper_backlog'' of None \<Rightarrow> 0 | Some x \<Rightarrow> x)"

definition rose_and_stayed :: "rat \<Rightarrow> rat list \<Rightarrow> bool" where
  "rose_and_stayed reserved gauge \<longleftrightarrow>
     gauge \<noteq> [] \<and> reserved \<le> Max (set gauge) \<and>
     \<not> list_ex (\<lambda>v. v < reserved) (dropWhile (\<lambda>v. v < reserved) gauge)"

definition sweeper_killed_passed :: "chaos_config \<Rightarrow> rat \<Rightarrow> timeline_entry list \<Rightarrow> bool" where
  "sweeper_killed_passed cf reserved ts \<longleftrightarrow>
     (let during = entries_between ts (cc_inject_at cf) (cc_recover_at cf);
          after = entries_after ts (cc_recover_at cf)
      in invariant_violations ts = [] \<and>
         total_outcomes during ''hold'' ''2xx'' \<noteq> 0 \<and>
         rose_and_stayed reserved (map sweeper_gauge during) \<and>
         list_ex (\<lambda>e. sweeper_gauge e = 0) after)"

section \<open>The order of a run\<close>

text \<open>The run as a machine of three states; a poll must report the state it is made in.\<close>

fun stage :: "chaos_phase \<Rightarrow> chaos_step \<Rightarrow> chaos_phase option" where
  "stage Steady_state Inject = Some Injected"
| "stage Injected Recover = Some Post_recover"
| "stage p (Polled e) = (if te_phase e = p then Some p else None)"
| "stage _ _ = None"

fun stages :: "chaos_phase \<Rightarrow> chaos_step list \<Rightarrow> chaos_phase option" where
  "stages p [] = Some p"
| "stages p (s # ss) = Option.bind (stage p s) (\<lambda>q. stages q ss)"

fun is_action :: "chaos_step \<Rightarrow> bool" where
  "is_action (Polled e) = False"
| "is_action _ = True"

fun phase_of :: "bool \<Rightarrow> bool \<Rightarrow> chaos_phase" where
  "phase_of injected recovered = (if recovered then Post_recover else if injected then Injected else Steady_state)"

lemma stages_append: "stages p (xs @ ys) = Option.bind (stages p xs) (\<lambda>q. stages q ys)"
  by (induction xs arbitrary: p) (auto split: Option.bind_split)

lemma stages_append_Some: "stages p xs = Some q \<Longrightarrow> stages p (xs @ ys) = stages q ys"
  by (simp add: stages_append)

lemma poll_phase: "poll_once cf p t ans = Some e \<Longrightarrow> te_phase e = p \<and> te_elapsed e = round_milli t"
  by (auto simp: poll_once_def Let_def bind_eq_Some_conv split: prod.splits)

lemma stage_poll [simp]: "te_phase e = p \<Longrightarrow> stage p (Polled e) = Some p"
  by (cases p) auto

lemma timeline_of_simps [simp]:
  "timeline_of [] = []" "timeline_of (Inject # ss) = timeline_of ss" "timeline_of (Recover # ss) = timeline_of ss"
  "timeline_of (Polled e # ss) = e # timeline_of ss" "timeline_of (ss @ ss') = timeline_of ss @ timeline_of ss'"
  by (simp_all add: timeline_of_def map_filter_simps) (simp add: List.map_filter_def)

text \<open>One turn of the loop: what it does before its poll, and the rest.\<close>

lemma poll_loop_Cons:
  assumes "poll_loop cf injected recovered ((elapsed, ans) # turns) = (steps, flags)" "recovered \<longrightarrow> injected"
  obtains (stops) acts i r where "steps = acts" "flags = None" "r \<longrightarrow> i"
      "stages (phase_of injected recovered) acts = Some (phase_of i r)"
  | (continues) acts i r e log where "steps = acts @ Polled e # log" "poll_loop cf i r turns = (log, flags)" "r \<longrightarrow> i"
      "stages (phase_of injected recovered) acts = Some (phase_of i r)" "timeline_of acts = []"
      "poll_once cf (phase_of i r) elapsed ans = Some e"
proof -
  define injects where "injects \<longleftrightarrow> \<not> injected \<and> cc_inject_at cf \<le> elapsed"
  define i where "i \<longleftrightarrow> injected \<or> injects"
  define recovers where "recovers \<longleftrightarrow> i \<and> \<not> recovered \<and> cc_recover_at cf \<le> elapsed"
  define r where "r \<longleftrightarrow> recovered \<or> recovers"
  define acts where "acts = (if injects then [Inject] else []) @ (if recovers then [Recover] else [])"
  have ri: "r \<longrightarrow> i" using assms(2) by (auto simp: r_def recovers_def i_def)
  have acts: "stages (phase_of injected recovered) acts = Some (phase_of i r)"
    using assms(2) by (auto simp: acts_def r_def recovers_def i_def injects_def)
  have quiet: "timeline_of acts = []" by (simp add: acts_def)
  have step: "(case poll_once cf (phase_of i r) elapsed ans of
       None \<Rightarrow> (acts, None)
     | Some e \<Rightarrow> (let (log, flags) = poll_loop cf i r turns in (acts @ Polled e # log, flags))) = (steps, flags)"
    using assms(1) unfolding poll_loop.simps Let_def phase_of.simps injects_def [symmetric] i_def [symmetric]
      recovers_def [symmetric] r_def [symmetric] acts_def [symmetric] .
  show thesis
  proof (cases "poll_once cf (phase_of i r) elapsed ans")
    case None
    then show ?thesis using stops step acts ri by auto
  next
    case (Some e)
    obtain log flags' where rest: "poll_loop cf i r turns = (log, flags')" by fastforce
    then show ?thesis using continues [of acts e log i r] step Some acts ri quiet by simp
  qed
qed

lemma poll_loop_stages:
  assumes "poll_loop cf injected recovered turns = (steps, flags)" "recovered \<longrightarrow> injected"
  shows "\<exists>i r. stages (phase_of injected recovered) steps = Some (phase_of i r) \<and> (r \<longrightarrow> i) \<and>
    (flags = None \<or> flags = Some (i, r))"
  using assms
proof (induction turns arbitrary: injected recovered steps flags)
  case (Cons turn turns)
  obtain elapsed ans where turn: "turn = (elapsed, ans)" by fastforce
  show ?case
    using Cons.prems(1) [unfolded turn] Cons.prems(2)
  proof (cases rule: poll_loop_Cons)
    case (stops acts i r)
    then show ?thesis by blast
  next
    case (continues acts i r e log)
    have "stages (phase_of i r) (Polled e # log) = stages (phase_of i r) log"
      using poll_phase [OF continues(6)] by simp
    then show ?thesis
      using Cons.IH [OF continues(2,3)] stages_append_Some [OF continues(4)] continues(1) by metis
  qed
qed simp

lemma recovery_loop_stages: "stages Post_recover (fst (recovery_loop cf deadline turns)) = Some Post_recover"
proof (induction turns)
  case (Cons turn turns)
  then show ?case
    by (cases turn) (auto simp: case_prod_beta Let_def dest!: poll_phase split: option.splits)
qed simp

lemma finish_run_stages:
  assumes "finish_run cf (i, r) late = (steps, ok)" "r \<longrightarrow> i"
  shows "stages (phase_of i r) steps = Some Post_recover"
  using assms by (auto simp: finish_run_def split: option.splits if_splits dest!: poll_phase)

lemma run_stages:
  assumes "run_chaos_scenario cf turns late k6_ended recovery events = (steps, result)"
  shows "\<exists>p. stages Steady_state steps = Some p \<and> (result \<noteq> None \<longrightarrow> p = Post_recover)"
proof -
  obtain log flags where loop: "poll_loop cf False False turns = (log, flags)" by fastforce
  obtain i r where log: "stages Steady_state log = Some (phase_of i r)" "r \<longrightarrow> i" and flags: "flags = None \<or> flags = Some (i, r)"
    using poll_loop_stages [OF loop] by auto
  show ?thesis
  proof (cases flags)
    case None
    then show ?thesis using assms loop log by (auto simp: run_chaos_scenario_def)
  next
    case (Some fl)
    with flags have fl: "flags = Some (i, r)" by simp
    obtain log' ok' where fin: "finish_run cf (i, r) late = (log', ok')" by fastforce
    obtain log'' ok'' where rec: "recovery_loop cf (k6_ended + cc_post_recover cf) recovery = (log'', ok'')" by fastforce
    have "stages Steady_state (log @ log') = Some Post_recover"
      using stages_append_Some [OF log(1)] finish_run_stages [OF fin log(2)] by simp
    moreover have "stages Steady_state (log @ log' @ log'') = Some Post_recover"
      using stages_append_Some [OF calculation] recovery_loop_stages [of cf "k6_ended + cc_post_recover cf" recovery] rec
      by simp
    ultimately show ?thesis
      using assms loop fl fin rec by (auto simp: run_chaos_scenario_def split: bool.splits)
  qed
qed

fun rank :: "chaos_phase \<Rightarrow> nat" where
  "rank Steady_state = 0"
| "rank Injected = 1"
| "rank Post_recover = 2"

lemma stage_rank: "stage p s = Some q \<Longrightarrow> rank p \<le> rank q"
  by (cases s; cases p) (auto split: if_splits)

lemma stages_rank: "stages p ss = Some q \<Longrightarrow> rank p \<le> rank q"
  by (induction ss arbitrary: p) (fastforce simp: bind_eq_Some_conv dest: stage_rank intro: order_trans)+

lemma stages_actions:
  "stages p steps = Some q \<Longrightarrow>
     filter is_action steps =
       (case (p, q) of
          (Steady_state, Injected) \<Rightarrow> [Inject]
        | (Steady_state, Post_recover) \<Rightarrow> [Inject, Recover]
        | (Injected, Post_recover) \<Rightarrow> [Recover]
        | _ \<Rightarrow> [])"
proof (induction steps arbitrary: p)
  case Nil
  then show ?case by (cases p) auto
next
  case (Cons s ss)
  then obtain p' where s: "stage p s = Some p'" and ss: "stages p' ss = Some q"
    by (auto simp: bind_eq_Some_conv)
  have not_back: "stages Injected ss \<noteq> Some Steady_state" "stages Post_recover ss \<noteq> Some Steady_state"
    "stages Post_recover ss \<noteq> Some Injected"
    using stages_rank [OF ss] stages_rank by fastforce+
  show ?case
    using Cons.IH [OF ss] s ss not_back
    by (cases s; cases p; cases q) (auto split: if_splits)
qed

section \<open>Where an outcome is counted\<close>

lemma bisect_loop_spec:
  assumes "sorted xs" "lo \<le> hi" "hi \<le> length xs" "\<forall>k < lo. xs ! k < x" "\<forall>k < length xs. hi \<le> k \<longrightarrow> x \<le> xs ! k"
  shows "bisect_loop xs x lo hi \<le> length xs \<and> (\<forall>k < bisect_loop xs x lo hi. xs ! k < x) \<and>
    (\<forall>k < length xs. bisect_loop xs x lo hi \<le> k \<longrightarrow> x \<le> xs ! k)"
  using assms
proof (induction xs x lo hi rule: bisect_loop.induct)
  case (1 xs x lo hi)
  show ?case
  proof (cases "lo < hi")
    case False
    then have "bisect_loop xs x lo hi = lo" by (simp add: bisect_loop.simps [of xs x lo hi])
    then show ?thesis using "1.prems" False by simp
  next
    case True
    define mid where "mid = (lo + hi) div 2"
    have mid: "lo \<le> mid" "mid < hi" "mid < length xs" using True "1.prems"(3) by (auto simp: mid_def)
    show ?thesis
    proof (cases "xs ! mid < x")
      case below: True
      have "xs ! k \<le> xs ! mid" if "k < mid + 1" for k
        using sorted_nth_mono [OF "1.prems"(1), of k mid] that mid(3) by simp
      then have low: "\<forall>k < mid + 1. xs ! k < x" using below by fastforce
      have "bisect_loop xs x lo hi = bisect_loop xs x (mid + 1) hi"
        using True below by (simp add: bisect_loop.simps [of xs x lo hi] Let_def mid_def [symmetric])
      then show ?thesis
        using "1.IH"(1) [OF True mid_def below "1.prems"(1) _ "1.prems"(3) low "1.prems"(5)] mid by simp
    next
      case above: False
      have high: "\<forall>k < length xs. mid \<le> k \<longrightarrow> x \<le> xs ! k"
        using above "1.prems"(1) by (meson not_less order_trans sorted_nth_mono)
      have "bisect_loop xs x lo hi = bisect_loop xs x lo mid"
        using True above by (simp add: bisect_loop.simps [of xs x lo hi] Let_def mid_def [symmetric])
      then show ?thesis
        using "1.IH"(2) [OF True mid_def above "1.prems"(1) mid(1) _ "1.prems"(4) high] mid by simp
    qed
  qed
qed

lemma bisect_left_spec:
  assumes "sorted xs"
  shows "bisect_left xs x \<le> length xs" "k < bisect_left xs x \<Longrightarrow> xs ! k < x"
    "k < length xs \<Longrightarrow> bisect_left xs x \<le> k \<Longrightarrow> x \<le> xs ! k"
  using bisect_loop_spec [OF assms, of 0 "length xs" x] by (auto simp: bisect_left_def)

lemma poll_of_less: "xs \<noteq> [] \<Longrightarrow> poll_of xs x < length xs"
  by (auto simp: poll_of_def Let_def)

definition same_count :: "string \<Rightarrow> string \<Rightarrow> outcome_event \<Rightarrow> bool" where
  "same_count kind category ev \<longleftrightarrow> oe_kind ev = kind \<and> oe_category ev = category"

lemma count_outcome_simps [simp]:
  "te_elapsed (count_outcome ev e) = te_elapsed e" "te_phase (count_outcome ev e) = te_phase e"
  "te_all_passed (count_outcome ev e) = te_all_passed e" "te_metrics (count_outcome ev e) = te_metrics e"
  by (simp_all add: count_outcome_def)

lemma count_outcome_outcomes:
  "te_outcomes (count_outcome ev e) kind category =
     te_outcomes e kind category + (if same_count kind category ev then 1 else 0)"
  by (auto simp: count_outcome_def same_count_def)

abbreviation merge_step :: "rat list \<Rightarrow> outcome_event \<Rightarrow> timeline_entry list \<Rightarrow> timeline_entry list" where
  "merge_step bs ev t \<equiv> t[poll_of bs (oe_elapsed ev) := count_outcome ev (t ! poll_of bs (oe_elapsed ev))]"

lemma merge_step_nth:
  assumes "k < length t"
  shows "te_elapsed (merge_step bs ev t ! k) = te_elapsed (t ! k)"
    and "te_outcomes (merge_step bs ev t ! k) kind category =
      te_outcomes (t ! k) kind category +
        (if poll_of bs (oe_elapsed ev) = k \<and> same_count kind category ev then 1 else 0)"
  using assms by (cases "poll_of bs (oe_elapsed ev) = k"; simp add: count_outcome_outcomes)+

lemma merge_nth:
  assumes "k < length t"
  shows "length (fold (merge_step bs) events t) = length t"
    and "te_elapsed (fold (merge_step bs) events t ! k) = te_elapsed (t ! k)"
    and "te_outcomes (fold (merge_step bs) events t ! k) kind category =
      te_outcomes (t ! k) kind category +
        length (filter (\<lambda>ev. poll_of bs (oe_elapsed ev) = k \<and> same_count kind category ev) events)"
  using assms
  by (induction events arbitrary: t) (simp_all add: merge_step_nth)

text \<open>The poll that sees an outcome: the first one not before it, or the last one.\<close>

definition observed :: "timeline_entry list \<Rightarrow> rat \<Rightarrow> rat" where
  "observed ts x = (case find (\<lambda>t. x \<le> t) (map te_elapsed ts) of Some t \<Rightarrow> t | None \<Rightarrow> te_elapsed (last ts))"

lemma poll_of_observed:
  assumes "ts \<noteq> []" "sorted (map te_elapsed ts)"
  shows "te_elapsed (ts ! poll_of (map te_elapsed ts) x) = observed ts x"
proof -
  let ?xs = "map te_elapsed ts"
  let ?i = "bisect_left ?xs x"
  note spec = bisect_left_spec [OF assms(2), where x = x]
  show ?thesis
  proof (cases "?i < length ?xs")
    case True
    then have "find (\<lambda>t. x \<le> t) ?xs = Some (?xs ! ?i)"
      using spec by (auto simp: find_Some_iff intro!: exI [of _ ?i] simp flip: not_le)
    then show ?thesis using True by (simp add: poll_of_def Let_def observed_def)
  next
    case False
    then have "\<forall>t \<in> set ?xs. t < x" using spec(2) by (metis in_set_conv_nth less_le_trans not_less)
    then have "find (\<lambda>t. x \<le> t) ?xs = None" by (auto simp: find_None_iff)
    then show ?thesis using False assms(1) by (simp add: poll_of_def Let_def observed_def last_conv_nth)
  qed
qed

lemma sum_filter_nth:
  "sum_list (map f (filter P xs)) = (\<Sum>k < length xs. if P (xs ! k) then f (xs ! k) else (0 :: nat))"
proof (induction xs)
  case (Cons x xs)
  then show ?case by (simp add: sum.lessThan_Suc_shift del: sum.lessThan_Suc cong: if_cong)
qed simp

lemma sum_events:
  assumes "\<forall>ev \<in> set evs. p ev < (n :: nat)"
  shows "(\<Sum>k < n. if Q k then length (filter (\<lambda>ev. p ev = k \<and> S ev) evs) else 0) =
    length (filter (\<lambda>ev. Q (p ev) \<and> S ev) evs)"
  using assms
proof (induction evs)
  case (Cons ev evs)
  have "(if Q k then length (filter (\<lambda>ev. p ev = k \<and> S ev) (ev # evs)) else 0) =
      (if Q k then length (filter (\<lambda>ev. p ev = k \<and> S ev) evs) else 0) + (if k = p ev then (if Q (p ev) \<and> S ev then 1 else 0) else 0)" for k
    by auto
  moreover have "(\<Sum>k < n. if k = p ev then c else 0) = c" for c :: nat
    using Cons.prems by (subst sum.delta) auto
  ultimately show ?case using Cons by (simp add: sum.distrib)
qed simp

lemma merge_window:
  assumes "ts \<noteq> []" "sorted (map te_elapsed ts)" "\<forall>e \<in> set ts. te_outcomes e kind category = 0"
  shows "total_outcomes (filter (\<lambda>e. W (te_elapsed e)) (merge_outcomes_into_timeline ts events)) kind category =
    length (filter (\<lambda>ev. W (observed ts (oe_elapsed ev)) \<and> same_count kind category ev) events)"
proof -
  let ?bs = "map te_elapsed ts"
  let ?m = "fold (merge_step ?bs) events ts"
  have len: "length ?m = length ts" using merge_nth(1) [of 0 ts] assms(1) by simp
  have entry: "te_elapsed (?m ! k) = te_elapsed (ts ! k)"
    "te_outcomes (?m ! k) kind category =
       length (filter (\<lambda>ev. poll_of ?bs (oe_elapsed ev) = k \<and> same_count kind category ev) events)"
    if "k < length ts" for k
    using merge_nth(2,3) [OF that] assms(3) that by simp_all
  have "total_outcomes (filter (\<lambda>e. W (te_elapsed e)) ?m) kind category =
    (\<Sum>k < length ts. if W (te_elapsed (ts ! k))
       then length (filter (\<lambda>ev. poll_of ?bs (oe_elapsed ev) = k \<and> same_count kind category ev) events) else 0)"
    unfolding total_outcomes_def sum_filter_nth len by (rule sum.cong) (simp_all add: entry)
  also have "\<dots> = length (filter (\<lambda>ev. W (te_elapsed (ts ! poll_of ?bs (oe_elapsed ev))) \<and> same_count kind category ev) events)"
    using poll_of_less [of ?bs] assms(1) by (intro sum_events) simp
  finally show ?thesis
    using assms(1) poll_of_observed [OF assms(1,2)] by (simp add: merge_outcomes_into_timeline_def Let_def)
qed

lemma py_round_mono: "x \<le> y \<Longrightarrow> py_round x \<le> py_round y"
proof (cases "\<lfloor>x\<rfloor> = \<lfloor>y\<rfloor>")
  case True
  moreover assume "x \<le> y"
  ultimately show ?thesis by (auto simp: py_round_def Let_def)
next
  case False
  assume "x \<le> y"
  with False have "\<lfloor>x\<rfloor> + 1 \<le> \<lfloor>y\<rfloor>" using floor_mono [of x y] by linarith
  moreover have "py_round x \<le> \<lfloor>x\<rfloor> + 1" "\<lfloor>y\<rfloor> \<le> py_round y" by (simp_all add: py_round_def Let_def)
  ultimately show ?thesis by linarith
qed

lemma round_milli_mono: "x \<le> y \<Longrightarrow> round_milli x \<le> round_milli y"
  by (simp add: round_milli_def divide_right_mono py_round_mono)

lemma sorted_round_milli: "sorted xs \<Longrightarrow> sorted (map round_milli xs)"
  by (induction xs) (auto intro: round_milli_mono)

lemma poll_once_fresh: "poll_once cf p t ans = Some e \<Longrightarrow> te_outcomes e = (\<lambda>_ _. 0)"
  by (auto simp: poll_once_def Let_def bind_eq_Some_conv split: prod.splits)

lemma poll_loop_timeline:
  assumes "poll_loop cf i r turns = (steps, flags)" "r \<longrightarrow> i" "flags = Some fl"
  shows "map te_elapsed (timeline_of steps) = map (round_milli \<circ> fst) turns \<and>
    (\<forall>e \<in> set (timeline_of steps). te_outcomes e = (\<lambda>_ _. 0)) \<and> (snd fl \<longrightarrow> r \<or> turns \<noteq> [])"
  using assms
proof (induction turns arbitrary: i r steps)
  case (Cons turn turns)
  obtain elapsed ans where turn: "turn = (elapsed, ans)" by fastforce
  show ?case
    using Cons.prems(1) [unfolded turn] Cons.prems(2)
  proof (cases rule: poll_loop_Cons)
    case (stops acts i' r')
    then show ?thesis using Cons.prems(3) by simp
  next
    case (continues acts i' r' e log)
    then show ?thesis
      using Cons.IH [OF continues(2,3) Cons.prems(3)] poll_phase [OF continues(6)] poll_once_fresh [OF continues(6)]
      by (auto simp: turn)
  qed
qed auto

lemma recovery_loop_timeline:
  assumes "recovery_loop cf deadline turns = (steps, True)"
  shows "(\<exists>n. map te_elapsed (timeline_of steps) = map (round_milli \<circ> fst \<circ> snd) (take n turns)) \<and>
    (\<forall>e \<in> set (timeline_of steps). te_outcomes e = (\<lambda>_ _. 0))"
  using assms
proof (induction turns arbitrary: steps)
  case (Cons turn turns)
  obtain clock elapsed ans where turn: "turn = (clock, elapsed, ans)" by (cases turn) auto
  show ?case
  proof (cases "clock < deadline")
    case True
    then obtain e log where e: "poll_once cf Post_recover elapsed ans = Some e"
      and rest: "recovery_loop cf deadline turns = (log, True)" "steps = Polled e # log"
      using Cons.prems by (auto simp: turn Let_def case_prod_beta prod_eq_iff split: option.splits)
    obtain n where "map te_elapsed (timeline_of log) = map (round_milli \<circ> fst \<circ> snd) (take n turns)"
      and fresh: "\<forall>e \<in> set (timeline_of log). te_outcomes e = (\<lambda>_ _. 0)"
      using Cons.IH [OF rest(1)] by blast
    then have "map te_elapsed (timeline_of steps) = map (round_milli \<circ> fst \<circ> snd) (take (Suc n) (turn # turns))"
      using poll_phase [OF e] rest(2) turn by simp
    then show ?thesis using fresh poll_once_fresh [OF e] rest(2) by (metis (no_types, lifting) set_ConsD timeline_of_simps(4))
  next
    case False
    then have "steps = []" using Cons.prems by (simp add: turn)
    then show ?thesis by (intro conjI exI [of _ 0]) simp_all
  qed
qed auto

text \<open>The instants at which a run can poll, in the order of the code.\<close>

definition poll_times :: "(rat \<times> poll_answer) list \<Rightarrow> rat \<times> poll_answer \<Rightarrow> (rat \<times> rat \<times> poll_answer) list \<Rightarrow> rat list" where
  "poll_times turns late recovery = map fst turns @ fst late # map (fst \<circ> snd) recovery"

lemma run_timeline:
  assumes "run_chaos_scenario cf turns late k6_ended recovery events = (steps, Some ts)"
    and "sorted (poll_times turns late recovery)"
  shows "ts = merge_outcomes_into_timeline (timeline_of steps) events" "timeline_of steps \<noteq> []"
    "sorted (map te_elapsed (timeline_of steps))" "\<forall>e \<in> set (timeline_of steps). te_outcomes e = (\<lambda>_ _. 0)"
proof -
  obtain log i r where loop: "poll_loop cf False False turns = (log, Some (i, r))"
    using assms(1) by (auto simp: run_chaos_scenario_def split: prod.splits option.splits)
  obtain log' where fin: "finish_run cf (i, r) late = (log', True)"
    using assms(1) loop by (auto simp: run_chaos_scenario_def split: prod.splits bool.splits)
  obtain log'' where rec: "recovery_loop cf (k6_ended + cc_post_recover cf) recovery = (log'', True)"
    and steps: "steps = log @ log' @ log''" and ts: "ts = merge_outcomes_into_timeline (timeline_of steps) events"
    using assms(1) loop fin by (auto simp: run_chaos_scenario_def split: prod.splits bool.splits)
  from ts show "ts = merge_outcomes_into_timeline (timeline_of steps) events" .
  note first = poll_loop_timeline [OF loop _ refl, simplified]
  obtain n where last: "map te_elapsed (timeline_of log'') = map (round_milli \<circ> fst \<circ> snd) (take n recovery)"
    "\<forall>e \<in> set (timeline_of log''). te_outcomes e = (\<lambda>_ _. 0)"
    using recovery_loop_timeline [OF rec] by blast
  have middle: "map te_elapsed (timeline_of log') = (if r then [] else [round_milli (fst late)]) \<and>
    (\<forall>e \<in> set (timeline_of log'). te_outcomes e = (\<lambda>_ _. 0))"
    using fin by (auto simp: finish_run_def split: if_splits option.splits dest: poll_phase poll_once_fresh)
  show "\<forall>e \<in> set (timeline_of steps). te_outcomes e = (\<lambda>_ _. 0)"
    using first middle last(2) steps by auto
  have times: "map te_elapsed (timeline_of steps) =
    map round_milli (map fst turns @ (if r then [] else [fst late]) @ map (fst \<circ> snd) (take n recovery))"
    using first middle last(1) steps by simp
  have "sorted (map (fst \<circ> snd) (take n recovery))"
    using assms(2) by (simp add: poll_times_def sorted_append sorted_wrt_take flip: take_map)
  then have "sorted (map fst turns @ (if r then [] else [fst late]) @ map (fst \<circ> snd) (take n recovery))"
    using assms(2) by (auto simp: poll_times_def sorted_append dest: in_set_takeD)
  then show "sorted (map te_elapsed (timeline_of steps))" unfolding times by (rule sorted_round_milli)
  have "map te_elapsed (timeline_of steps) \<noteq> []" unfolding times using first by auto
  then show "timeline_of steps \<noteq> []" by auto
qed

section \<open>What a run guarantees\<close>

text \<open>
  A chaos run injects its fault at most once and recovers at most once, in this order, and every poll reports the
  phase it was made in; a run that ends has done both, even if k6 stopped before either was due.
\<close>

theorem chaos_injects_and_recovers_once:
  assumes "run_chaos_scenario cf turns late k6_ended recovery events = (steps, result)"
  shows "(\<exists>p. stages Steady_state steps = Some p) \<and> filter is_action steps \<in> {[], [Inject], [Inject, Recover]} \<and>
    (result \<noteq> None \<longrightarrow> stages Steady_state steps = Some Post_recover \<and> filter is_action steps = [Inject, Recover])"
proof -
  from run_stages [OF assms] obtain p where p: "stages Steady_state steps = Some p" "result \<noteq> None \<longrightarrow> p = Post_recover"
    by blast
  then have "filter is_action steps \<in> {[], [Inject], [Inject, Recover]}"
    using stages_actions [OF p(1)] by (cases p) auto
  moreover have "filter is_action steps = [Inject, Recover]" if "result \<noteq> None"
    using stages_actions [OF p(1)] p(2) that by simp
  ultimately show ?thesis using p by blast
qed

definition sample_chaos :: chaos_config where
  "sample_chaos = \<lparr>cc_inject_at = 15, cc_recover_at = 45, cc_metric_names = [], cc_gauge_names = [''sweeper_backlog''],
     cc_post_recover = 30\<rparr>"

definition healthy_answer :: "string \<Rightarrow> poll_answer" where
  "healthy_answer backlog = \<lparr>pa_invariants = Some (True, [(''conservation'', True)]),
     pa_metrics = Some (''sweeper_backlog '' @ backlog @ [CHR 0x0A])\<rparr>"

definition sample_outcome :: "rat \<Rightarrow> outcome_event" where
  "sample_outcome t = \<lparr>oe_elapsed = t, oe_kind = ''hold'', oe_category = status_category ''201''\<rparr>"

definition sample_run :: "chaos_step list \<times> timeline_entry list option" where
  "sample_run = run_chaos_scenario sample_chaos
     [(10, healthy_answer ''0.0''), (20, healthy_answer ''5.0''), (30, healthy_answer ''5.0'')] (46, healthy_answer ''5.0'') 46
     [(46, 47, healthy_answer ''0.0''), (80, 80, healthy_answer ''0.0'')] [sample_outcome 12]"

lemma sample_run_ends: "map_option (map te_elapsed) (snd sample_run) = Some [10, 20, 30, 46, 47]"
  unfolding sample_run_def by code_simp

lemma chaos_injects_and_recovers_once_witness:
  "snd sample_run \<noteq> None \<and> filter is_action (fst sample_run) = [Inject, Recover]"
  using chaos_injects_and_recovers_once [of sample_chaos
      "[(10, healthy_answer ''0.0''), (20, healthy_answer ''5.0''), (30, healthy_answer ''5.0'')]" "(46, healthy_answer ''5.0'')" 46
      "[(46, 47, healthy_answer ''0.0''), (80, 80, healthy_answer ''0.0'')]" "[sample_outcome 12]" "fst sample_run" "snd sample_run"]
    sample_run_ends
  by (auto simp: sample_run_def)

text \<open>
  Every outcome k6 recorded is counted in exactly one poll: the count of a kind and category over a window of
  the timeline is the number of recorded outcomes whose first poll at or after them (the last poll, if there is
  none) lies in the window.
\<close>

theorem outcomes_counted_once:
  assumes "run_chaos_scenario cf turns late k6_ended recovery events = (steps, Some ts)"
    and "sorted (poll_times turns late recovery)"
  shows "total_outcomes (entries_between ts a b) kind category =
      length (filter (\<lambda>ev. a \<le> observed (timeline_of steps) (oe_elapsed ev) \<and> observed (timeline_of steps) (oe_elapsed ev) < b \<and>
        same_count kind category ev) events) \<and>
    total_outcomes ts kind category = length (filter (same_count kind category) events)"
proof -
  note tl = run_timeline [OF assms]
  note window = merge_window [OF tl(2,3), of kind category _ events, folded tl(1)]
  show ?thesis
    using window [of "\<lambda>t. a \<le> t \<and> t < b"] window [of "\<lambda>_. True"] tl(4) by (simp add: entries_between_def)
qed

lemma outcomes_counted_once_witness:
  "\<exists>ts. snd sample_run = Some ts \<and> total_outcomes ts ''hold'' ''2xx'' = 1"
proof -
  obtain ts where ts: "snd sample_run = Some ts" using sample_run_ends by blast
  have "run_chaos_scenario sample_chaos
      [(10, healthy_answer ''0.0''), (20, healthy_answer ''5.0''), (30, healthy_answer ''5.0'')] (46, healthy_answer ''5.0'') 46
      [(46, 47, healthy_answer ''0.0''), (80, 80, healthy_answer ''0.0'')] [sample_outcome 12] = (fst sample_run, Some ts)"
    using ts by (simp add: prod_eq_iff flip: sample_run_def)
  from outcomes_counted_once [OF this, of 0 0 "''hold''" "''2xx''"]
  have "total_outcomes ts ''hold'' ''2xx'' = length (filter (same_count ''hold'' ''2xx'') [sample_outcome 12])"
    by (simp add: poll_times_def)
  moreover have "same_count ''hold'' ''2xx'' (sample_outcome 12)" by code_simp
  ultimately show ?thesis using ts by simp
qed

text \<open>
  The poll that first sees an outcome may lie behind an injection that was made after the outcome. So the
  verdict can rest on a hold that succeeded before the sweeper was killed: here the only hold of the run.
\<close>

lemma verdict_on_an_earlier_hold:
  "oe_elapsed (sample_outcome 12) < cc_inject_at sample_chaos \<and>
   map_option (sweeper_killed_passed sample_chaos 5) (snd sample_run) = Some True"
proof
  show "oe_elapsed (sample_outcome 12) < cc_inject_at sample_chaos" by (simp add: sample_outcome_def sample_chaos_def)
  show "map_option (sweeper_killed_passed sample_chaos 5) (snd sample_run) = Some True"
    unfolding sample_run_def by code_simp
qed

end
