(* ===== verification/Benchmark_Properties.thy ===== *)
theory Benchmark_Properties
  imports Chaos
begin

text \<open>
  What the load tests compute: the crossover of a sweep and the ratios of its refinement, the phases of a run,
  and the check that all runs of a table were made under one configuration.
\<close>

section \<open>Rounding\<close>

lemma py_round_bounds: "\<bar>of_int (py_round x) - x\<bar> \<le> 1 / 2"
proof -
  have "of_int \<lfloor>x\<rfloor> \<le> x" "x < of_int \<lfloor>x\<rfloor> + 1" by linarith+
  then show ?thesis by (auto simp: py_round_def Let_def abs_le_iff)
qed

lemma py_round_of_int [simp]: "py_round (of_int k) = k"
  by (simp add: py_round_def)

section \<open>The crossover\<close>

text \<open>
  The first drop: two measured ratios with none measured between them, the optimistic strategy ahead at the
  first and behind at the second, and no drop before.
\<close>

definition first_drop :: "(int \<Rightarrow> bool option) \<Rightarrow> int set \<Rightarrow> int \<Rightarrow> int \<Rightarrow> bool" where
  "first_drop ahead X lo hi \<longleftrightarrow>
     lo \<in> X \<and> hi \<in> X \<and> lo < hi \<and> ahead lo = Some True \<and> ahead hi = Some False \<and>
     (\<forall>m \<in> X. lo < m \<and> m < hi \<longrightarrow> ahead m = None) \<and>
     (\<forall>r \<in> X. \<forall>s \<in> X. r < s \<and> s \<le> lo \<and> ahead r = Some True \<longrightarrow> ahead s \<noteq> Some False)"

definition never_drops :: "(int \<Rightarrow> bool option) \<Rightarrow> int set \<Rightarrow> bool" where
  "never_drops ahead X \<longleftrightarrow> (\<forall>r \<in> X. \<forall>s \<in> X. r < s \<and> ahead r = Some True \<longrightarrow> ahead s \<noteq> Some False)"

lemma first_drop_unique:
  assumes "first_drop ahead X lo hi" "first_drop ahead X lo' hi'"
  shows "lo = lo' \<and> hi = hi'"
proof -
  have le: "\<not> lo < lo'" if "first_drop ahead X lo hi" "first_drop ahead X lo' hi'" for lo hi lo' hi'
  proof
    assume "lo < lo'"
    then have "hi \<le> lo'" using that by (auto simp: first_drop_def not_le [symmetric])
    then show False using that by (auto simp: first_drop_def)
  qed
  have "lo = lo'" using le [OF assms] le [OF assms(2,1)] by simp
  moreover have "\<not> hi < hi'" "\<not> hi' < hi" using assms \<open>lo = lo'\<close> by (auto simp: first_drop_def)
  ultimately show ?thesis by simp
qed

lemma never_drops_first_drop:
  "never_drops ahead X \<Longrightarrow> \<not> first_drop ahead X lo hi"
  by (auto simp: never_drops_def first_drop_def)

lemma drop_step:
  assumes "\<forall>x \<in> X. p \<le> x" "r \<in> X" "\<forall>x \<in> X. r \<le> x" "ahead p = Some True \<longrightarrow> ahead r = Some True"
  shows "first_drop ahead X lo hi \<Longrightarrow> first_drop ahead (insert p X) lo hi"
    and "never_drops ahead X \<Longrightarrow> never_drops ahead (insert p X)"
proof -
  have from_p: "ahead s \<noteq> Some False"
    if "s \<in> X" "ahead p = Some True" "\<forall>t \<in> X. r < t \<and> t \<le> s \<and> ahead r = Some True \<longrightarrow> ahead t \<noteq> Some False" for s
    using that assms(3,4) by (cases "r = s") auto
  show "first_drop ahead (insert p X) lo hi" if "first_drop ahead X lo hi"
    using that assms(1,2) from_p unfolding first_drop_def by (auto simp: not_less [symmetric] dest: order_trans)
  show "never_drops ahead (insert p X)" if "never_drops ahead X"
    using that assms(1,2) from_p unfolding never_drops_def by (auto simp: not_less [symmetric])
qed

lemma crossover_loop_from:
  assumes "sorted (p # rs)" "ahead p = Some a"
  shows "case crossover_loop ahead (Some (a, p)) rs of
      Some (lo, hi) \<Rightarrow> first_drop ahead (set (p # rs)) lo hi
    | None \<Rightarrow> never_drops ahead (set (p # rs))"
  using assms
proof (induction rs arbitrary: p a)
  case Nil
  then show ?case by (simp add: never_drops_def)
next
  case (Cons r rs)
  have order: "p \<le> r" "\<forall>x \<in> set rs. r \<le> x" "sorted (p # rs)" "sorted (r # rs)" using Cons.prems(1) by auto
  consider (unmeasured) "ahead r = None" | (drop) "a" "ahead r = Some False"
    | (goes_on) b where "ahead r = Some b" "a \<longrightarrow> b" by (cases "ahead r") auto
  then show ?case
  proof cases
    case unmeasured
    then show ?thesis using Cons.IH [OF order(3) Cons.prems(2)]
      by (auto simp: first_drop_def never_drops_def split: option.splits)
  next
    case drop
    then have "p < r" using Cons.prems(2) order(1) by (cases "p = r") auto
    then show ?thesis using drop Cons.prems(2) order(2) by (auto simp: first_drop_def)
  next
    case goes_on
    have step: "crossover_loop ahead (Some (a, p)) (r # rs) = crossover_loop ahead (Some (b, r)) rs"
      using goes_on by (cases a) auto
    have all: "\<forall>x \<in> set (r # rs). p \<le> x" "\<forall>x \<in> set (r # rs). r \<le> x" using order(1,2) by auto
    have "ahead p = Some True \<longrightarrow> ahead r = Some True" using goes_on Cons.prems(2) by simp
    from drop_step(1) [OF all(1) _ all(2) this] drop_step(2) [OF all(1) _ all(2) this] show ?thesis
      using Cons.IH [OF order(4) goes_on(1)] unfolding step by (auto split: option.splits)
  qed
qed

lemma crossover_loop_start:
  assumes "sorted rs"
  shows "case crossover_loop ahead None rs of
      Some (lo, hi) \<Rightarrow> first_drop ahead (set rs) lo hi
    | None \<Rightarrow> never_drops ahead (set rs)"
  using assms
proof (induction rs)
  case Nil
  then show ?case by (simp add: never_drops_def)
next
  case (Cons r rs)
  show ?case
  proof (cases "ahead r")
    case None
    then show ?thesis using Cons by (auto simp: first_drop_def never_drops_def split: option.splits)
  next
    case (Some a)
    then show ?thesis using crossover_loop_from [OF Cons.prems, of ahead a] by simp
  qed
qed

text \<open>
  The crossover search returns an interval exactly if it is the first drop: adjacent measured ratios, the
  optimistic strategy's mean request rate at least the pessimistic one's at the lower and below it at the
  upper, and no such drop further down.
\<close>

theorem crossover_exact:
  "find_crossover_interval results ratios = Some (lo, hi) \<longleftrightarrow> first_drop (optimistic_ahead results) (set ratios) lo hi"
proof -
  have "case find_crossover_interval results ratios of
      Some (lo, hi) \<Rightarrow> first_drop (optimistic_ahead results) (set ratios) lo hi
    | None \<Rightarrow> never_drops (optimistic_ahead results) (set ratios)"
    using crossover_loop_start [OF sorted_sort, of "optimistic_ahead results" ratios] by (simp only: find_crossover_interval_def set_sort)
  then show ?thesis
    using never_drops_first_drop
    by (cases "find_crossover_interval results ratios") (auto dest: first_drop_unique)
qed

section \<open>The refinement\<close>

lemma pick_in: "r \<in> set (pick_refinement_ratios lo hi count) \<Longrightarrow> lo < r \<and> r < hi"
  by (auto simp: pick_refinement_ratios_def split: if_splits)

lemma pick_sorted: "sorted_wrt (<) (pick_refinement_ratios lo hi count)"
  by (simp add: pick_refinement_ratios_def strict_sorted_iff sorted_wrt_filter)

lemma pick_count: "length (pick_refinement_ratios lo hi count) \<le> count"
proof (cases "hi - lo \<le> 1")
  case False
  let ?xs = "map (\<lambda>i. py_round (of_int lo + of_int (hi - lo) * of_nat i / of_nat (count + 1))) [1..<count + 1]"
  have "length (sorted_list_of_set (set ?xs)) \<le> length ?xs"
    using card_length [of ?xs] by (simp only: length_sorted_list_of_set)
  also have "length ?xs = count" by simp
  finally show ?thesis
    unfolding pick_refinement_ratios_def if_not_P [OF False] by (rule order_trans [OF length_filter_le])
qed (simp add: pick_refinement_ratios_def)

lemma two_fifths:
  fixes l h p :: rat
  assumes "l + (h - l) * 2 / 5 - 1 / 2 \<le> p" "p \<le> l + (h - l) * 2 / 5 + 1 / 2" "2 \<le> h - l"
  shows "l < p" "p < h"
  using assms by (simp_all add: field_simps)

text \<open>The second of four picks always lies inside.\<close>

lemma pick_nonempty:
  assumes "2 \<le> hi - lo"
  shows "pick_refinement_ratios lo hi 4 \<noteq> []"
proof -
  let ?x = "of_int lo + of_int (hi - lo) * of_nat 2 / of_nat (4 + 1) :: rat"
  define x where "x = ?x"
  have "(2 :: rat) \<le> of_int (hi - lo)" using assms by linarith
  then have d: "(2 :: rat) \<le> of_int hi - of_int lo" by simp
  have "\<bar>of_int (py_round x) - x\<bar> \<le> 1 / 2" by (rule py_round_bounds)
  then have "x - 1 / 2 \<le> of_int (py_round x)" "of_int (py_round x) \<le> x + 1 / 2"
    unfolding abs_le_iff by linarith+
  then have near: "of_int lo + (of_int hi - of_int lo) * 2 / 5 - 1 / 2 \<le> (of_int (py_round x) :: rat)"
    "(of_int (py_round x) :: rat) \<le> of_int lo + (of_int hi - of_int lo) * 2 / 5 + 1 / 2"
    by (simp_all add: x_def)
  have "of_int lo < (of_int (py_round x) :: rat)" "of_int (py_round x) < (of_int hi :: rat)"
    using two_fifths [OF near d] by simp_all
  then have "lo < py_round ?x" "py_round ?x < hi" unfolding x_def by linarith+
  moreover have "py_round ?x \<in> set (map (\<lambda>i. py_round (of_int lo + of_int (hi - lo) * of_nat i / of_nat (4 + 1))) [1..<4 + 1])"
    unfolding set_map by (rule image_eqI [where x = 2]) simp_all
  ultimately show ?thesis
    using assms unfolding pick_refinement_ratios_def by (auto simp: filter_empty_conv simp del: set_map)
qed

lemma pick_Nil_iff: "pick_refinement_ratios lo hi 4 = [] \<longleftrightarrow> \<not> 2 \<le> hi - lo"
proof
  show "pick_refinement_ratios lo hi 4 = [] \<Longrightarrow> \<not> 2 \<le> hi - lo" using pick_nonempty by blast
qed (simp add: pick_refinement_ratios_def)

text \<open>
  A sweep that is not told to skip it makes a refinement pass exactly if the coarse pass found a crossover between
  two ratios that are not neighbours; its at most four ratios are distinct, ascending, strictly inside the
  interval, and none of them was measured by the coarse pass for both strategies.
\<close>

theorem refinement_inside_crossover:
  assumes "run_contention_sweep cell refine_cell strategies ratios reps False = Inr out"
  shows "(so_refined out \<noteq> None \<longleftrightarrow> (\<exists>lo hi. so_interval out = Some (lo, hi) \<and> 2 \<le> hi - lo)) \<and>
    sorted_wrt (<) (so_refine_ratios out) \<and> length (so_refine_ratios out) \<le> 4 \<and>
    (\<forall>lo hi. so_interval out = Some (lo, hi) \<longrightarrow>
       first_drop (optimistic_ahead (so_coarse out)) (set ratios) lo hi \<and>
       (\<forall>r \<in> set (so_refine_ratios out). lo < r \<and> r < hi \<and>
          (r \<in> set ratios \<longrightarrow> optimistic_ahead (so_coarse out) r = None)))"
proof -
  let ?picks = "case so_interval out of Some (lo, hi) \<Rightarrow> pick_refinement_ratios lo hi 4 | None \<Rightarrow> []"
  have out: "so_interval out = find_crossover_interval (so_coarse out) ratios" "so_refine_ratios out = ?picks"
    "so_refined out \<noteq> None \<longleftrightarrow> ?picks \<noteq> []"
    using assms by (auto simp: run_contention_sweep_def Let_def split: option.splits if_splits prod.splits)
  have "so_refined out \<noteq> None \<longleftrightarrow> (\<exists>lo hi. so_interval out = Some (lo, hi) \<and> 2 \<le> hi - lo)"
    unfolding out(3) by (auto simp: pick_Nil_iff split: option.splits prod.splits)
  moreover have "sorted_wrt (<) (so_refine_ratios out) \<and> length (so_refine_ratios out) \<le> 4"
    unfolding out(2) using pick_sorted pick_count by (auto split: option.splits)
  moreover have "first_drop (optimistic_ahead (so_coarse out)) (set ratios) lo hi" if "so_interval out = Some (lo, hi)"
    for lo hi using that crossover_exact out(1) by simp
  moreover from this have "lo < r \<and> r < hi \<and> (r \<in> set ratios \<longrightarrow> optimistic_ahead (so_coarse out) r = None)"
    if "so_interval out = Some (lo, hi)" "r \<in> set (so_refine_ratios out)" for lo hi r
    using pick_in that out(2) by (auto simp: first_drop_def)
  ultimately show ?thesis by blast
qed

definition sample_figures :: "string \<Rightarrow> int \<Rightarrow> k6_figures" where
  "sample_figures strategy ratio =
     \<lparr>k6_successes = (if strategy = ''optimistic'' \<and> ratio < 10 then 900 else if strategy = ''optimistic'' then 300 else 600),
      k6_expected_409s = 0, k6_unexpected_app_errors = 0, k6_transport_failures = 0,
      k6_p50_ms = None, k6_p95_ms = None, k6_p99_ms = None\<rparr>"

definition sample_cell :: "nat \<Rightarrow> string \<Rightarrow> int \<Rightarrow> nat \<Rightarrow> sweep_run" where
  "sample_cell n strategy ratio rep =
     the (run_sweep_cell \<lparr>sc_vus = 100, sc_duration = parse_duration_seconds ''30s'', sc_workers = 4, sc_pool_size = 5,
       sc_max_overflow = 10\<rparr> None strategy ratio rep ''noon'' (sample_figures strategy ratio) 0 0 None)"

lemma sample_coarse_pass:
  "(case run_contention_sweep sample_cell sample_cell [''pessimistic'', ''optimistic''] [20, 2, 5] 2 False of
      Inr out \<Rightarrow> so_interval out = Some (5, 20) \<and> so_refine_ratios out = [8, 11, 14, 17] | Inl _ \<Rightarrow> False)"
  by code_simp

lemma refinement_inside_crossover_witness:
  "\<exists>out. run_contention_sweep sample_cell sample_cell [''pessimistic'', ''optimistic''] [20, 2, 5] 2 False = Inr out \<and>
     so_refined out \<noteq> None \<and> first_drop (optimistic_ahead (so_coarse out)) {20, 2, 5} 5 20"
proof -
  obtain out where out: "run_contention_sweep sample_cell sample_cell [''pessimistic'', ''optimistic''] [20, 2, 5] 2 False = Inr out"
    and interval: "so_interval out = Some (5, 20)"
    using sample_coarse_pass by (auto split: sum.splits)
  then show ?thesis using refinement_inside_crossover [OF out] by auto
qed

section \<open>The phases of a run\<close>

text \<open>The last success splits a run: every point is in one phase, and the second phase has no success.\<close>

lemma count_split: "category_count P xs c + category_count (\<lambda>t. \<not> P t) xs c = category_count (\<lambda>_. True) xs c"
  by (induction xs) (auto simp: category_count_def)

lemma phases_partition:
  assumes "analyze_raw_json status_points duration_points configured = Some (exhaustion, contested, exhausted)"
  shows "ph_successes contested = category_count (\<lambda>_. True) status_points Status_2xx" "ph_successes exhausted = 0"
    "ph_expected_409s contested + ph_expected_409s exhausted = category_count (\<lambda>_. True) status_points Status_409"
    "ph_app_errors contested + ph_app_errors exhausted = category_count (\<lambda>_. True) status_points Status_other"
    "ph_transport_failures contested + ph_transport_failures exhausted =
       category_count (\<lambda>_. True) status_points Status_transport_error"
proof -
  have parts: "exhaustion = Max (fst ` {p \<in> set status_points. snd p = Status_2xx})"
    "contested = phase_stats_over status_points duration_points (\<lambda>t. t \<le> exhaustion) exhaustion"
    "exhausted = phase_stats_over status_points duration_points (\<lambda>t. \<not> t \<le> exhaustion) (max 0 (configured - exhaustion))"
    using assms by (auto simp: analyze_raw_json_def Let_def not_le case_prod_beta split: if_splits)
  have "category_count (\<lambda>t. \<not> t \<le> exhaustion) status_points Status_2xx = 0"
    unfolding category_count_def parts(1) by (auto simp: filter_empty_conv intro!: Max_ge image_eqI)
  then show "ph_successes exhausted = 0" "ph_successes contested = category_count (\<lambda>_. True) status_points Status_2xx"
    using count_split [of "\<lambda>t. t \<le> exhaustion" status_points Status_2xx]
    unfolding parts(2,3) by (simp_all add: phase_stats_over_def Let_def)
  show "ph_expected_409s contested + ph_expected_409s exhausted = category_count (\<lambda>_. True) status_points Status_409"
    "ph_app_errors contested + ph_app_errors exhausted = category_count (\<lambda>_. True) status_points Status_other"
    "ph_transport_failures contested + ph_transport_failures exhausted =
       category_count (\<lambda>_. True) status_points Status_transport_error"
    unfolding parts(2,3) by (simp_all add: phase_stats_over_def Let_def count_split)
qed

lemma percentile_in: "percentile values p = Some v \<Longrightarrow> v \<in> set values"
  by (auto simp: percentile_def Let_def nat_less_iff split: if_splits
      intro!: nth_mem [of _ "sort values", simplified])

section \<open>One configuration\<close>

lemma assert_configuration_from: "assert_configuration f (Some c) rs = None \<longleftrightarrow> (\<forall>r \<in> set rs. f r = c)"
  by (induction rs) auto

text \<open>The check passes exactly if all runs share one configuration.\<close>

lemma assert_configuration_None_iff: "assert_configuration f None rs = None \<longleftrightarrow> (\<forall>r \<in> set rs. \<forall>s \<in> set rs. f r = f s)"
  by (cases rs) (auto simp: assert_configuration_from)

section \<open>Reading a histogram\<close>

text \<open>Nine of ten waits took up to 0.1 s and one up to 0.5 s; the estimate is the boundary of its bucket.\<close>

definition bucket_line :: "string \<Rightarrow> string \<Rightarrow> string" where
  "bucket_line le n = ''lock_wait_seconds_bucket{le='' @ [CHR 0x22] @ le @ [CHR 0x22] @ ''} '' @ n @ [CHR 0x0A]"

lemma histogram_p99:
  "parse_histogram_p99_seconds (bucket_line ''0.1'' ''9.0'' @ bucket_line ''0.5'' ''10.0'' @ bucket_line ''+Inf'' ''1e+01'')
     ''lock_wait_seconds'' = Some (Some (1 / 2))"
  by code_simp

end
