(* ===== verification/Independence.thy ===== *)
theory Independence
  imports Payments Sweeper Demo
begin

text \<open>
  Redis and the metrics never decide: whatever Redis does before, between and during the operations
  of a run - answer, time out, lose its keys - every operation gives the same answer and commits
  the same database. The claim is stated over runs of operations, so it covers what a Redis outage
  leaves behind for the operations that follow.
\<close>

section \<open>Agreement\<close>

text \<open>The outcomes of two runs agree if answer and database do; Redis and metrics may differ.\<close>

definition agree :: "'a \<times> 'd \<times> 'm \<Rightarrow> 'a \<times> 'd \<times> 'm \<Rightarrow> bool" where
  "agree x y \<longleftrightarrow> fst x = fst y \<and> fst (snd x) = fst (snd y)"

lemma agree_triple [simp]: "agree (a, d, m) (b, e, n) \<longleftrightarrow> a = b \<and> d = e"
  by (simp add: agree_def)

lemma agree_refl [simp]: "agree x x"
  by (simp add: agree_def)

lemma agreeE:
  assumes "agree x y"
  obtains a d m n where "x = (a, d, m)" "y = (a, d, n)"
  using assms by (cases x; cases y) auto

section \<open>Acquisition\<close>

lemma naive_agrees: "agree (naive_acquire env ids h dur now d m) (naive_acquire env ids h dur now d n)"
  by (simp add: naive_acquire_def Let_def split: sum.split option.split)

lemma raise_agrees: "fst (raise_translated s m) = fst (raise_translated s n)"
  by (simp add: raise_translated_def)

lemma pessimistic_agrees: "agree (pessimistic_acquire e ids h dur now d m) (pessimistic_acquire e ids h dur now d n)"
  by (simp add: pessimistic_acquire_def Let_def case_prod_beta raise_agrees [of _ m n] split: sum.split option.split)

lemma attempt_agrees: "agree (attempt_update e rows ids h dur now d m) (attempt_update e rows ids h dur now d n)"
  by (simp add: attempt_update_def split: option.split)

lemma optimistic_agrees:
  "agree (optimistic_loop env gap errs k j ids h dur now d m) (optimistic_loop env gap errs k j ids h dur now d n)"
proof (induction k arbitrary: j d m n)
  case (Suc k)
  from attempt_agrees [of "errs j" "select_seats ids d" ids h dur now "env j d" m n]
  show ?case
    by (rule agreeE) (simp add: Let_def Suc.IH split: sum.split option.split)
qed simp

lemma acquire_agrees: "agree (acquire s e ids h dur now d m) (acquire s e ids h dur now d n)"
  by (cases s) (simp_all add: naive_agrees pessimistic_agrees optimistic_agrees optimistic_acquire_def)

section \<open>Idempotency keys and confirmation\<close>

lemma begin_agrees:
  "agree (begin_idempotent_request env key u fp now ttl stale d m) (begin_idempotent_request env key u fp now ttl stale d n)"
  by (simp add: begin_idempotent_request_def Let_def split: option.split idem_status.split)

lemma confirm_write_agrees:
  "agree (attempt_confirm_write ei base bid ids s now key d m) (attempt_confirm_write ei base bid ids s now key d n)"
  by (simp add: attempt_confirm_write_def Let_def)

lemma confirm_transaction_agrees:
  "agree (confirm_booking_transaction ei env bid s key now d m) (confirm_booking_transaction ei env bid s key now d n)"
proof (cases "load_booking bid d")
  case (Some b)
  from confirm_write_agrees [of ei "env d" bid "br_seat_ids b" s now "Some key" "env d" m n] Some
  show ?thesis
    by (elim agreeE) (simp add: confirm_booking_transaction_def Let_def split: sum.split bool.split option.split)
qed (simp add: confirm_booking_transaction_def)

section \<open>Routes\<close>

lemma create_hold_agrees:
  "agree (create_hold cfg e evt ids h now d r m) (create_hold cfg e evt ids h now d r' m')"
proof (cases "get_strategy (cfg_strategy cfg)")
  case (Inr s)
  from acquire_agrees [of s "e\<lparr>ae_max_attempts := cfg_optimistic_max_attempts cfg\<rparr>" ids h "cfg_hold_duration cfg" now d m m']
  show ?thesis
    by (rule agreeE) (simp add: create_hold_def Inr Let_def case_prod_beta split: sum.split)
qed (simp add: create_hold_def)

lemma extend_agrees: "agree (extend_hold cfg i h now d r m) (extend_hold cfg i h now d r' m')"
  by (simp add: extend_hold_def extend_hold_at_def Let_def case_prod_beta split: list.split)

lemma create_booking_agrees:
  "agree (create_booking_route sha cfg e1 e2 path q key now d m) (create_booking_route sha cfg e1 e2 path q key now d m')"
proof -
  let ?fp = "compute_fingerprint sha ''POST'' path (create_request_json q)"
  from begin_agrees [of e1 key "cq_user_id q" ?fp now "cfg_idempotency_key_ttl cfg" "cfg_idempotency_stale_timeout cfg" d m m']
  show ?thesis
    by (rule agreeE)
      (simp add: create_booking_route_def Let_def case_prod_beta split: option.split sum.split prod.split creation_exn.split)
qed

lemma confirm_route_agrees:
  "agree (confirm_booking_route sha cfg ei e1 e2 e3 path bid h key now d r m)
    (confirm_booking_route sha cfg ei e1 e2 e3 path bid h key now d r' m')"
proof (cases "load_booking bid d")
  case (Some b)
  let ?fp = "compute_fingerprint sha ''POST'' path (JObj [(''session_id'', JStr h)])"
  from begin_agrees [of e1 key "br_user_id b" ?fp now "cfg_idempotency_key_ttl cfg" "cfg_idempotency_stale_timeout cfg" d m m']
  obtain out d1 m1 n1 where begun:
    "begin_idempotent_request e1 key (br_user_id b) ?fp now (cfg_idempotency_key_ttl cfg)
       (cfg_idempotency_stale_timeout cfg) d m = (out, d1, m1)"
    "begin_idempotent_request e1 key (br_user_id b) ?fp now (cfg_idempotency_key_ttl cfg)
       (cfg_idempotency_stale_timeout cfg) d m' = (out, d1, n1)" by (rule agreeE)
  from confirm_transaction_agrees [of ei e3 bid h key now "e2 d1" m1 n1]
  show ?thesis
    by (elim agreeE)
      (simp add: confirm_booking_route_def Some begun Let_def split: option.split sum.split confirm_exn.split)
qed (simp add: confirm_booking_route_def)

lemma webhook_agrees:
  "agree (receive_payment_webhook hm loads bp cfg body sig now d m) (receive_payment_webhook hm loads bp cfg body sig now d m')"
  by (simp add: receive_payment_webhook_def ingest_webhook_def store_event_def Let_def
    split: sum.split bool.split loaded.split json.split)

section \<open>Background passes\<close>

lemma succeeded_agrees:
  "agree (apply_payment_succeeded ei base bk now d m) (apply_payment_succeeded ei base bk now d m')"
proof (cases "Option.bind bk (\<lambda>i. load_booking i d)")
  case (Some b)
  from confirm_write_agrees [of ei base "br_id b" "br_seat_ids b" "br_session_id b" now None d m m'] Some
  show ?thesis
    by (elim agreeE) (simp add: apply_payment_succeeded_def split: sum.split bool.split)
qed (simp add: apply_payment_succeeded_def)

lemma refunded_agrees: "agree (apply_payment_refunded bk now d m) (apply_payment_refunded bk now d m')"
  by (simp add: apply_payment_refunded_def split: option.split sum.split)

lemma events_agree:
  "agree (process_events rr ei base now es s d m) (process_events rr ei base now es s d m')"
proof (induction es arbitrary: s d m m')
  case (Cons e es)
  from succeeded_agrees [of ei base "pe_booking_id e" now d m m'] refunded_agrees [of "pe_booking_id e" now d m m']
  show ?case by (elim agreeE) (simp add: Cons.IH split: sum.split)
qed simp

lemma process_once_agrees:
  "agree (process_once rr ei locked limit now d r m) (process_once rr ei locked limit now d r' m')"
  using events_agree [of rr ei d now "queued_events locked limit d"
    "\<lparr>bt_applied = 0, bt_rejected = 0, bt_touched = [], bt_expired = False\<rparr>" d m m']
  by (elim agreeE) (simp add: process_once_def Let_def split: sum.split)

lemma sweep_agrees: "agree (sweep_once locked batch now d r m) (sweep_once locked batch now d r' m')"
  by (simp add: sweep_once_def measure_backlog_def Let_def case_prod_beta)

lemma reap_agrees: "agree (reap_once locked batch timeout now d m) (reap_once locked batch timeout now d m')"
  by (simp add: reap_once_def Let_def)

lemma demo_hold_agrees: "agree (create_demo_hold cfg e q now d r m) (create_demo_hold cfg e q now d r' m')"
proof (cases "bindE (require_demo_mode cfg) (\<lambda>_. get_event_or_404 (dh_event_id q) d)")
  case (Inr ev)
  note found = this
  show ?thesis
  proof (cases "get_strategy (cfg_strategy cfg)")
    case (Inr s)
    from acquire_agrees [of s "e\<lparr>ae_max_attempts := cfg_optimistic_max_attempts cfg\<rparr>" "[dh_seat_id q]"
      "dh_session_id q" "case dh_duration q of Some t \<Rightarrow> t | None \<Rightarrow> cfg_demo_default_hold_duration cfg" now d m m']
    show ?thesis
      by (rule agreeE) (simp add: create_demo_hold_def found Inr Let_def case_prod_beta split: sum.split)
  qed (simp add: create_demo_hold_def found)
qed (simp add: create_demo_hold_def)

section \<open>Runs\<close>

text \<open>Every operation that commits to the database, with its arguments, and what it answers.\<close>

datatype operation =
    Create_hold settings acquire_env int "int list" session_id instant
  | Extend_hold settings int session_id instant
  | Create_booking "string \<Rightarrow> string" settings "db \<Rightarrow> db" "db \<Rightarrow> db" string create_request string instant
  | Confirm_booking "string \<Rightarrow> string" settings bool "db \<Rightarrow> db" "db \<Rightarrow> db" "db \<Rightarrow> db" string int session_id string instant
  | Payment_webhook "string \<Rightarrow> string \<Rightarrow> string" "string \<Rightarrow> loaded" "bool \<Rightarrow> db_error + int" settings string
      "string option" instant
  | Payment_pass bool bool "string set" nat instant
  | Sweep_pass "int set" nat instant
  | Reap_pass "(int \<times> string) set" nat timedelta instant
  | Demo_hold settings acquire_env demo_hold_request instant

datatype reply =
    Hold_reply "raised + hold_body http"
  | Extend_reply "extend_body http"
  | Booking_reply "raised + response_body http"
  | Webhook_reply "(int \<times> string) option"
  | Payment_result "worker_exn + process_result"
  | Sweep_result sweep_result
  | Reap_result reap_result
  | Demo_reply "demo_exn + instant"

fun perform :: "operation \<Rightarrow> db \<Rightarrow> redis \<Rightarrow> metrics \<Rightarrow> reply \<times> db \<times> redis \<times> metrics" where
  "perform (Create_hold cfg e evt ids h now) d r m = apfst Hold_reply (create_hold cfg e evt ids h now d r m)"
| "perform (Extend_hold cfg i h now) d r m = apfst Extend_reply (extend_hold cfg i h now d r m)"
| "perform (Create_booking sha cfg e1 e2 path q key now) d r m =
     (let (a, d', m') = create_booking_route sha cfg e1 e2 path q key now d m in (Booking_reply a, d', r, m'))"
| "perform (Confirm_booking sha cfg ei e1 e2 e3 path bid h key now) d r m =
     apfst Booking_reply (confirm_booking_route sha cfg ei e1 e2 e3 path bid h key now d r m)"
| "perform (Payment_webhook hm loads bp cfg body sig now) d r m =
     (let (a, d', m') = receive_payment_webhook hm loads bp cfg body sig now d m in (Webhook_reply a, d', r, m'))"
| "perform (Payment_pass rr ei locked limit now) d r m =
     apfst Payment_result (process_once rr ei locked limit now d r m)"
| "perform (Sweep_pass locked batch now) d r m = apfst Sweep_result (sweep_once locked batch now d r m)"
| "perform (Reap_pass locked batch timeout now) d r m =
     (let (a, d', m') = reap_once locked batch timeout now d m in (Reap_result a, d', r, m'))"
| "perform (Demo_hold cfg e q now) d r m = apfst Demo_reply (create_demo_hold cfg e q now d r m)"

text \<open>
  A run of operations; before operation number \<open>k\<close> Redis does \<open>outage k\<close> - nothing, stop answering,
  come back, lose its keys, be repaired by the reconciler.
\<close>

fun serve :: "(nat \<Rightarrow> redis \<Rightarrow> redis) \<Rightarrow> nat \<Rightarrow> operation list \<Rightarrow> db \<Rightarrow> redis \<Rightarrow> metrics \<Rightarrow>
    reply list \<times> db \<times> redis \<times> metrics" where
  "serve outage k [] d r m = ([], d, r, m)"
| "serve outage k (x # xs) d r m =
     (let (a, d1, r1, m1) = perform x d (outage k r) m;
          (as, rest) = serve outage (k + 1) xs d1 r1 m1
      in (a # as, rest))"

lemma agree_apfst: "agree x y \<Longrightarrow> agree (apfst f x) (apfst f y)"
  by (simp add: agree_def)

lemma agree_through:
  "agree x y \<Longrightarrow> agree (case x of (a, d, m) \<Rightarrow> (f a, d, r, m)) (case y of (a, d, m) \<Rightarrow> (f a, d, r', m))"
  by (elim agreeE) simp

lemma perform_agrees: "agree (perform x d r m) (perform x d r' m')"
  by (cases x) (simp_all add: agree_apfst agree_through create_hold_agrees extend_agrees create_booking_agrees
    confirm_route_agrees webhook_agrees process_once_agrees sweep_agrees reap_agrees demo_hold_agrees)

text \<open>
  C5: Redis is never a source of truth: whatever it does before and between the operations of a run,
  and whatever it held, all answers and the final database of the run are the same.
\<close>

theorem redis_never_decides: "agree (serve outage k ops d r m) (serve outage' k' ops d r' m')"
proof (induction ops arbitrary: k k' d r r' m m')
  case (Cons x ops)
  from perform_agrees [of x d "outage k r" m "outage' k' r'" m'] obtain a d1 s n s' n' where
    first: "perform x d (outage k r) m = (a, d1, s, n)" "perform x d (outage' k' r') m' = (a, d1, s', n')"
    by (elim agreeE) auto
  from Cons.IH [of "k + 1" d1 s n "k' + 1" s' n'] obtain as d2 w w' where
    "serve outage (k + 1) ops d1 s n = (as, d2, w)" "serve outage' (k' + 1) ops d1 s' n' = (as, d2, w')"
    by (rule agreeE)
  with first show ?case by simp
qed simp

end
