(* ===== verification/Hub_Loop.thy ===== *)
theory Hub_Loop
  imports Hub Config
begin

text \<open>
  The life of the realtime hub in a worker process: \<open>_listen_loop\<close>, \<open>start\<close> and \<open>stop\<close> of
  \<^verbatim>\<open>app/realtime/hub.py\<close> and the \<open>lifespan\<close> of \<^verbatim>\<open>app/main.py\<close> around them. A task of the event loop
  runs, was cancelled, or died of an exception nobody awaits; \<open>stop\<close> awaits it and gets the
  exception then.

  \<open>decode\<close> is what \<open>json.loads\<close> and the reading of the four fields make of the text of a message;
  None stands for an exception.
\<close>

section \<open>The listener\<close>

text \<open>What \<open>get_message\<close> does: raise, time out, return another kind of message or a message.\<close>

datatype poll = Poll_error | No_message | Other_type | Message string string

text \<open>
  One turn of the loop, None where an exception leaves it. Nothing is polled while nobody watches;
  the body of a message for a section without a coalescer is not read.
\<close>

definition listen_turn :: "(string \<Rightarrow> seat_update option) \<Rightarrow> poll \<Rightarrow> hub \<Rightarrow> hub option" where
  "listen_turn decode p h =
     (if hb_subscribers h = [] then Some h
      else case p of
          Message channel data \<Rightarrow>
            (case parse_channel channel of
               None \<Rightarrow> None
             | Some k \<Rightarrow>
                 if map_of (hb_coalescers h) k = None then Some h
                 else case decode data of None \<Rightarrow> None | Some u \<Rightarrow> deliver (channel, u) h)
        | _ \<Rightarrow> Some h)"

section \<open>The tasks\<close>

datatype task = No_task | Running | Cancelled | Died

datatype pubsub = No_pubsub | Open | Closed

record service =
  sv_hub :: hub
  sv_metrics :: metrics
  sv_listen_task :: task
  sv_flush_task :: task
  sv_pubsub :: pubsub

definition init_hub :: "metrics \<Rightarrow> service" where
  "init_hub m =
     \<lparr>sv_hub = empty_hub, sv_metrics = m, sv_listen_task = No_task, sv_flush_task = No_task, sv_pubsub = No_pubsub\<rparr>"

definition start :: "service \<Rightarrow> service" where
  "start s = s\<lparr>sv_pubsub := Open, sv_listen_task := Running, sv_flush_task := Running\<rparr>"

text \<open>
  \<open>task.cancel()\<close> and \<open>await task\<close> with \<open>CancelledError\<close> suppressed: the task afterwards, and whether
  the await raised. Cancelling a task that has ended does nothing.
\<close>

fun stop_task :: "task \<Rightarrow> task \<times> bool" where
  "stop_task No_task = (No_task, False)"
| "stop_task Running = (Cancelled, False)"
| "stop_task Cancelled = (Cancelled, False)"
| "stop_task Died = (Died, True)"

text \<open>\<open>stop\<close>: whether it raised, and what it leaves.\<close>

definition stop :: "service \<Rightarrow> bool \<times> service" where
  "stop s =
     (let (l, raised) = stop_task (sv_listen_task s); s1 = s\<lparr>sv_listen_task := l\<rparr>
      in if raised then (True, s1)
         else
           (let (f, raised) = stop_task (sv_flush_task s1); s2 = s1\<lparr>sv_flush_task := f\<rparr>
            in if raised then (True, s2)
               else (False, if sv_pubsub s2 = No_pubsub then s2 else s2\<lparr>sv_pubsub := Closed\<rparr>)))"

text \<open>
  What happens while the process serves: turns of the two loops, as far as their tasks run, and
  sockets that subscribe and unsubscribe. A send that fails is caught, so the flush loop never dies.
\<close>

datatype event =
    Polled poll
  | Flushed "web_socket \<Rightarrow> bool"
  | Joined bool section_key web_socket
  | Left bool section_key web_socket

fun on_event :: "(string \<Rightarrow> seat_update option) \<Rightarrow> event \<Rightarrow> service \<Rightarrow> service" where
  "on_event decode (Polled p) s =
     (if sv_listen_task s \<noteq> Running then s
      else case listen_turn decode p (sv_hub s) of
          None \<Rightarrow> s\<lparr>sv_listen_task := Died\<rparr>
        | Some h \<Rightarrow> s\<lparr>sv_hub := h\<rparr>)"
| "on_event decode (Flushed send_ok) s =
     (if sv_flush_task s \<noteq> Running then s
      else case flush_round send_ok (sv_hub s) (sv_metrics s) of (bs, h, m) \<Rightarrow> s\<lparr>sv_hub := h, sv_metrics := m\<rparr>)"
| "on_event decode (Joined up k w) s = s\<lparr>sv_hub := snd (add_subscriber up k w (sv_hub s))\<rparr>"
| "on_event decode (Left up k w) s = s\<lparr>sv_hub := snd (remove_subscriber up k w (sv_hub s))\<rparr>"

definition serving :: "(string \<Rightarrow> seat_update option) \<Rightarrow> event list \<Rightarrow> service \<Rightarrow> service" where
  "serving decode es s = fold (on_event decode) es s"

text \<open>
  The lifespan of the application: \<open>pool_size\<close> connections are opened at once and closed again -
  \<open>connects i\<close> tells whether connection \<open>i\<close> opens - then the hub lives as long as the server does.
  None: the startup failed and there never was a hub.
\<close>

definition lifespan :: "settings \<Rightarrow> (nat \<Rightarrow> bool) \<Rightarrow> (string \<Rightarrow> seat_update option) \<Rightarrow> event list \<Rightarrow> metrics \<Rightarrow>
    (bool \<times> service) option" where
  "lifespan cfg connects decode es m =
     (if \<not> list_all connects [0..<cfg_pool_size cfg] then None
      else Some (stop (serving decode es (start (init_hub m)))))"

section \<open>Facts\<close>

text \<open>Every section with a coalescer has subscribers, whether or not Redis answered.\<close>

definition registered :: "hub \<Rightarrow> bool" where
  "registered h \<longleftrightarrow> dom (map_of (hb_coalescers h)) = dom (map_of (hb_subscribers h))"

lemma registered_touch:
  assumes "registered h" "map_of (hb_coalescers h) k = Some c"
  shows "registered (h\<lparr>hb_coalescers := AList.update k c' (hb_coalescers h)\<rparr>)"
proof -
  have "k \<in> dom (map_of (hb_coalescers h))" using assms(2) by blast
  with assms(1) show ?thesis by (simp add: registered_def update_conv' insert_absorb)
qed

lemma registered_empty [simp]: "registered empty_hub"
  by (simp add: registered_def empty_hub_def)

lemma registered_add: "registered h \<Longrightarrow> registered (snd (add_subscriber up k w h))"
  by (auto simp: registered_def add_subscriber_def Let_def update_conv' split: option.splits if_splits)

lemma registered_remove: "registered h \<Longrightarrow> registered (snd (remove_subscriber up k w h))"
  by (auto simp: registered_def remove_subscriber_def Let_def update_conv' delete_conv' split: option.splits if_splits)

lemma registered_deliver: "registered h \<Longrightarrow> deliver msg h = Some h' \<Longrightarrow> registered h'"
  using registered_touch by (auto simp: deliver_def Let_def split: option.splits)

lemma registered_flush: "registered h \<Longrightarrow> registered (fst (snd (flush_section send_ok k h m)))"
  using registered_touch by (auto simp: flush_section_def Let_def split_beta split: option.split)

lemma registered_tick: "registered h \<Longrightarrow> registered (fst (snd (flush_tick send_ok ks h m)))"
  by (induction ks arbitrary: h m) (simp_all add: case_prod_beta Let_def registered_flush)

text \<open>What an event means when nothing goes wrong: an update is recorded, the rest is as above.\<close>

definition received :: "(string \<Rightarrow> seat_update option) \<Rightarrow> string \<Rightarrow> string \<Rightarrow> hub \<Rightarrow> hub" where
  "received decode channel data h =
     (case decode data of
        None \<Rightarrow> h
      | Some u \<Rightarrow> (case deliver (channel, u) h of None \<Rightarrow> h | Some h' \<Rightarrow> h'))"

fun intended :: "(string \<Rightarrow> seat_update option) \<Rightarrow> event \<Rightarrow> hub \<times> metrics \<Rightarrow> hub \<times> metrics" where
  "intended decode (Polled (Message channel data)) (h, m) = (received decode channel data h, m)"
| "intended decode (Polled p) (h, m) = (h, m)"
| "intended decode (Flushed send_ok) (h, m) = snd (flush_round send_ok h m)"
| "intended decode (Joined up k w) (h, m) = (snd (add_subscriber up k w h), m)"
| "intended decode (Left up k w) (h, m) = (snd (remove_subscriber up k w h), m)"

definition readable :: "(string \<Rightarrow> seat_update option) \<Rightarrow> event \<Rightarrow> bool" where
  "readable decode e \<longleftrightarrow>
     (\<forall>channel data. e = Polled (Message channel data) \<longrightarrow> parse_channel channel \<noteq> None \<and> decode data \<noteq> None)"

lemma deliver_unwatched: "parse_channel c = Some k \<Longrightarrow> map_of (hb_coalescers h) k = None \<Longrightarrow> deliver (c, u) h = Some h"
  by (simp add: deliver_def)

lemma deliver_parsed: "parse_channel c = Some k \<Longrightarrow> \<exists>h'. deliver (c, u) h = Some h'"
  by (simp add: deliver_def)

lemma listen_turn_readable:
  assumes "registered h" "readable decode (Polled (Message channel data))"
  shows "listen_turn decode (Message channel data) h = Some (received decode channel data h)"
proof -
  from assms(2) obtain k u where k: "parse_channel channel = Some k" and u: "decode data = Some u"
    by (auto simp: readable_def)
  show ?thesis
  proof (cases "map_of (hb_coalescers h) k")
    case None
    with k u show ?thesis by (simp add: listen_turn_def received_def deliver_unwatched)
  next
    case (Some c)
    then have "k \<in> dom (map_of (hb_subscribers h))" using assms(1) unfolding registered_def by blast
    then have "hb_subscribers h \<noteq> []" by auto
    with Some k u deliver_parsed [OF k, of u h] show ?thesis by (auto simp: listen_turn_def received_def)
  qed
qed

lemma registered_received: "registered h \<Longrightarrow> registered (received decode channel data h)"
  by (auto simp: received_def registered_deliver split: option.split)

definition healthy :: "hub \<times> metrics \<Rightarrow> service" where
  "healthy x = \<lparr>sv_hub = fst x, sv_metrics = snd x, sv_listen_task = Running, sv_flush_task = Running, sv_pubsub = Open\<rparr>"

lemma on_event_healthy:
  assumes "registered h" "readable decode e"
  shows "on_event decode e (healthy (h, m)) = healthy (intended decode e (h, m)) \<and>
    registered (fst (intended decode e (h, m)))"
proof (cases e)
  case (Polled p)
  with assms show ?thesis
    by (cases p) (auto simp: healthy_def listen_turn_readable registered_received, auto simp: listen_turn_def)
next
  case (Flushed send_ok)
  with assms(1) show ?thesis
    by (auto simp: healthy_def flush_round_def registered_tick split: prod.split
      dest: registered_tick [of h send_ok _ m])
qed (simp_all add: healthy_def assms(1) registered_add registered_remove)

lemma serving_healthy:
  assumes "registered h" "list_all (readable decode) es"
  shows "serving decode es (healthy (h, m)) = healthy (fold (intended decode) es (h, m))"
  using assms
proof (induction es arbitrary: h m)
  case (Cons e es)
  obtain h' m' where step: "intended decode e (h, m) = (h', m')" by fastforce
  with Cons.prems on_event_healthy [of h decode e m] have "registered h'"
    "on_event decode e (healthy (h, m)) = healthy (h', m')" by auto
  with Cons step show ?case by (simp add: serving_def)
qed (simp add: serving_def)

lemma start_healthy: "start (init_hub m) = healthy (empty_hub, m)"
  by (simp add: start_def init_hub_def healthy_def)

section \<open>The listener reads what the program publishes\<close>

text \<open>A code for updates that reads back, to instantiate the parameters with.\<close>

definition sample_encode :: "seat_update \<Rightarrow> string" where
  "sample_encode u =
     int_dec (su_seat_id u) @ CHR ''/'' # int_dec (su_version u) @ CHR ''/'' #
     (case su_status u of AVAILABLE \<Rightarrow> ''0'' | HELD \<Rightarrow> ''1'' | BOOKED \<Rightarrow> ''2'') @ CHR ''/'' #
     (case su_expires u of None \<Rightarrow> [] | Some e \<Rightarrow> int_dec e)"

definition sample_decode :: "string \<Rightarrow> seat_update option" where
  "sample_decode s =
     (case split_max 3 CHR ''/'' s of
        [i, v, st, e] \<Rightarrow>
          (case (py_int i, py_int v) of
             (Some i, Some v) \<Rightarrow>
               Some \<lparr>su_seat_id = i,
                     su_status = (if st = ''0'' then AVAILABLE else if st = ''1'' then HELD else BOOKED),
                     su_expires = (if e = [] then None else py_int e), su_version = v\<rparr>
           | _ \<Rightarrow> None)
      | _ \<Rightarrow> None)"

lemma slash_not_int_dec [simp]: "CHR ''/'' \<notin> set (int_dec i)"
  using int_dec_chars [of "CHR ''/''" i] by (auto simp: is_digit_def)

lemma sample_decode_encode: "sample_decode (sample_encode u) = Some u"
proof -
  have "CHR ''/'' \<notin> set (case su_status u of AVAILABLE \<Rightarrow> ''0'' | HELD \<Rightarrow> ''1'' | BOOKED \<Rightarrow> ''2'')"
    by (cases "su_status u") simp_all
  then have "split_max 3 CHR ''/'' (sample_encode u) =
    [int_dec (su_seat_id u), int_dec (su_version u),
     case su_status u of AVAILABLE \<Rightarrow> ''0'' | HELD \<Rightarrow> ''1'' | BOOKED \<Rightarrow> ''2'',
     case su_expires u of None \<Rightarrow> [] | Some e \<Rightarrow> int_dec e]"
    unfolding sample_encode_def numeral_3_eq_3
    by (simp only: split_max_append slash_not_int_dec not_False_eq_True split_max.simps(1))
  then show ?thesis
    by (cases u; cases "su_status u"; cases "su_expires u") (simp_all add: sample_decode_def)
qed

definition sample_update :: seat_update where
  "sample_update = \<lparr>su_seat_id = 7, su_status = HELD, su_expires = Some 5, su_version = 2\<rparr>"

text \<open>A socket watches a section; a poll fails, the next finds nothing, then an update arrives.\<close>

definition sample_events :: "event list" where
  "sample_events = [Joined True (3, ''VIP'') 1, Polled Poll_error, Polled No_message,
     Polled (Message (channel_name 3 ''VIP'') (sample_encode sample_update))]"

text \<open>
  C28: As long as every message is one the program's own publishers send, the listener never ends -
  whatever errors polling Redis raises and whatever sockets come and go - and the hub is the one that
  records every update in order.
\<close>

theorem published_updates_reach_the_hub:
  assumes "\<forall>u. decode (encode u) = Some u"
    and "\<forall>channel data. Polled (Message channel data) \<in> set es \<longrightarrow>
      (\<exists>evt sec u. channel = channel_name evt sec \<and> data = encode u)"
  shows "serving decode es (start (init_hub m)) = healthy (fold (intended decode) es (empty_hub, m))"
proof -
  have "readable decode e" if "e \<in> set es" for e
    unfolding readable_def using assms that by (force simp: parse_channel_name)
  then show ?thesis unfolding start_healthy by (intro serving_healthy) (simp_all add: list_all_iff)
qed

lemma sample_received:
  "map_of (hb_coalescers (fst (fold (intended sample_decode) sample_events (empty_hub, m)))) (3, ''VIP'') \<noteq>
   Some new_coalescer"
  by (simp add: sample_events_def add_subscriber_def subscribers_of_def empty_hub_def Let_def received_def
    sample_decode_encode deliver_def parse_channel_name update_conv' sample_update_def record_state_def new_coalescer_def)

theorem published_updates_reach_the_hub_witness:
  "serving sample_decode sample_events (start (init_hub (\<lambda>_. 0))) =
     healthy (fold (intended sample_decode) sample_events (empty_hub, \<lambda>_. 0)) \<and>
   map_of (hb_coalescers (fst (fold (intended sample_decode) sample_events (empty_hub, \<lambda>_. 0)))) (3, ''VIP'') \<noteq>
     Some new_coalescer"
proof (rule conjI [OF published_updates_reach_the_hub [where encode = sample_encode] sample_received])
  show "\<forall>u. sample_decode (sample_encode u) = Some u"
    by (simp add: sample_decode_encode)
  show "\<forall>channel data. Polled (Message channel data) \<in> set sample_events \<longrightarrow>
    (\<exists>evt sec u. channel = channel_name evt sec \<and> data = sample_encode u)"
    by (auto simp: sample_events_def)
qed

section \<open>Malformed messages and shutdown\<close>

text \<open>A dead listener stays dead and whatever is published from then on is lost.\<close>

lemma on_event_died: "sv_listen_task s = Died \<Longrightarrow> sv_listen_task (on_event decode e s) = Died"
  by (cases e) (auto split: prod.split)

lemma serving_died: "sv_listen_task s = Died \<Longrightarrow> sv_listen_task (serving decode es s) = Died"
  by (induction es arbitrary: s) (simp_all add: serving_def on_event_died)

lemma dead_listener_loses_updates: "sv_listen_task s = Died \<Longrightarrow> on_event decode (Polled p) s = s"
  by simp

lemma on_event_frame:
  "sv_flush_task (on_event decode e s) = sv_flush_task s" "sv_pubsub (on_event decode e s) = sv_pubsub s"
  by (cases e; auto split: option.split prod.split)+

lemma serving_frame:
  "sv_flush_task (serving decode es s) = sv_flush_task s" "sv_pubsub (serving decode es s) = sv_pubsub s"
  by (induction es arbitrary: s) (simp_all add: serving_def on_event_frame)

text \<open>The events after which the listener has died: one of them was a message that could not be read.\<close>

fun kills :: "(string \<Rightarrow> seat_update option) \<Rightarrow> event list \<Rightarrow> service \<Rightarrow> bool" where
  "kills decode [] s \<longleftrightarrow> False"
| "kills decode (e # es) s \<longleftrightarrow>
     (case e of Polled p \<Rightarrow> listen_turn decode p (sv_hub s) = None | _ \<Rightarrow> False) \<or> kills decode es (on_event decode e s)"

lemma on_event_running:
  "sv_listen_task s = Running \<Longrightarrow> sv_listen_task (on_event decode e s) =
    (if (case e of Polled p \<Rightarrow> listen_turn decode p (sv_hub s) = None | _ \<Rightarrow> False) then Died else Running)"
  by (cases e) (auto split: option.split prod.split)

lemma serving_listener:
  "sv_listen_task s = Running \<Longrightarrow>
    sv_listen_task (serving decode es s) = (if kills decode es s then Died else Running)"
proof (induction es arbitrary: s)
  case (Cons e es)
  show ?case
  proof (cases "case e of Polled p \<Rightarrow> listen_turn decode p (sv_hub s) = None | _ \<Rightarrow> False")
    case True
    with Cons.prems have "sv_listen_task (on_event decode e s) = Died" by (simp add: on_event_running)
    from serving_died [OF this, of decode es] True show ?thesis by (auto simp: serving_def)
  next
    case False
    with Cons show ?thesis by (simp add: serving_def on_event_running)
  qed
qed (simp add: serving_def)

text \<open>
  C29: When the server stops, both tasks are cancelled and the subscription is closed - unless a message
  that could not be read had ended the listener: then \<open>stop\<close> raises that message's exception and leaves
  the flush task running and the subscription open.
\<close>

theorem shutdown_is_clean_iff_listener_lived:
  "lifespan cfg connects decode es m =
     (if \<not> list_all connects [0..<cfg_pool_size cfg] then None
      else let s = serving decode es (start (init_hub m))
        in Some (if kills decode es (start (init_hub m))
           then (True, s\<lparr>sv_listen_task := Died, sv_flush_task := Running, sv_pubsub := Open\<rparr>)
           else (False, s\<lparr>sv_listen_task := Cancelled, sv_flush_task := Cancelled, sv_pubsub := Closed\<rparr>)))"
proof -
  let ?s = "serving decode es (start (init_hub m))"
  have "sv_listen_task ?s = (if kills decode es (start (init_hub m)) then Died else Running)"
    by (rule serving_listener) (simp add: start_def)
  moreover have "sv_flush_task ?s = Running" "sv_pubsub ?s = Open"
    by (simp_all add: serving_frame) (simp_all add: start_def)
  ultimately show ?thesis by (auto simp: lifespan_def stop_def Let_def)
qed

text \<open>One message that is not JSON on a watched channel is enough.\<close>

lemma one_bad_message_silences_the_worker:
  assumes "decode ''not JSON'' = None"
  shows "sv_listen_task (serving decode
    [Joined True (3, ''VIP'') 1, Polled (Message (channel_name 3 ''VIP'') ''not JSON'')] (start (init_hub m))) = Died"
  using assms by (simp add: serving_def start_def init_hub_def add_subscriber_def subscribers_of_def empty_hub_def
    Let_def listen_turn_def parse_channel_name update_conv')

end
