(* ===== verification/Scenarios.thy ===== *)
theory Scenarios
  imports Chaos Config Tables
begin

text \<open>
  The scenarios of the chaos suite, \<^verbatim>\<open>loadtest/chaos/scenarios/\<close>: when each injects its fault and lifts it,
  which verdict it reaches over the timeline of its run, the scenario about a lock whose holder stops, and
  the exit of \<^verbatim>\<open>run_all.py\<close>. Killing, pausing and restarting containers and processes is not modelled.
\<close>

section \<open>The requests k6 recorded\<close>

text \<open>
  A line of k6's output as decoded by \<open>json.loads\<close>, with the fields the harness looks at; every tag is text in
  k6's format. \<open>decode\<close> gives None for a line that is no JSON, \<open>iso_time\<close> for a text that is no instant;
  instants are in seconds.
\<close>

record k6_sample =
  ks_type :: string
  ks_metric :: string
  ks_name :: "string option"
  ks_time :: string
  ks_status :: "string option"

definition request_kinds :: "string list" where
  "request_kinds = [''hold'', ''booking_create'', ''confirm'']"

definition outcome_of_line :: "(string \<Rightarrow> k6_sample option) \<Rightarrow> (string \<Rightarrow> rat option) \<Rightarrow> rat \<Rightarrow> string \<Rightarrow> outcome_event option" where
  "outcome_of_line decode iso_time started line =
     (let text = strip line
      in if text = [] then None
         else Option.bind (decode text) (\<lambda>obj.
           if ks_type obj \<noteq> ''Point'' \<or> ks_metric obj \<noteq> ''http_reqs'' then None
           else case ks_name obj of
               None \<Rightarrow> None
             | Some kind \<Rightarrow>
                 if kind \<notin> set request_kinds \<or> ks_time obj = [] then None
                 else Option.bind (iso_time (ks_time obj)) (\<lambda>t.
                   Some \<lparr>oe_elapsed = t - started, oe_kind = kind,
                         oe_category = status_category (case ks_status obj of None \<Rightarrow> ''0'' | Some s \<Rightarrow> s)\<rparr>)))"

text \<open>\<open>raw\<close> is the text of the file, None if there is none.\<close>

definition parse_k6_outcome_events :: "(string \<Rightarrow> k6_sample option) \<Rightarrow> (string \<Rightarrow> rat option) \<Rightarrow> rat \<Rightarrow> string list option \<Rightarrow>
    outcome_event list" where
  "parse_k6_outcome_events decode iso_time started raw =
     (case raw of None \<Rightarrow> [] | Some ls \<Rightarrow> List.map_filter (outcome_of_line decode iso_time started) ls)"

section \<open>Verdicts over a timeline\<close>

datatype scenario =
    Redis_killed | Redis_paused | Redis_killed_restarted_empty | Sweeper_killed | Postgres_restarted | Api_worker_killed

definition scenario_config_at :: "rat \<Rightarrow> rat \<Rightarrow> string list \<Rightarrow> string list \<Rightarrow> rat \<Rightarrow> chaos_config" where
  "scenario_config_at inject recover counters gauges post =
     \<lparr>cc_inject_at = inject, cc_recover_at = recover, cc_metric_names = counters, cc_gauge_names = gauges,
      cc_post_recover = post\<rparr>"

definition redis_killed_config :: chaos_config where
  "redis_killed_config = scenario_config_at 15 30 [''hold_cache_errors_total''] [] 30"

definition redis_paused_config :: chaos_config where
  "redis_paused_config = scenario_config_at 15 30 [''hold_cache_errors_total''] [] 30"

definition redis_killed_restarted_empty_config :: chaos_config where
  "redis_killed_restarted_empty_config = scenario_config_at 15 20 [''reconciliation_divergence_total''] [] 45"

definition sweeper_killed_config :: chaos_config where
  "sweeper_killed_config = scenario_config_at 15 45 [] [''sweeper_backlog''] 30"

definition postgres_restarted_config :: chaos_config where
  "postgres_restarted_config = scenario_config_at 15 16 [] [] 25"

definition api_worker_killed_config :: chaos_config where
  "api_worker_killed_config = scenario_config_at 15 17 [] [] 30"

fun scenario_config :: "scenario \<Rightarrow> chaos_config" where
  "scenario_config Redis_killed = redis_killed_config"
| "scenario_config Redis_paused = redis_paused_config"
| "scenario_config Redis_killed_restarted_empty = redis_killed_restarted_empty_config"
| "scenario_config Sweeper_killed = sweeper_killed_config"
| "scenario_config Postgres_restarted = postgres_restarted_config"
| "scenario_config Api_worker_killed = api_worker_killed_config"

definition outcomes_of_all_kinds :: "timeline_entry list \<Rightarrow> string \<Rightarrow> nat" where
  "outcomes_of_all_kinds entries category = sum_list (map (\<lambda>kind. total_outcomes entries kind category) request_kinds)"

text \<open>\<open>divergence_at\<close>: the largest reading of a counter, 0 where a poll has none or there is no poll.\<close>

definition divergence_at :: "timeline_entry list \<Rightarrow> rat" where
  "divergence_at entries =
     (if entries = [] then 0
      else Max (set (map (\<lambda>e. case te_metrics e ''reconciliation_divergence_total'' of None \<Rightarrow> 0 | Some x \<Rightarrow> x) entries)))"

definition plateau_window :: rat where
  "plateau_window = 10"

definition still_rising :: "timeline_entry list \<Rightarrow> bool" where
  "still_rising ts \<longleftrightarrow>
     (let last_window_start = (if ts \<noteq> [] then te_elapsed (last ts) - plateau_window else 0)
      in divergence_at (entries_before ts last_window_start) < divergence_at ts)"

definition reserved_count :: nat where
  "reserved_count = 5"

definition redis_killed_passed :: "timeline_entry list \<Rightarrow> bool" where
  "redis_killed_passed ts \<longleftrightarrow>
     (let during = entries_between ts (cc_inject_at redis_killed_config) (cc_recover_at redis_killed_config)
      in invariant_violations ts = [] \<and> total_outcomes during ''hold'' ''2xx'' \<noteq> 0)"

definition min_hold_successes_during_pause :: nat where
  "min_hold_successes_during_pause = 1"

definition redis_paused_passed :: "timeline_entry list \<Rightarrow> bool" where
  "redis_paused_passed ts \<longleftrightarrow>
     (let during = entries_between ts (cc_inject_at redis_paused_config) (cc_recover_at redis_paused_config)
      in invariant_violations ts = [] \<and> \<not> total_outcomes during ''hold'' ''2xx'' < min_hold_successes_during_pause)"

definition redis_killed_restarted_empty_passed :: "timeline_entry list \<Rightarrow> bool" where
  "redis_killed_restarted_empty_passed ts \<longleftrightarrow> invariant_violations ts = [] \<and> \<not> still_rising ts"

definition postgres_restarted_passed :: "timeline_entry list \<Rightarrow> bool" where
  "postgres_restarted_passed ts \<longleftrightarrow>
     (let after = entries_after ts (cc_recover_at postgres_restarted_config + 2)
      in invariant_violations ts = [] \<and> \<not> 0 < outcomes_of_all_kinds ts ''500'' \<and>
         outcomes_of_all_kinds after ''2xx'' \<noteq> 0)"

definition api_worker_killed_passed :: "timeline_entry list \<Rightarrow> bool" where
  "api_worker_killed_passed ts \<longleftrightarrow>
     (let after = entries_after ts (cc_inject_at api_worker_killed_config)
      in invariant_violations ts = [] \<and> outcomes_of_all_kinds after ''2xx'' \<noteq> 0)"

fun scenario_passed :: "scenario \<Rightarrow> timeline_entry list \<Rightarrow> bool" where
  "scenario_passed Redis_killed ts \<longleftrightarrow> redis_killed_passed ts"
| "scenario_passed Redis_paused ts \<longleftrightarrow> redis_paused_passed ts"
| "scenario_passed Redis_killed_restarted_empty ts \<longleftrightarrow> redis_killed_restarted_empty_passed ts"
| "scenario_passed Sweeper_killed ts \<longleftrightarrow> sweeper_killed_passed sweeper_killed_config (of_nat reserved_count) ts"
| "scenario_passed Postgres_restarted ts \<longleftrightarrow> postgres_restarted_passed ts"
| "scenario_passed Api_worker_killed ts \<longleftrightarrow> api_worker_killed_passed ts"

lemmas verdict_defs =
  redis_killed_passed_def redis_killed_config_def redis_paused_passed_def redis_paused_config_def
  min_hold_successes_during_pause_def redis_killed_restarted_empty_passed_def postgres_restarted_passed_def
  postgres_restarted_config_def api_worker_killed_passed_def api_worker_killed_config_def scenario_config_at_def

text \<open>
  The seats of the killed sweeper's scenario: the last \<open>RESERVED_COUNT\<close> are withheld from k6 and
  marked as holds that ran out a minute ago, by an UPDATE of their own.
\<close>

definition reserved_seat_ids :: "int list \<Rightarrow> int list" where
  "reserved_seat_ids ids = drop (length ids - reserved_count) ids"

definition k6_seat_ids :: "int list \<Rightarrow> int list" where
  "k6_seat_ids ids = take (length ids - reserved_count) ids"

definition mark_seats_stale :: "instant \<Rightarrow> int list \<Rightarrow> db \<Rightarrow> db" where
  "mark_seats_stale now ids d =
     d\<lparr>db_seats := upd_where (\<lambda>r. sr_id r \<in> set ids)
         (\<lambda>r. r\<lparr>sr_status := HELD, sr_held_by := Some ''chaos-reserved'', sr_expires := Some (now - seconds 60)\<rparr>)
         (db_seats d)\<rparr>"

section \<open>A lock whose holder stops\<close>

text \<open>
  \<open>_wait_for_release\<close>, a turn per element: the clock of the loop condition, whether the probe finds the seat
  locked, and the clock after the probe.
\<close>

fun wait_for_release :: "rat \<Rightarrow> (rat \<times> bool \<times> rat) list \<Rightarrow> rat option" where
  "wait_for_release deadline [] = None"
| "wait_for_release deadline ((clock, locked, after) # probes) =
     (if clock < deadline then if locked then wait_for_release deadline probes else Some after else None)"

text \<open>
  Both sub-tests start a lock holder - None where it did not report its lock - take the clock, stop the
  holder and wait. \<open>lock_run\<close> has the clock at the lock and at the start of the wait, and the probes. What they
  conclude, without the wording.
\<close>

type_synonym lock_run = "rat \<times> rat \<times> (rat \<times> bool \<times> rat) list"

datatype lock_finding = Harness_failure | Still_held | Released rat

definition max_wait :: rat where
  "max_wait = 30"

fun observe_release :: "lock_run option \<Rightarrow> lock_finding" where
  "observe_release None = Harness_failure"
| "observe_release (Some (acquired_at, waiting_from, probes)) =
     (case wait_for_release (waiting_from + max_wait) probes of
        None \<Rightarrow> Still_held
      | Some released_at \<Rightarrow> Released (released_at - acquired_at))"

definition run_kill_subtest :: "lock_run option \<Rightarrow> lock_finding" where
  "run_kill_subtest = observe_release"

definition run_suspend_subtest :: "settings \<Rightarrow> lock_run option \<Rightarrow> lock_finding \<times> bool" where
  "run_suspend_subtest cfg started =
     (let configured = of_int (cfg_idle_in_transaction_session_timeout cfg) / 1000000
      in case observe_release started of
           Harness_failure \<Rightarrow> (Harness_failure, False)
         | Still_held \<Rightarrow> (Still_held, False)
         | Released elapsed \<Rightarrow>
             (Released elapsed, \<not> configured + 5 < elapsed \<and> \<not> elapsed < configured / 2))"

definition killed_holding_lock :: "settings \<Rightarrow> lock_run option \<Rightarrow> lock_run option \<Rightarrow> lock_finding list \<times> bool" where
  "killed_holding_lock cfg killed suspended =
     (let (f, passed) = run_suspend_subtest cfg suspended in ([run_kill_subtest killed, f], passed))"

section \<open>The suite\<close>

definition scenario_names :: "string list" where
  "scenario_names = [''redis_killed'', ''redis_paused'', ''redis_killed_restarted_empty'', ''sweeper_killed'',
     ''api_worker_killed_holding_lock'', ''postgres_restarted'', ''api_worker_killed'']"

text \<open>The names to run, or those that are unknown.\<close>

definition selected_names :: "string option \<Rightarrow> string set + string list" where
  "selected_names only =
     (let names = (case only of None \<Rightarrow> scenario_names | Some s \<Rightarrow> map strip (split_max (length s) CHR '','' s));
          unknown = set names - set scenario_names
      in if unknown \<noteq> {} then Inl unknown else Inr names)"

text \<open>
  \<open>verdict name\<close> is the report's \<open>passed\<close>, None if the scenario raised, which ends the suite. The exit: the
  names reported with their verdicts and the exit code, None for the exception.
\<close>

fun run_each :: "(string \<Rightarrow> bool option) \<Rightarrow> string list \<Rightarrow> (string \<times> bool) list option" where
  "run_each verdict [] = Some []"
| "run_each verdict (n # ns) =
     Option.bind (verdict n) (\<lambda>p. map_option (\<lambda>rs. (n, p) # rs) (run_each verdict ns))"

definition run_suite :: "string option \<Rightarrow> (string \<Rightarrow> bool option) \<Rightarrow> ((string \<times> bool) list \<times> int) option" where
  "run_suite only verdict =
     (case selected_names only of
        Inl unknown \<Rightarrow> Some ([], 1)
      | Inr names \<Rightarrow>
          map_option (\<lambda>reports. (reports, if list_ex (\<lambda>(n, passed). \<not> passed) reports then 1 else 0))
            (run_each verdict names))"

section \<open>Facts\<close>

lemma reserved_apart: "k6_seat_ids ids @ reserved_seat_ids ids = ids"
  by (simp add: k6_seat_ids_def reserved_seat_ids_def)

lemma stale_seats_reclaimable:
  "r \<in> set (db_seats (mark_seats_stale now ids d)) \<Longrightarrow> sr_id r \<in> set ids \<Longrightarrow> sr_status r = HELD \<and> reclaimable_sql now r"
  by (auto simp: mark_seats_stale_def upd_where_def reclaimable_sql_def expired_sql_def seconds_def split: if_splits)

text \<open>Merging the requests into a timeline leaves what its polls reported of the invariants.\<close>

lemma fold_merge_passed:
  "map te_all_passed (fold (\<lambda>ev t. t[p ev := count_outcome ev (t ! p ev)]) events ts) = map te_all_passed ts"
proof (induction events arbitrary: ts)
  case (Cons ev events)
  have "map te_all_passed (ts[p ev := count_outcome ev (ts ! p ev)]) = map te_all_passed ts"
    by (cases "p ev < length ts") (simp_all add: map_update list_update_same_conv list_update_beyond not_less)
  with Cons show ?case by simp
qed simp

lemma merge_passed: "map te_all_passed (merge_outcomes_into_timeline ts events) = map te_all_passed ts"
  by (simp add: merge_outcomes_into_timeline_def Let_def fold_merge_passed [of "\<lambda>ev. poll_of (map te_elapsed ts) (oe_elapsed ev)"])

lemma no_violation_iff: "invariant_violations ts = [] \<longleftrightarrow> (\<forall>p \<in> set (map te_all_passed ts). p)"
  by (simp add: invariant_violations_def filter_empty_conv)

text \<open>What the run of a scenario leaves for its verdict.\<close>

lemma run_verdict:
  assumes "run_chaos_scenario cf turns late k6_ended recovery events = (steps, Some ts)"
    and "sorted (poll_times turns late recovery)"
  shows "invariant_violations ts = [] \<longleftrightarrow> (\<forall>e \<in> set (timeline_of steps). te_all_passed e)"
    and "total_outcomes (filter (\<lambda>e. W (te_elapsed e)) ts) kind category = 0 \<longleftrightarrow>
      \<not> (\<exists>ev \<in> set events. oe_kind ev = kind \<and> oe_category ev = category \<and>
          W (observed (timeline_of steps) (oe_elapsed ev)))"
proof -
  note run = run_timeline [OF assms]
  show "invariant_violations ts = [] \<longleftrightarrow> (\<forall>e \<in> set (timeline_of steps). te_all_passed e)"
    unfolding no_violation_iff run(1) merge_passed by simp
  have "total_outcomes (filter (\<lambda>e. W (te_elapsed e)) ts) kind category =
      length (filter (\<lambda>ev. W (observed (timeline_of steps) (oe_elapsed ev)) \<and> same_count kind category ev) events)"
    using merge_window [OF run(2,3), of kind category W events] run(1,4) by simp
  then show "total_outcomes (filter (\<lambda>e. W (te_elapsed e)) ts) kind category = 0 \<longleftrightarrow>
      \<not> (\<exists>ev \<in> set events. oe_kind ev = kind \<and> oe_category ev = category \<and>
          W (observed (timeline_of steps) (oe_elapsed ev)))"
    by (auto simp: filter_empty_conv same_count_def)
qed

lemma outcomes_of_all_kinds_0:
  "outcomes_of_all_kinds entries category = 0 \<longleftrightarrow> (\<forall>kind \<in> set request_kinds. total_outcomes entries kind category = 0)"
  by (simp add: outcomes_of_all_kinds_def request_kinds_def)

lemma run_all_kinds:
  assumes "run_chaos_scenario cf turns late k6_ended recovery events = (steps, Some ts)"
    and "sorted (poll_times turns late recovery)"
  shows "outcomes_of_all_kinds (filter (\<lambda>e. W (te_elapsed e)) ts) category = 0 \<longleftrightarrow>
    \<not> (\<exists>ev \<in> set events. oe_kind ev \<in> set request_kinds \<and> oe_category ev = category \<and>
        W (observed (timeline_of steps) (oe_elapsed ev)))"
  unfolding outcomes_of_all_kinds_0 run_verdict(2) [OF assms] by blast

text \<open>Which requests can carry the verdict of a scenario, by the time of the poll that counts them.\<close>

fun counts_for :: "scenario \<Rightarrow> rat \<Rightarrow> string \<Rightarrow> bool" where
  "counts_for Redis_killed t kind \<longleftrightarrow> kind = ''hold'' \<and> 15 \<le> t \<and> t < 30"
| "counts_for Redis_paused t kind \<longleftrightarrow> kind = ''hold'' \<and> 15 \<le> t \<and> t < 30"
| "counts_for Postgres_restarted t kind \<longleftrightarrow> kind \<in> set request_kinds \<and> 18 \<le> t"
| "counts_for Api_worker_killed t kind \<longleftrightarrow> kind \<in> set request_kinds \<and> 15 \<le> t"
| "counts_for _ t kind \<longleftrightarrow> False"


text \<open>A run of the first scenario: the only request, a hold, succeeds at 12 seconds; the poll at 20 counts it.\<close>

definition redis_run :: "chaos_step list \<times> timeline_entry list option" where
  "redis_run = run_chaos_scenario (scenario_config Redis_killed)
     [(10, healthy_answer ''0.0''), (20, healthy_answer ''0.0''), (30, healthy_answer ''0.0'')] (46, healthy_answer ''0.0'') 46
     [(46, 47, healthy_answer ''0.0''), (80, 80, healthy_answer ''0.0'')] [sample_outcome 12]"

lemma redis_run_polls:
  "map_option (map te_elapsed) (snd redis_run) = Some [10, 20, 30, 47]"
  "map te_elapsed (timeline_of (fst redis_run)) = [10, 20, 30, 47]"
  "list_all te_all_passed (timeline_of (fst redis_run))"
  unfolding redis_run_def by code_simp+


text \<open>
  So the verdict of the restart can rest on a request that ended before PostgreSQL went down: the restart
  is made in the turn that starts at 15 seconds and blocks, the next poll is at 25.
\<close>

definition restart_run :: "chaos_step list \<times> timeline_entry list option" where
  "restart_run = run_chaos_scenario (scenario_config Postgres_restarted)
     [(15, healthy_answer ''0.0''), (25, healthy_answer ''0.0''), (50, healthy_answer ''0.0'')] (50, healthy_answer ''0.0'') 50
     [(80, 80, healthy_answer ''0.0'')] [sample_outcome (151 / 10)]"

lemma restart_verdict_on_an_earlier_request:
  "map_option (scenario_passed Postgres_restarted) (snd restart_run) = Some True"
  unfolding restart_run_def by code_simp

text \<open>A reconciler that never runs counts nothing, and the scenario that waits for it passes.\<close>

lemma divergence_never_counted:
  assumes "\<forall>e \<in> set ts. te_metrics e ''reconciliation_divergence_total'' \<in> {None, Some 0}"
  shows "divergence_at ts = 0"
proof (cases ts)
  case (Cons e es)
  let ?f = "\<lambda>e. case te_metrics e ''reconciliation_divergence_total'' of None \<Rightarrow> 0 | Some x \<Rightarrow> (x :: rat)"
  have "\<forall>e \<in> set ts. ?f e = 0" using assms by fastforce
  then have "set (map ?f ts) = {0}" using Cons by (simp add: image_constant_conv cong: image_cong)
  moreover have "divergence_at ts = Max (set (map ?f ts))" using Cons by (simp only: divergence_at_def list.distinct if_False)
  ultimately show ?thesis by simp
qed (simp add: divergence_at_def)

lemma plateau_without_a_reconciler:
  assumes "invariant_violations ts = []"
    and "\<forall>e \<in> set ts. te_metrics e ''reconciliation_divergence_total'' \<in> {None, Some 0}"
  shows "scenario_passed Redis_killed_restarted_empty ts"
proof -
  have "divergence_at (entries_before ts t) = 0" for t
    using assms(2) by (intro divergence_never_counted) (simp add: entries_before_def)
  then show ?thesis using assms divergence_never_counted [OF assms(2)] by (simp add: verdict_defs still_rising_def Let_def)
qed

section \<open>The lock and the suite\<close>

text \<open>The release is seen by the first probe that finds the seat free, if one is made before the deadline.\<close>

lemma wait_for_release_iff:
  "wait_for_release deadline probes = Some t \<longleftrightarrow>
     (case dropWhile (\<lambda>(c, locked, after). c < deadline \<and> locked) probes of
        [] \<Rightarrow> False
      | (c, locked, after) # _ \<Rightarrow> c < deadline \<and> after = t)"
  by (induction deadline probes rule: wait_for_release.induct) auto

lemma suspended_holder_verdict:
  "snd (killed_holding_lock cfg killed suspended) \<longleftrightarrow>
     (\<exists>elapsed. observe_release suspended = Released elapsed \<and>
       of_int (cfg_idle_in_transaction_session_timeout cfg) / 1000000 / 2 \<le> elapsed \<and>
       elapsed \<le> of_int (cfg_idle_in_transaction_session_timeout cfg) / 1000000 + 5)"
  by (auto simp: killed_holding_lock_def run_suspend_subtest_def Let_def case_prod_beta not_less split: lock_finding.split)

text \<open>The first sub-test never fails the scenario: not if the lock was never taken, not if it stays for good.\<close>

lemma kill_subtest_never_fails:
  "snd (killed_holding_lock cfg None suspended) = snd (killed_holding_lock cfg killed suspended)"
  by (simp add: suspended_holder_verdict)

lemma run_each_names: "run_each verdict ns = Some reports \<Longrightarrow> map fst reports = ns \<and>
    (\<forall>(n, passed) \<in> set reports. verdict n = Some passed)"
  by (induction ns arbitrary: reports) (auto simp: bind_eq_Some_conv)

lemma suite_exit:
  assumes "run_suite only verdict = Some (reports, code)"
  shows "code = 0 \<longleftrightarrow> (\<exists>names. selected_names only = Inr names \<and> map fst reports = names \<and>
    (\<forall>n \<in> set names. verdict n = Some True))"
proof (cases "selected_names only")
  case (Inr names)
  with assms have run: "run_each verdict names = Some reports"
    and code: "code = (if list_ex (\<lambda>(n, passed). \<not> passed) reports then 1 else 0)"
    by (auto simp: run_suite_def)
  note named = run_each_names [OF run]
  have "set names = fst ` set reports" using named by (metis set_map)
  then have "(\<forall>n \<in> set names. verdict n = Some True) \<longleftrightarrow> (\<forall>(n, passed) \<in> set reports. passed)"
    using named by fastforce
  moreover have "code = 0 \<longleftrightarrow> (\<forall>(n, passed) \<in> set reports. passed)" using code by (auto simp: list_ex_iff)
  ultimately show ?thesis using named Inr by simp
qed (use assms in \<open>simp add: run_suite_def\<close>)

lemma whole_suite: "selected_names None = Inr scenario_names"
  by (simp add: selected_names_def)

end
