(* ===== verification/Publication.thy ===== *)
theory Publication
  imports Independence Ledger Hub
begin

text \<open>
  What the program publishes of its writes. An operation that runs alone publishes exactly the seats it
  changed, each once, on the channel of its section and in the state it has in the database; the seats
  it does not publish are untouched. The short hold of the walkthrough is the exception: it publishes
  nothing.
\<close>

section \<open>Announced writes\<close>

definition message_of :: "seat_row \<Rightarrow> string \<times> seat_update" where
  "message_of r = (channel_name (sr_event_id r) (sr_section r), row_update r)"

text \<open>The change of a row: it stays the seat it is, and its version goes up by one.\<close>

definition bumps :: "(seat_row \<Rightarrow> seat_row) \<Rightarrow> bool" where
  "bumps f \<longleftrightarrow> (\<forall>r. sr_id (f r) = sr_id r \<and> seat_place (f r) = seat_place r \<and> sr_version (f r) = sr_version r + 1)"

lemma bumps_frame:
  assumes "bumps f"
  shows "sr_id (f r) = sr_id r" "sr_event_id (f r) = sr_event_id r" "sr_section (f r) = sr_section r"
    "sr_version (f r) = sr_version r + 1"
  using assms by (simp_all add: bumps_def seat_place_def)

definition announced :: "db \<Rightarrow> db \<Rightarrow> (string \<times> seat_update) list \<Rightarrow> bool" where
  "announced d d' msgs \<longleftrightarrow>
     (\<exists>ids f. db_seats d' = upd_where (\<lambda>r. sr_id r \<in> ids) f (db_seats d) \<and> bumps f \<and>
        distinct (map (su_seat_id \<circ> snd) msgs) \<and>
        set msgs = (message_of \<circ> f) ` {r \<in> set (db_seats d). sr_id r \<in> ids})"

lemma announced_nothing: "db_seats d' = db_seats d \<Longrightarrow> announced d d' []"
  unfolding announced_def bumps_def
  by (intro exI [of _ "{}"] exI [of _ "\<lambda>r. r\<lparr>sr_version := sr_version r + 1\<rparr>"])
    (simp add: upd_where_def seat_place_def)

lemma bumps_rows [simp]:
  "bumps (hold_row h e t)" "bumps (free_row t)" "bumps (book_row i t)" "bumps (unbook_row t)" "bumps (extend_row e t)"
  by (simp_all add: bumps_def seat_place_def hold_row_def free_row_def book_row_def unbook_row_def extend_row_def)

lemma distinct_selected: "schema_ok d \<Longrightarrow> distinct (map sr_id (select_seats ids d))"
  by (simp add: select_seats_def schema_ok_iff distinct_map_filter)

text \<open>The rows an operation selects again after its write, and publishes.\<close>

lemma announced_selected:
  assumes "schema_ok d'" "db_seats d' = upd_where (\<lambda>r. sr_id r \<in> set ids) f (db_seats d)" "bumps f"
    and "\<And>x. x \<in> set (select_seats ids d') \<Longrightarrow> g x = message_of x"
  shows "announced d d' (map g (select_seats ids d'))"
proof -
  have ids: "sr_id (f r) = sr_id r" for r using assms(3) by (simp add: bumps_def)
  have msgs: "map g (select_seats ids d') = map message_of (select_seats ids d')" using assms(4) by simp
  have "distinct (map (su_seat_id \<circ> snd) (map message_of (select_seats ids d')))"
    using distinct_selected [OF assms(1), of ids] by (simp add: message_of_def row_update_def comp_def)
  moreover have "set (select_seats ids d') = f ` {r \<in> set (db_seats d). sr_id r \<in> set ids}"
    by (auto simp: select_seats_def assms(2) set_upd_where ids split: if_splits)
  ultimately show ?thesis
    unfolding announced_def msgs using assms(2,3) by (intro exI [of _ "set ids"] exI [of _ f]) (simp add: image_comp)
qed

section \<open>Operations that run alone\<close>

lemma hold_announced:
  assumes "schema_ok d" "seats_coherent d" "rd_up r" "undisturbed e = e"
    and "\<forall>x \<in> set (db_seats d). sr_id x \<in> set ids \<longrightarrow> sr_event_id x = evt"
    and "create_hold cfg e evt ids session now d r m = (res, d', r', m')"
  shows "\<exists>msgs. rd_published r' = rd_published r @ msgs \<and> rd_up r' \<and> announced d d' msgs"
proof (cases "get_strategy (cfg_strategy cfg)")
  case (Inl x)
  with assms show ?thesis by (auto simp: create_hold_def announced_nothing)
next
  case (Inr s)
  let ?e = "e\<lparr>ae_max_attempts := cfg_optimistic_max_attempts cfg\<rparr>"
  have quiet: "undisturbed ?e = ?e" using assms(4) by (cases e) (simp add: undisturbed_def)
  obtain x d1 m1 where a: "acquire s (undisturbed ?e) ids session (cfg_hold_duration cfg) now d m = (x, d1, m1)"
    by (metis prod_cases3)
  show ?thesis
  proof (cases "\<exists>res. x = Inr res \<and> ar_success res")
    case False
    then have "d1 = d" using configured.not_won [OF a] by blast
    moreover have "d' = d1 \<and> r' = r" using assms(6) Inr a False unfolding create_hold_def quiet by (auto split: sum.splits)
    ultimately show ?thesis using assms(3) by (auto simp: announced_nothing)
  next
    case True
    then obtain acq where acq: "x = Inr acq" "ar_success acq" by blast
    then obtain t aud where w: "set (ar_acquired acq) = set ids"
        "d1 = held_db ids aud session (now + cfg_hold_duration cfg) t now d"
      using configured.won [OF assms(1,2)] a by blast
    let ?exp = "now + cfg_hold_duration cfg"
    obtain r1 m2 where mir: "mirror_all (ar_acquired acq) session ?exp now r m1 = (r1, m2)" by fastforce
    note r1 = mirror_all_facts [OF assms(3) mir]
    have out: "d' = d1" "r' = (if ar_acquired acq \<noteq> [] then publish_rows (held_update ?exp) (\<lambda>_. evt) (select_seats (ar_acquired acq) d1) r1 else r1)"
      using assms(6) Inr a acq mir unfolding create_hold_def quiet by (auto simp: Let_def)
    have rows: "db_seats d' = upd_where (\<lambda>r. sr_id r \<in> set (ar_acquired acq)) (hold_row session ?exp t) (db_seats d)"
      unfolding out w by simp
    have "announced d d' (map (\<lambda>x. (channel_name evt (sr_section x), held_update ?exp x)) (select_seats (ar_acquired acq) d'))"
    proof (rule announced_selected [OF _ rows])
      show "schema_ok d'" using assms(1) out w(2) by (simp add: held_db_schema_ok)
      fix y assume "y \<in> set (select_seats (ar_acquired acq) d')"
      then obtain z where "z \<in> set (db_seats d)" "sr_id z \<in> set ids" "y = hold_row session ?exp t z"
        by (auto simp: select_seats_def rows set_upd_where w(1))
      then show "(channel_name evt (sr_section y), held_update ?exp y) = message_of y"
        using assms(5) by (simp add: message_of_def held_update_def row_update_def hold_row_def)
    qed simp
    then show ?thesis
      using r1 out by (auto simp: publish_rows_log select_seats_def)
  qed
qed

lemma extend_announced:
  assumes "schema_ok d" "rd_up r" "extend_hold cfg i session now d r m = (reply, d', r', m')"
  shows "\<exists>msgs. rd_published r' = rd_published r @ msgs \<and> rd_up r' \<and> announced d d' msgs"
proof (cases "filter (extend_matches i session now) (db_seats d)")
  case Nil
  with assms show ?thesis by (auto simp: extend_hold_def extend_hold_at_def Let_def announced_nothing)
next
  case (Cons row rest)
  let ?f = "extend_row (now + cfg_hold_duration cfg) now"
  have row: "row \<in> set (db_seats d)" "extend_matches i session now row" "sr_id row = i" "sr_status row = HELD"
    using Cons [THEN arg_cong, of set] by (auto simp: extend_matches_def held_by_sql_def)
  have only: "y = row" if "y \<in> set (db_seats d)" "sr_id y = i" for y
    using that row assms(1) by (intro keyed_unique [of sr_id]) (simp_all add: schema_ok_iff)
  then have match: "extend_matches i session now y \<longleftrightarrow> sr_id y \<in> {i}" if "y \<in> set (db_seats d)" for y
    using that row(2) by (auto simp: extend_matches_def)
  have "upd_where (extend_matches i session now) ?f (db_seats d) = upd_where (\<lambda>y. sr_id y \<in> {i}) ?f (db_seats d)"
    using match by (intro upd_where_cong) auto
  then have d': "db_seats d' = upd_where (\<lambda>y. sr_id y \<in> {i}) ?f (db_seats d)"
    using assms(3) Cons by (auto simp: extend_hold_def extend_hold_at_def Let_def split_beta)
  have r': "rd_published r' = rd_published r @ [message_of (?f row)]" "rd_up r'"
    using assms(2,3) Cons row(4)
    by (auto simp: extend_hold_def extend_hold_at_def Let_def split_beta set_hold_mirror_def publish_seat_update_def
      message_of_def held_update_def row_update_def extend_row_def)
  have "{y \<in> set (db_seats d). sr_id y \<in> {i}} = {row}" using only row(1,3) by blast
  then have "announced d d' [message_of (?f row)]"
    unfolding announced_def using d' by (intro exI [of _ "{i}"] exI [of _ ?f]) simp
  with r' show ?thesis by blast
qed

lemma sweep_announced:
  assumes "schema_ok d" "rd_up r" "sweep_once locked batch now d r m = (res, d', r', m')"
  shows "\<exists>msgs. rd_published r' = rd_published r @ msgs \<and> rd_up r' \<and> announced d d' msgs"
proof -
  let ?rows = "sweep_rows locked batch now d"
  note props = sweep_rows_props [OF assms(1), of locked batch now]
  let ?msgs = "map (\<lambda>x. (channel_name (sr_event_id x) (sr_section x), row_update x)) (map (expired_row now) ?rows)"
  have d': "db_seats d' = upd_where (\<lambda>x. sr_id x \<in> set (map sr_id ?rows)) (free_row (db_clock d)) (db_seats d)"
    using sweep_once_db [OF assms(1), of locked batch now r m] assms(3) by simp
  have r': "rd_published r' = rd_published r @ ?msgs \<and> rd_up r'"
    using sweep_once_eq [OF assms(1), of locked batch now r m] assms(3)
      delete_mirrors_up [OF assms(2), of ?rows "inc_by Sweeper_illegal_transition 0
           (set_gauge Sweeper_backlog (rowcount (lapsed_hold now) (db_seats d)) m)"]
    by (auto simp: Let_def publish_rows_log)
  have msg: "(channel_name (sr_event_id (expired_row now x)) (sr_section (expired_row now x)), row_update (expired_row now x)) =
      message_of (free_row (db_clock d) x)" if "x \<in> set ?rows" for x
    using that props(1) by (auto simp: message_of_def row_update_def expired_row_lapsed free_row_def seat_apply_def make_available_def)
  then have msgs: "?msgs = map (message_of \<circ> free_row (db_clock d)) ?rows" by simp
  have "x \<in> set ?rows" if "x \<in> set (db_seats d)" "sr_id x \<in> set (map sr_id ?rows)" for x
  proof -
    from that(2) obtain y where "y \<in> set ?rows" "sr_id y = sr_id x" by auto
    moreover from this props(1) have "y \<in> set (db_seats d)" by auto
    ultimately show ?thesis using keyed_unique [of sr_id "db_seats d" x y] that(1) assms(1) by (simp add: schema_ok_iff)
  qed
  then have "set ?rows = {x \<in> set (db_seats d). sr_id x \<in> set (map sr_id ?rows)}"
    using props(1) by auto
  then have "set ?msgs = (message_of \<circ> free_row (db_clock d)) ` {x \<in> set (db_seats d). sr_id x \<in> set (map sr_id ?rows)}"
    unfolding msgs by (metis list.set_map)
  moreover have "distinct (map (su_seat_id \<circ> snd) ?msgs)"
    using props(2) by (simp add: row_update_def comp_def)
  ultimately have "announced d d' ?msgs"
    unfolding announced_def using d'
    by (intro exI [of _ "set (map sr_id ?rows)"] exI [of _ "free_row (db_clock d)"]) simp
  with r' show ?thesis by blast
qed

lemma begin_alone_seats:
  "begin_idempotent_request id key u fp now ttl stale d m = (out, d', m') \<Longrightarrow> db_seats d' = db_seats d"
  by (auto simp: begin_idempotent_request_def Let_def split: option.splits if_splits idem_status.splits)

lemma confirm_announced:
  assumes "ledger d" "rd_up r"
    and "confirm_booking_route sha cfg ei id id id path bid session key now d r m = (res, d', r', m')" "schema_ok d'"
  shows "\<exists>msgs. rd_published r' = rd_published r @ msgs \<and> rd_up r' \<and> announced d d' msgs"
proof (cases "load_booking bid d")
  case None
  with assms show ?thesis by (auto simp: confirm_booking_route_def announced_nothing)
next
  case (Some b)
  let ?fp = "compute_fingerprint sha ''POST'' path (JObj [(''session_id'', JStr session)])"
  obtain out d1 m1 where bg: "begin_idempotent_request id key (br_user_id b) ?fp now (cfg_idempotency_key_ttl cfg)
      (cfg_idempotency_stale_timeout cfg) d m = (out, d1, m1)"
    by (metis prod_cases3)
  note seats1 = begin_alone_seats [OF bg]
  have "ledger_since d d1"
    by (rule books.begin_step [OF _ _ bg]) (simp_all add: ledger_since_def keeps_def assms(1))
  then have led1: "schema_ok d1" using ledgerD(1) by (simp add: ledger_since_def)
  obtain x d2 m2 where c: "confirm_booking_transaction ei id bid session key now d1 m1 = (x, d2, m2)"
    by (metis prod_cases3)
  show ?thesis
  proof (cases "handle_idempotency_outcome out = None \<and> (\<exists>resp. x = Inr resp)")
    case False
    then have "db_seats d' = db_seats d1 \<and> r' = r"
      using assms(3) Some bg c confirm_transaction_failed [of id d1 ei bid session key now m1 _ d2 m2] led1
      by (auto simp: confirm_booking_route_def complete_idempotent_request_def Let_def
        split: option.splits sum.splits confirm_exn.splits)
    then show ?thesis using assms(2) seats1 by (auto simp: announced_nothing)
  next
    case True
    then obtain resp where x: "x = Inr resp" by blast
    obtain b1 where b1: "find_booking bid d1 = Some b1" "d2 = confirmed_db bid (br_seat_ids b1) now (Some key) d1"
        "confirmable ei bid (br_seat_ids b1) session now (Some key) d1"
      using confirm_transaction_succeeded [of id d1 ei bid session key now m1 resp d2 m2] c x led1 by auto
    have ids: "resp_seat_ids resp = br_seat_ids b1"
      using c x b1 unfolding confirm_booking_transaction_def load_booking_def Let_def
      by (auto simp: build_booking_response_def confirmed_find_booking split: option.splits if_splits sum.splits prod.splits bool.splits)
    have out: "d' = complete_idempotent_request key (br_user_id b) 200 (BookingBody resp) d2"
        "r' = publish_rows row_update sr_event_id (select_seats (resp_seat_ids resp) d') r"
      using assms(3) True Some bg c x by (auto simp: confirm_booking_route_def Let_def)
    have rows: "db_seats d' = upd_where (\<lambda>r. sr_id r \<in> set (br_seat_ids b1)) (book_row bid now) (db_seats d)"
      unfolding out(1) b1(2) by (simp add: complete_idempotent_request_def seats1)
    from assms(4) have "announced d d' (map (\<lambda>x. (channel_name (sr_event_id x) (sr_section x), row_update x))
        (select_seats (br_seat_ids b1) d'))"
      by (rule announced_selected [OF _ rows]) (simp_all add: message_of_def)
    then show ?thesis using assms(2) unfolding out(2) ids by (auto simp: publish_rows_log)
  qed
qed

text \<open>A payment event: what it writes of the seats is what it returns as touched.\<close>

lemma refund_unbooks:
  assumes "ledger d" "find_booking i d = Some b" "br_status b = CONFIRMED" "x \<in> set (db_seats d)"
  shows "unbook_matches (br_seat_ids b) (br_id b) x \<longleftrightarrow> sr_id x \<in> set (br_seat_ids b)"
proof -
  have "booked_under (br_id b) d (sr_id x)" if "sr_id x \<in> set (br_seat_ids b)"
    using ledgerD(5) [OF assms(1) _ assms(3) that] find_booking_SomeD [OF assms(2)] by blast
  moreover have "find_seat (sr_id x) d = Some x"
    using assms(4) ledgerD(1) [OF assms(1)] by (simp add: find_seat_iff)
  ultimately show ?thesis by (auto simp: unbook_matches_def booked_under_def)
qed

lemma succeeded_touched:
  assumes "schema_ok d" "apply_payment_succeeded e d bk now d m = (Inr h, d', m')"
  shows "(hd_seats h = [] \<and> db_seats d' = db_seats d) \<or>
    (\<exists>f. bumps f \<and> db_seats d' = upd_where (\<lambda>r. sr_id r \<in> set (hd_seats h)) f (db_seats d))"
proof (cases "db_seats d' = db_seats d \<and> hd_seats h = []")
  case False
  then obtain b where b: "Option.bind bk (\<lambda>i. load_booking i d) = Some b" and h: "hd_seats h = br_seat_ids b"
    and w: "attempt_confirm_write e d (br_id b) (br_seat_ids b) (br_session_id b) now None d m = (Inr True, d', m')"
    using assms(2) unfolding apply_payment_succeeded_def
    by (auto simp: handled_as_def require_refund_db_def outbox_append_def
      split: option.splits if_splits sum.splits bool.splits prod.splits dest: attempt_confirm_write_fails)
  have "d' = confirmed_db (br_id b) (br_seat_ids b) now None d"
    by (rule attempt_confirm_write_True(2) [OF assms(1) w])
  then show ?thesis using h by (intro disjI2 exI [of _ "book_row (br_id b) now"]) simp
qed simp

lemma refunded_touched:
  assumes "ledger d" "apply_payment_refunded bk now d m = (Inr h, d', m')"
  shows "(hd_seats h = [] \<and> db_seats d' = db_seats d) \<or>
    (\<exists>f. bumps f \<and> db_seats d' = upd_where (\<lambda>r. sr_id r \<in> set (hd_seats h)) f (db_seats d))"
proof (cases "Option.bind bk (\<lambda>i. load_booking i d)")
  case None
  with assms show ?thesis by (auto simp: apply_payment_refunded_def handled_as_def)
next
  case (Some b)
  then obtain i where i: "bk = Some i" "load_booking i d = Some b" by (cases bk) simp_all
  show ?thesis
  proof (cases "br_status b = CONFIRMED")
    case True
    have "upd_where (unbook_matches (br_seat_ids b) (br_id b)) (unbook_row now) (db_seats d) =
        upd_where (\<lambda>r. sr_id r \<in> set (br_seat_ids b)) (unbook_row now) (db_seats d)"
      using refund_unbooks [OF assms(1) i(2) [unfolded load_booking_def] True] by (intro upd_where_cong) auto
    then show ?thesis
      using assms(2) True apply_refunded_spec [OF ledgerD(1) [OF assms(1)] i(2)] i(1)
      by (auto simp: handled_as_def intro!: exI [of _ "unbook_row now"])
  next
    case False
    with assms(2) apply_refunded_spec [OF ledgerD(1) [OF assms(1)] i(2)] i(1) show ?thesis by (auto simp: handled_as_def)
  qed
qed

lemma payments_announced:
  assumes "ledger d" "rd_up r" "length (queued_events locked limit d) \<le> 1"
    and "process_once rr ei locked limit now d r m = (res, d', r', m')" "schema_ok d'"
  shows "\<exists>msgs. rd_published r' = rd_published r @ msgs \<and> rd_up r' \<and> announced d d' msgs"
proof -
  let ?s = "\<lparr>bt_applied = 0, bt_rejected = 0, bt_touched = [], bt_expired = False\<rparr>"
  obtain x d1 m1 where p: "process_events rr ei d now (queued_events locked limit d) ?s d m = (x, d1, m1)"
    by (metis prod_cases3)
  have out: "d' = d1" "r' = (case x of Inl _ \<Rightarrow> r
      | Inr s \<Rightarrow> if bt_touched s = [] then r else publish_rows row_update sr_event_id (select_seats (bt_touched s) d1) r)"
    using assms(4) p by (auto simp: process_once_def Let_def split: sum.splits)
  have "(case x of Inl _ \<Rightarrow> db_seats d1 = db_seats d
    | Inr s \<Rightarrow> (bt_touched s = [] \<and> db_seats d1 = db_seats d) \<or>
        (\<exists>f. bumps f \<and> db_seats d1 = upd_where (\<lambda>r. sr_id r \<in> set (bt_touched s)) f (db_seats d)))"
  proof (cases "queued_events locked limit d")
    case Nil
    with p show ?thesis by auto
  next
    case (Cons e es)
    with assms(3) have one: "queued_events locked limit d = [e]" by simp
    show ?thesis
      using p succeeded_touched [OF ledgerD(1) [OF assms(1)], of ei "pe_booking_id e" now m]
        refunded_touched [OF assms(1), of "pe_booking_id e" now m] unfolding one
      by (auto simp: count_event_def split: if_splits prod.splits sum.splits)
  qed
  then show ?thesis
  proof (cases x)
    case (Inl e)
    with out assms(2) \<open>case x of Inl _ \<Rightarrow> _ | Inr s \<Rightarrow> _ s\<close> show ?thesis by (auto simp: announced_nothing)
  next
    case (Inr s)
    show ?thesis
    proof (cases "bt_touched s = [] \<and> db_seats d1 = db_seats d")
      case True
      with out Inr assms(2) show ?thesis by (auto simp: announced_nothing)
    next
      case False
      with Inr \<open>case x of Inl _ \<Rightarrow> _ | Inr s \<Rightarrow> _ s\<close> obtain f where f: "bumps f"
          "db_seats d' = upd_where (\<lambda>r. sr_id r \<in> set (bt_touched s)) f (db_seats d)" unfolding out by auto
      from announced_selected [OF assms(5) f(2,1)]
      have "announced d d' (map (\<lambda>x. (channel_name (sr_event_id x) (sr_section x), row_update x))
          (select_seats (bt_touched s) d'))" by (simp add: message_of_def)
      with out Inr assms(2) show ?thesis
        by (cases "bt_touched s = []") (auto simp: publish_rows_log select_seats_def)
    qed
  qed
qed

section \<open>Every operation\<close>

text \<open>
  The operation runs alone: no other session commits inside it, a hold names the event its seats belong
  to, and a payment pass finds at most one event.
\<close>

fun alone :: "db \<Rightarrow> operation \<Rightarrow> bool" where
  "alone d (Create_hold cfg e evt ids h now) \<longleftrightarrow>
     undisturbed e = e \<and> (\<forall>x \<in> set (db_seats d). sr_id x \<in> set ids \<longrightarrow> sr_event_id x = evt)"
| "alone d (Create_booking sha cfg e1 e2 path q key now) \<longleftrightarrow> e1 = id \<and> e2 = id"
| "alone d (Confirm_booking sha cfg ei e1 e2 e3 path bid h key now) \<longleftrightarrow> e1 = id \<and> e2 = id \<and> e3 = id"
| "alone d (Payment_pass rr ei locked limit now) \<longleftrightarrow> length (queued_events locked limit d) \<le> 1"
| "alone d (Demo_hold cfg e q now) \<longleftrightarrow> False"
| "alone d _ \<longleftrightarrow> True"

lemma undisturbed_id:
  assumes "undisturbed e = e"
  shows "ae_race e k = id" "ae_gap e k = id"
proof -
  have "ae_race e = (\<lambda>_. id)" "ae_gap e = (\<lambda>_. id)"
    using arg_cong [OF assms, of ae_race] arg_cong [OF assms, of ae_gap] by (simp_all add: undisturbed_def)
  then show "ae_race e k = id" "ae_gap e k = id" by simp_all
qed

lemma perform_step:
  assumes "alone d x" "perform x d r m = (a, d', r', m')"
  shows "system_step True d d'"
proof (cases x)
  case (Create_hold cfg e evt ids h now)
  with assms show ?thesis
    by (cases "create_hold cfg e evt ids h now d r m")
      (auto intro!: step_hold [where e = e] simp: undisturbed_id)
next
  case (Extend_hold cfg i h now)
  with assms show ?thesis by (cases "extend_hold cfg i h now d r m") (auto intro: step_extend)
next
  case (Create_booking sha cfg e1 e2 path q key now)
  with assms show ?thesis
    by (cases "create_booking_route sha cfg e1 e2 path q key now d m") (auto intro!: step_create [where ?env1.0 = id and ?env2.0 = id])
next
  case (Confirm_booking sha cfg ei e1 e2 e3 path bid h key now)
  with assms show ?thesis
    by (cases "confirm_booking_route sha cfg ei e1 e2 e3 path bid h key now d r m")
      (auto intro!: step_confirm [where ?env1.0 = id and ?env2.0 = id and ?env3.0 = id])
next
  case (Payment_webhook hm loads bp cfg body sig now)
  with assms show ?thesis by (cases "receive_payment_webhook hm loads bp cfg body sig now d m") (auto intro: step_webhook)
next
  case (Payment_pass rr ei locked limit now)
  with assms show ?thesis by (cases "process_once rr ei locked limit now d r m") (auto intro: step_payments)
next
  case (Sweep_pass locked batch now)
  with assms show ?thesis by (cases "sweep_once locked batch now d r m") (auto intro: step_sweep)
next
  case (Reap_pass locked batch timeout now)
  with assms show ?thesis by (cases "reap_once locked batch timeout now d m") (auto intro: step_reap)
qed (use assms in simp)

lemma silent_operation:
  assumes "rd_up r" "db_seats d' = db_seats d" "r' = r"
  shows "\<exists>msgs. rd_published r' = rd_published r @ msgs \<and> rd_up r' \<and> announced d d' msgs"
  using assms by (auto simp: announced_nothing)

lemma create_alone_seats:
  "create_booking_route sha cfg id id path q key now d m = (res, d', m') \<Longrightarrow> db_seats d' = db_seats d"
  by (auto simp: create_booking_route_def Let_def complete_idempotent_request_def
    split: prod.splits option.splits sum.splits creation_exn.splits dest!: begin_alone_seats dest: create_booking_db)

lemma perform_announced:
  assumes "ledger d" "rd_up r" "alone d x" "perform x d r m = (a, d', r', m')"
  shows "\<exists>msgs. rd_published r' = rd_published r @ msgs \<and> rd_up r' \<and> announced d d' msgs \<and> ledger d'"
proof -
  have led': "ledger d'"
    using ledger_reachable [OF assms(1), of True d'] perform_step [OF assms(3,4)] by blast
  note ok = ledgerD(1,2) [OF assms(1)] and ok' = ledgerD(1) [OF led']
  have "\<exists>msgs. rd_published r' = rd_published r @ msgs \<and> rd_up r' \<and> announced d d' msgs"
  proof (cases x)
    case (Create_hold cfg e evt ids h now)
    with assms hold_announced [OF ok assms(2), of e ids evt cfg h now m _ d' r' m'] show ?thesis
      by (cases "create_hold cfg e evt ids h now d r m") auto
  next
    case (Extend_hold cfg i h now)
    with assms extend_announced [OF ok(1) assms(2), of cfg i h now m _ d' r' m'] show ?thesis
      by (cases "extend_hold cfg i h now d r m") auto
  next
    case (Create_booking sha cfg e1 e2 path q key now)
    with assms create_alone_seats [of sha cfg path q key now d m _ d' m'] show ?thesis
      by (intro silent_operation) (auto split: prod.splits)
  next
    case (Confirm_booking sha cfg ei e1 e2 e3 path bid h key now)
    with assms confirm_announced [OF assms(1,2), of sha cfg ei path bid h key now m _ d' r' m'] ok' show ?thesis
      by (cases "confirm_booking_route sha cfg ei e1 e2 e3 path bid h key now d r m") auto
  next
    case (Payment_webhook hm loads bp cfg body sig now)
    with assms have "db_seats d' = db_seats d \<and> r' = r"
      by (auto simp: receive_payment_webhook_def ingest_webhook_def store_event_def Let_def
        split: prod.splits sum.splits bool.splits loaded.splits json.splits if_splits)
    with assms(2) show ?thesis by (intro silent_operation) simp_all
  next
    case (Payment_pass rr ei locked limit now)
    with assms payments_announced [OF assms(1,2), of locked limit rr ei now m _ d' r' m'] ok' show ?thesis
      by (cases "process_once rr ei locked limit now d r m") auto
  next
    case (Sweep_pass locked batch now)
    with assms sweep_announced [OF ok(1) assms(2), of locked batch now m _ d' r' m'] show ?thesis
      by (cases "sweep_once locked batch now d r m") auto
  next
    case (Reap_pass locked batch timeout now)
    with assms show ?thesis by (intro silent_operation) (auto simp: reap_once_def Let_def)
  qed (use assms in simp)
  with led' show ?thesis by blast
qed

section \<open>Replaying the log\<close>

text \<open>
  The seats of one section as their rows are, the messages on its channel, and a run of operations
  none of which is disturbed.
\<close>

definition row_state :: "seat_row \<Rightarrow> seat_state" where
  "row_state r = \<lparr>ss_status = sr_status r, ss_expires = sr_expires r, ss_version = sr_version r\<rparr>"

definition section_map :: "section_key \<Rightarrow> db \<Rightarrow> seat_map" where
  "section_map k d i =
     (case find_seat i d of
        None \<Rightarrow> None
      | Some r \<Rightarrow> if (sr_event_id r, sr_section r) = k then Some (row_state r) else None)"

definition update_state :: "seat_update \<Rightarrow> seat_state" where
  "update_state u = \<lparr>ss_status = su_status u, ss_expires = su_expires u, ss_version = su_version u\<rparr>"

definition updates_on :: "section_key \<Rightarrow> (string \<times> seat_update) list \<Rightarrow> seat_update list" where
  "updates_on k msgs = map snd (filter (\<lambda>m. fst m = channel_of k) msgs)"

definition seat_events :: "seat_update list \<Rightarrow> (int \<times> seat_state) list" where
  "seat_events us = map (\<lambda>u. (su_seat_id u, update_state u)) us"

fun quiet_run :: "operation list \<Rightarrow> db \<Rightarrow> redis \<Rightarrow> metrics \<Rightarrow> bool" where
  "quiet_run [] d r m \<longleftrightarrow> True"
| "quiet_run (x # xs) d r m \<longleftrightarrow> alone d x \<and> (case perform x d r m of (a, d', r', m') \<Rightarrow> quiet_run xs d' r' m')"

definition published_since :: "redis \<Rightarrow> redis \<Rightarrow> (string \<times> seat_update) list" where
  "published_since r r' = drop (length (rd_published r)) (rd_published r')"

lemma updates_on_append: "updates_on k (xs @ ys) = updates_on k xs @ updates_on k ys"
  by (simp add: updates_on_def)

lemma seat_events_append: "seat_events (xs @ ys) = seat_events xs @ seat_events ys"
  by (simp add: seat_events_def)

lemma message_of_on: "fst (message_of r) = channel_of k \<longleftrightarrow> (sr_event_id r, sr_section r) = k"
  by (cases k) (simp add: message_of_def channel_of_def channel_name_inject)

text \<open>Messages about different seats, each above the version known, are in order.\<close>

lemma in_order_batch:
  assumes "distinct (map fst evs)" "\<And>i s x. (i, s) \<in> set evs \<Longrightarrow> known i = Some x \<Longrightarrow> ss_version x < ss_version s"
  shows "in_order known evs"
  using assms
proof (induction evs arbitrary: known)
  case (Cons e evs)
  obtain j t where e: "e = (j, t)" by (cases e)
  have "in_order (known(j \<mapsto> t)) evs"
  proof (rule Cons.IH)
    fix i s x assume "(i, s) \<in> set evs" "(known(j \<mapsto> t)) i = Some x"
    moreover from this(1) have "i \<noteq> j" using Cons.prems(1) e by (auto simp: image_iff)
    ultimately show "ss_version x < ss_version s" by (auto intro: Cons.prems(2))
  qed (use Cons.prems in simp)
  moreover have "ss_version x < ss_version t" if "known j = Some x" for x
    using Cons.prems(2) [of j t x] that e by simp
  ultimately show ?case using e by (simp split: option.split)
qed simp

text \<open>Only the versions known matter.\<close>

lemma in_order_versions:
  assumes "\<And>i. map_option ss_version (known i) = map_option ss_version (known' i)"
  shows "in_order known evs = in_order known' evs"
  using assms
proof (induction evs arbitrary: known known')
  case (Cons e evs)
  obtain j t where e: "e = (j, t)" by (cases e)
  have "in_order (known(j \<mapsto> t)) evs = in_order (known'(j \<mapsto> t)) evs"
    using Cons.prems by (intro Cons.IH) simp
  with Cons.prems [of j] e show ?case by (auto split: option.splits)
qed simp

text \<open>The events of one operation on a section: one for every seat of the section it wrote.\<close>

lemma announced_events:
  fixes k
  assumes "announced d d' msgs"
  defines "evs \<equiv> seat_events (updates_on k msgs)"
  obtains ids f where "db_seats d' = upd_where (\<lambda>r. sr_id r \<in> ids) f (db_seats d)" "bumps f" "distinct (map fst evs)"
    "set evs = {(sr_id r, row_state (f r)) | r. r \<in> set (db_seats d) \<and> sr_id r \<in> ids \<and> (sr_event_id r, sr_section r) = k}"
proof -
  obtain ids f where d': "db_seats d' = upd_where (\<lambda>r. sr_id r \<in> ids) f (db_seats d)" and f: "bumps f"
    and dis: "distinct (map (su_seat_id \<circ> snd) msgs)"
    and msgs: "set msgs = (message_of \<circ> f) ` {r \<in> set (db_seats d). sr_id r \<in> ids}"
    using assms(1) by (auto simp: announced_def)
  have "map fst evs = map (su_seat_id \<circ> snd) (filter (\<lambda>m. fst m = channel_of k) msgs)"
    by (simp add: evs_def seat_events_def updates_on_def comp_def)
  then have distinct: "distinct (map fst evs)" using distinct_map_filter [OF dis] by simp
  have "set evs = (\<lambda>m. (su_seat_id (snd m), update_state (snd m))) ` {m \<in> set msgs. fst m = channel_of k}"
    by (auto simp: evs_def seat_events_def updates_on_def)
  also have "{m \<in> set msgs. fst m = channel_of k} =
      (message_of \<circ> f) ` {r \<in> set (db_seats d). sr_id r \<in> ids \<and> (sr_event_id r, sr_section r) = k}"
    unfolding msgs by (auto simp: message_of_on bumps_frame [OF f])
  also have "(\<lambda>m. (su_seat_id (snd m), update_state (snd m))) ` \<dots> =
      (\<lambda>r. (sr_id r, row_state (f r))) ` {r \<in> set (db_seats d). sr_id r \<in> ids \<and> (sr_event_id r, sr_section r) = k}"
    by (simp add: image_image message_of_def row_update_def update_state_def row_state_def bumps_frame [OF f])
  also have "\<dots> = {(sr_id r, row_state (f r)) | r. r \<in> set (db_seats d) \<and> sr_id r \<in> ids \<and> (sr_event_id r, sr_section r) = k}"
    by blast
  finally show thesis using that d' f distinct by blast
qed

text \<open>A list of events about different seats, by the rows they are about.\<close>

lemma events_by_row:
  assumes "schema_ok d" "distinct (map fst evs)"
    and "set evs = {(sr_id r, g r) | r. r \<in> set (db_seats d) \<and> P r}"
  shows "map_of (rev evs) i = (case find_seat i d of None \<Rightarrow> None | Some r \<Rightarrow> if P r then Some (g r) else None)"
proof (cases "map_of evs i")
  case None
  then have "i \<notin> fst ` set evs" by (simp add: map_of_eq_None_iff)
  then show ?thesis
    using map_of_rev [OF assms(2)] None assms(1,3) by (force simp: find_seat_iff split: option.split)
next
  case (Some s)
  then have "(i, s) \<in> set evs" by (rule map_of_SomeD)
  then obtain r where r: "r \<in> set (db_seats d)" "sr_id r = i" "P r" "s = g r"
    unfolding assms(3) by blast
  moreover from this have "find_seat i d = Some r" using assms(1) by (simp add: find_seat_iff)
  ultimately show ?thesis using Some map_of_rev [OF assms(2)] by simp
qed

text \<open>One operation: its messages take the section's seats from before to after it.\<close>

lemma announced_replays:
  fixes k
  assumes "schema_ok d" "announced d d' msgs"
  defines "evs \<equiv> seat_events (updates_on k msgs)"
  shows "section_map k d' = section_map k d ++ map_of (rev evs) \<and> in_order (section_map k d) evs \<and>
    dom (section_map k d') = dom (section_map k d)"
proof -
  obtain ids f where d': "db_seats d' = upd_where (\<lambda>r. sr_id r \<in> ids) f (db_seats d)" and f: "bumps f"
    and distinct: "distinct (map fst evs)"
    and set: "set evs = {(sr_id r, row_state (f r)) | r. r \<in> set (db_seats d) \<and> sr_id r \<in> ids \<and> (sr_event_id r, sr_section r) = k}"
    unfolding evs_def by (rule announced_events [OF assms(2), of k])
  note at = events_by_row [OF assms(1) distinct set]
  have found: "find_seat i d' = map_option (\<lambda>r. if sr_id r \<in> ids then f r else r) (find_seat i d)" for i
    by (simp add: find_seat_def d' by_key_upd_where bumps_frame [OF f])
  have "section_map k d' i = (section_map k d ++ map_of (rev evs)) i" for i
    by (cases "find_seat i d") (simp_all add: section_map_def found at map_add_def bumps_frame [OF f])
  moreover have "dom (section_map k d') = dom (section_map k d)"
    by (auto simp: dom_def section_map_def found bumps_frame [OF f] split: option.splits if_splits)
  moreover have "in_order (section_map k d) evs"
  proof (rule in_order_batch [OF distinct])
    fix i s x assume "(i, s) \<in> set evs" "section_map k d i = Some x"
    moreover from this(1) obtain r where r: "r \<in> set (db_seats d)" "sr_id r = i" "s = row_state (f r)"
      unfolding set by blast
    moreover from this have "find_seat i d = Some r" using assms(1) by (simp add: find_seat_iff)
    ultimately show "ss_version x < ss_version s"
      by (auto simp: section_map_def row_state_def bumps_frame [OF f] split: if_splits)
  qed
  ultimately show ?thesis by blast
qed

lemma published_since_append: "rd_published r' = rd_published r @ msgs \<Longrightarrow> published_since r r' = msgs"
  by (simp add: published_since_def)

lemma run_replays:
  assumes "ledger d" "rd_up r" "quiet_run xs d r m" "serve (\<lambda>_ s. s) j xs d r m = (as, d', r', m')"
  shows "\<exists>msgs. rd_published r' = rd_published r @ msgs \<and> ledger d' \<and>
    section_map k d' = section_map k d ++ map_of (rev (seat_events (updates_on k msgs))) \<and>
    in_order (section_map k d) (seat_events (updates_on k msgs)) \<and> dom (section_map k d') = dom (section_map k d)"
  using assms
proof (induction xs arbitrary: j d r m as)
  case Nil
  then show ?case by (intro exI [of _ "[]"]) (simp add: updates_on_def seat_events_def)
next
  case (Cons x xs)
  obtain a d1 r1 m1 where p: "perform x d r m = (a, d1, r1, m1)" by (metis prod_cases4)
  with Cons.prems(4) obtain bs where rest: "serve (\<lambda>_ s. s) (j + 1) xs d1 r1 m1 = (bs, d', r', m')"
    by (auto split: prod.splits)
  from Cons.prems(3) p have quiet: "alone d x" "quiet_run xs d1 r1 m1" by simp_all
  from perform_announced [OF Cons.prems(1,2) quiet(1) p] obtain msgs where
    one: "rd_published r1 = rd_published r @ msgs" "rd_up r1" "announced d d1 msgs" "ledger d1" by blast
  from announced_replays [OF ledgerD(1) [OF Cons.prems(1)] one(3), of k] have
    step: "section_map k d1 = section_map k d ++ map_of (rev (seat_events (updates_on k msgs)))"
      "in_order (section_map k d) (seat_events (updates_on k msgs))" "dom (section_map k d1) = dom (section_map k d)"
    by blast+
  from Cons.IH [OF one(4,2) quiet(2) rest] obtain more where
    "rd_published r' = rd_published r1 @ more" "ledger d'"
    "section_map k d' = section_map k d1 ++ map_of (rev (seat_events (updates_on k more)))"
    "in_order (section_map k d1) (seat_events (updates_on k more))" "dom (section_map k d') = dom (section_map k d1)"
    by blast
  moreover from this(5) step(3) have "dom (section_map k d') = dom (section_map k d)" by (rule trans)
  ultimately show ?case
    using one(1) step(1,2)
    by (intro exI [of _ "msgs @ more"])
      (simp add: updates_on_append seat_events_append in_order_append del: dom_map_add)
qed

section \<open>The properties\<close>


text \<open>The sweep of the sample database, then an extension of the hold of seat 2.\<close>

definition sample_run :: "operation list" where
  "sample_run = [Sweep_pass {} 10 100, Extend_hold default_settings 2 ''A'' 100]"

definition sample_log :: "(string \<times> seat_update) list" where
  "sample_log =
     [(channel_name 1 ''S'', \<lparr>su_seat_id = 3, su_status = AVAILABLE, su_expires = None, su_version = 2\<rparr>),
      (channel_name 1 ''S'', \<lparr>su_seat_id = 2, su_status = HELD, su_expires = Some (100 + seconds 480), su_version = 2\<rparr>)]"

lemma sample_published:
  "published_since sample_redis (fst (snd (snd (serve (\<lambda>_ s. s) 0 sample_run sample_db sample_redis zero_metrics)))) = sample_log"
  by code_simp

lemma sample_quiet: "quiet_run sample_run sample_db sample_redis zero_metrics"
  by (simp add: sample_run_def split: prod.split)


text \<open>
  What is not in the log: a hold is published under the event the request names, whatever event the
  seats belong to, and the short hold of the walkthrough is not published at all.
\<close>

lemma hold_published_under_named_event:
  assumes "rd_up r" "create_hold cfg e evt ids h now d r m = (a, d', r', m')" "x \<in> set (published_since r r')"
  shows "\<exists>sec u. x = (channel_name evt sec, u)"
proof -
  have "\<exists>r1. rd_published r1 = rd_published r \<and> (r' = r1 \<or> (\<exists>u rows. r' = publish_rows u (\<lambda>_. evt) rows r1))"
    using assms(2) mirror_all_facts [OF assms(1)]
    by (auto simp: create_hold_def Let_def split: sum.splits prod.splits if_splits) blast+
  then obtain r1 where "rd_published r1 = rd_published r" "r' = r1 \<or> (\<exists>u rows. r' = publish_rows u (\<lambda>_. evt) rows r1)"
    by blast
  with assms(3) show ?thesis by (force simp: published_since_def publish_rows_log split: if_splits)
qed

lemma demo_hold_publishes_nothing:
  "create_demo_hold cfg e q now d r m = (a, d', r', m') \<Longrightarrow> rd_published r' = rd_published r"
  by (auto simp: create_demo_hold_def Let_def set_hold_mirror_def split: sum.splits prod.splits if_splits)

end
