(* ===== verification/Live_Map.thy ===== *)
theory Live_Map
  imports Publication Hub_Loop Hub_Properties
begin

text \<open>
  From the commit to the screen. A client connects to the hub of one worker and watches one section;
  the operations of the whole program run, publish, and the messages reach the hub in the order in
  which they were published; the hub coalesces, flushes and serves other sockets meanwhile. After a
  flush the client shows what the database holds.
\<close>

section \<open>The client behind the hub\<close>

text \<open>What a client that watches section \<open>k\<close> through socket \<open>w\<close> makes of the frames of a flush round.\<close>

definition shown :: "section_key \<Rightarrow> web_socket \<Rightarrow> broadcast list \<Rightarrow> seat_map \<Rightarrow> seat_map" where
  "shown k w bs v =
     fold (\<lambda>b v. if bc_key b = k \<and> w \<in> bc_sent b then apply_seat_diffs (bc_diffs b) v else v) bs v"

text \<open>An event of the worker, seen with what the client shows.\<close>

definition watch :: "(string \<Rightarrow> seat_update option) \<Rightarrow> section_key \<Rightarrow> web_socket \<Rightarrow> event \<Rightarrow>
    service \<times> seat_map \<Rightarrow> service \<times> seat_map" where
  "watch decode k w e sv =
     (on_event decode e (fst sv),
      case e of
        Flushed send_ok \<Rightarrow>
          if sv_flush_task (fst sv) \<noteq> Running then snd sv
          else shown k w (fst (flush_round send_ok (sv_hub (fst sv)) (sv_metrics (fst sv)))) (snd sv)
      | _ \<Rightarrow> snd sv)"

text \<open>The updates of section \<open>k\<close> among the events, and the events that leave the client connected.\<close>

fun heard :: "(string \<Rightarrow> seat_update option) \<Rightarrow> section_key \<Rightarrow> event list \<Rightarrow> seat_update list" where
  "heard decode k [] = []"
| "heard decode k (Polled (Message c data) # es) =
     (if parse_channel c = Some k then (case decode data of None \<Rightarrow> [] | Some u \<Rightarrow> [u]) else []) @ heard decode k es"
| "heard decode k (e # es) = heard decode k es"

fun keeps_watching :: "section_key \<Rightarrow> web_socket \<Rightarrow> event \<Rightarrow> bool" where
  "keeps_watching k w (Flushed send_ok) \<longleftrightarrow> send_ok w"
| "keeps_watching k w (Left up k' w') \<longleftrightarrow> (k', w') \<noteq> (k, w)"
| "keeps_watching k w e \<longleftrightarrow> True"

section \<open>Windows of the client\<close>

text \<open>
  The client has been through the windows \<open>evss\<close>, and the events \<open>cur\<close> wait in the buffer of its
  section.
\<close>

definition windows :: "section_key \<Rightarrow> web_socket \<Rightarrow> seat_map \<Rightarrow> (int \<times> seat_state) list list \<Rightarrow>
    (int \<times> seat_state) list \<Rightarrow> hub \<Rightarrow> seat_map \<Rightarrow> bool" where
  "windows k w seats evss cur h v \<longleftrightarrow>
     w \<in> subscribers_of k h \<and>
     (case fold window evss (new_coalescer, seats) of (c0, v0) \<Rightarrow>
        map_of (hb_coalescers h) k = Some (record_all cur c0) \<and> v = v0)"

lemma windowsE:
  assumes "windows k w seats evss cur h v"
  obtains c0 where "w \<in> subscribers_of k h" "fold window evss (new_coalescer, seats) = (c0, v)"
    "map_of (hb_coalescers h) k = Some (record_all cur c0)"
  using assms by (auto simp: windows_def split: prod.splits)

lemma windowsI:
  "w \<in> subscribers_of k h \<Longrightarrow> fold window evss (new_coalescer, seats) = (c0, v) \<Longrightarrow>
    map_of (hb_coalescers h) k = Some (record_all cur c0) \<Longrightarrow> windows k w seats evss cur h v"
  by (simp add: windows_def)

lemma record_all_snoc: "record_all (evs @ [(i, s)]) c = record_state i s (record_all evs c)"
  by (simp add: record_all_def)

lemma clean_buffer: "\<not> is_dirty (record_all cur c) \<Longrightarrow> cur = []"
  using keys_record_all [of cur c] by (auto simp: is_dirty_def)

text \<open>A message is recorded.\<close>

lemma windows_deliver:
  assumes "windows k w seats evss cur h v" "deliver (c, u) h = Some h'"
  shows "windows k w seats evss (if parse_channel c = Some k then cur @ seat_events [u] else cur) h' v"
proof -
  obtain c0 where c0: "w \<in> subscribers_of k h" "fold window evss (new_coalescer, seats) = (c0, v)"
    "map_of (hb_coalescers h) k = Some (record_all cur c0)" using assms(1) by (rule windowsE)
  obtain j where j: "parse_channel c = Some j" using assms(2) by (auto simp: deliver_def split: option.splits)
  have "hb_subscribers h' = hb_subscribers h"
    using assms(2) j by (auto simp: deliver_def Let_def split: option.splits)
  then have "w \<in> subscribers_of k h'" using c0(1) by (simp add: subscribers_of_def)
  moreover have "map_of (hb_coalescers h') k = Some (record_all (if j = k then cur @ seat_events [u] else cur) c0)"
    using assms(2) j c0(3)
    by (cases "j = k") (auto simp: deliver_def Let_def update_conv' seat_events_def update_state_def record_all_snoc
      split: option.splits)
  ultimately show ?thesis using c0(2) j by (intro windowsI) simp_all
qed

text \<open>A flush closes the window of its section and leaves the other sections alone.\<close>

lemma flush_frame: "subscribers_of k' (fst (snd (flush_section ok k h m))) = subscribers_of k' h"
  by (auto simp: flush_section_def Let_def subscribers_of_def split: option.split prod.split)

lemma flush_other:
  "k' \<noteq> k \<Longrightarrow> map_of (hb_coalescers (fst (snd (flush_section ok k h m)))) k' = map_of (hb_coalescers h) k' \<and>
    (\<forall>b. fst (flush_section ok k h m) = Some b \<longrightarrow> bc_key b = k)"
  by (auto simp: flush_section_def Let_def update_conv' split: option.split prod.split)

definition frames :: "broadcast option \<Rightarrow> broadcast list" where
  "frames b = (case b of None \<Rightarrow> [] | Some x \<Rightarrow> [x])"

lemma flush_other_shown: "k' \<noteq> k \<Longrightarrow> shown k' w (frames (fst (flush_section ok k h m))) v = v"
  using flush_other [of k' k ok h m] by (auto simp: frames_def shown_def split: option.split)

lemma windows_flush_own:
  assumes "windows k w seats evss cur h v" "ok w" "flush_section ok k h m = (b, h', m')"
  shows "\<exists>evss'. windows k w seats evss' [] h' (shown k w (frames b) v) \<and> concat evss' = concat evss @ cur"
proof -
  obtain c0 where c0: "w \<in> subscribers_of k h" "fold window evss (new_coalescer, seats) = (c0, v)"
    "map_of (hb_coalescers h) k = Some (record_all cur c0)" using assms(1) by (rule windowsE)
  show ?thesis
  proof (cases "is_dirty (record_all cur c0)")
    case False
    with assms c0 clean_buffer [OF False] show ?thesis
      by (intro exI [of _ evss]) (simp add: flush_section_def shown_def frames_def)
  next
    case True
    obtain ds raw c1 where f: "flush (record_all cur c0) = ((ds, raw), c1)" by (metis prod.collapse)
    have "w \<in> subscribers_of k h'" using flush_frame [of k ok k h m] c0(1) assms(3) by simp
    moreover have "map_of (hb_coalescers h') k = Some c1"
      using assms(3) c0(3) True f by (auto simp: flush_section_def Let_def update_conv' split: if_splits)
    moreover have "shown k w (frames b) v = apply_seat_diffs ds v"
      using assms(2,3) c0 True f
      by (auto simp: flush_section_def Let_def shown_def frames_def apply_seat_diffs_def split: if_splits)
    moreover have "fold window (evss @ [cur]) (new_coalescer, seats) = (c1, apply_seat_diffs ds v)"
      using c0(2) f by (simp add: window_def)
    ultimately show ?thesis
      by (intro exI [of _ "evss @ [cur]"]) (auto intro!: windowsI [of _ _ _ _ _ c1])
  qed
qed

lemma shown_append: "shown k w (xs @ ys) v = shown k w ys (shown k w xs v)"
  by (simp add: shown_def)

text \<open>A flush of any section loses nothing, and leaves nothing waiting if it is the client's.\<close>

lemma windows_flush:
  assumes "windows k w seats evss cur h v" "ok w" "flush_section ok k' h m = (b, h', m')"
  shows "\<exists>evss' cur'. windows k w seats evss' cur' h' (shown k w (frames b) v) \<and>
    concat evss' @ cur' = concat evss @ cur \<and> (k' = k \<or> cur = [] \<longrightarrow> cur' = [])"
proof (cases "k' = k")
  case True
  with windows_flush_own [of k w seats evss cur h v ok m b h' m'] assms show ?thesis by force
next
  case False
  with assms flush_other [of k k' ok h m] flush_other_shown [of k k' w ok h m v] flush_frame [of k ok k' h m]
  have "windows k w seats evss cur h' (shown k w (frames b) v)" by (auto simp: windows_def)
  with False show ?thesis by blast
qed

lemma windows_tick:
  assumes "windows k w seats evss cur h v" "ok w" "flush_tick ok ks h m = (bs, h', m')"
  shows "\<exists>evss' cur'. windows k w seats evss' cur' h' (shown k w bs v) \<and>
    concat evss' @ cur' = concat evss @ cur \<and> (k \<in> set ks \<or> cur = [] \<longrightarrow> cur' = [])"
  using assms(1,3)
proof (induction ks arbitrary: evss cur h v m bs)
  case Nil
  then show ?case by (intro exI [of _ evss] exI [of _ cur]) (simp add: shown_def)
next
  case (Cons j ks)
  obtain b h1 m1 where first: "flush_section ok j h m = (b, h1, m1)" by (metis prod_cases3)
  obtain cs where rest: "flush_tick ok ks h1 m1 = (cs, h', m')" and bs: "bs = frames b @ cs"
    using Cons.prems(2) first by (auto simp: frames_def split: prod.splits option.splits)
  from windows_flush [OF Cons.prems(1) assms(2) first] obtain evss1 cur1 where
    one: "windows k w seats evss1 cur1 h1 (shown k w (frames b) v)" "concat evss1 @ cur1 = concat evss @ cur"
      "j = k \<or> cur = [] \<longrightarrow> cur1 = []" by blast
  from Cons.IH [OF one(1) rest] one(2,3) show ?case unfolding bs shown_append by auto
qed

lemma windows_round:
  assumes "windows k w seats evss cur h v" "ok w" "flush_round ok h m = (bs, h', m')"
  shows "\<exists>evss'. windows k w seats evss' [] h' (shown k w bs v) \<and> concat evss' = concat evss @ cur"
proof -
  obtain c where "map_of (hb_coalescers h) k = Some c" using assms(1) by (rule windowsE)
  then have "k \<in> set (map fst (hb_coalescers h))" by (force dest: map_of_SomeD)
  with windows_tick [OF assms(1,2) assms(3) [unfolded flush_round_def]] show ?thesis by auto
qed

text \<open>Sockets that join and leave do not disturb the client.\<close>

lemma windows_add:
  assumes "windows k w seats evss cur h v"
  shows "windows k w seats evss cur (snd (add_subscriber up k' w' h)) v"
proof -
  obtain c0 where c0: "w \<in> subscribers_of k h" "fold window evss (new_coalescer, seats) = (c0, v)"
    "map_of (hb_coalescers h) k = Some (record_all cur c0)" using assms by (rule windowsE)
  then have "map_of (hb_coalescers (snd (add_subscriber up k' w' h))) k = Some (record_all cur c0)"
    by (auto simp: add_subscriber_def Let_def update_conv')
  with c0 show ?thesis by (intro windowsI) (auto simp: subscribers_add)
qed

lemma windows_remove:
  assumes "windows k w seats evss cur h v" "(k', w') \<noteq> (k, w)"
  shows "windows k w seats evss cur (snd (remove_subscriber up k' w' h)) v"
proof -
  obtain c0 where c0: "w \<in> subscribers_of k h" "fold window evss (new_coalescer, seats) = (c0, v)"
    "map_of (hb_coalescers h) k = Some (record_all cur c0)" using assms(1) by (rule windowsE)
  then have "map_of (hb_coalescers (snd (remove_subscriber up k' w' h))) k = Some (record_all cur c0)"
    using assms(2)
    by (auto simp: remove_subscriber_def Let_def subscribers_of_def delete_conv' split: option.splits)
  with c0 assms(2) show ?thesis by (intro windowsI) (auto simp: subscribers_remove)
qed

section \<open>Events\<close>

lemma heard_append: "heard decode k (xs @ ys) = heard decode k xs @ heard decode k ys"
  by (induction decode k xs rule: heard.induct) simp_all

lemma watch_step:
  assumes "registered h" "readable decode e" "keeps_watching k w e" "windows k w seats evss cur h v"
  shows "\<exists>h' m' v' evss' cur'. watch decode k w e (healthy (h, m), v) = (healthy (h', m'), v') \<and> registered h' \<and>
    windows k w seats evss' cur' h' v' \<and> concat evss' @ cur' = concat evss @ cur @ seat_events (heard decode k [e]) \<and>
    ((\<exists>ok. e = Flushed ok) \<longrightarrow> cur' = [])"
proof -
  obtain h' m' where i: "intended decode e (h, m) = (h', m')" by fastforce
  with on_event_healthy [OF assms(1,2), of m] have next_one:
    "on_event decode e (healthy (h, m)) = healthy (h', m')" "registered h'" by simp_all
  show ?thesis
  proof (cases e)
    case (Polled p)
    have "\<exists>cur'. windows k w seats evss cur' h' v \<and> cur' = cur @ seat_events (heard decode k [e])"
    proof (cases "\<exists>c data. p = Message c data")
      case True
      then obtain c data where p: "p = Message c data" by blast
      with assms(2) Polled obtain j u where ju: "parse_channel c = Some j" "decode data = Some u"
        by (auto simp: readable_def)
      obtain h1 where h1: "deliver (c, u) h = Some h1" using deliver_parsed [OF ju(1)] by blast
      with i Polled p ju(2) have "h' = h1" by (simp add: received_def)
      with windows_deliver [OF assms(4) h1] ju Polled p show ?thesis
        by (auto simp: seat_events_def split: if_splits)
    next
      case False
      with assms(4) i Polled show ?thesis by (cases p) (auto simp: seat_events_def)
    qed
    with next_one Polled show ?thesis by (auto simp: watch_def)
  next
    case (Flushed ok)
    then obtain bs where r: "flush_round ok h m = (bs, h', m')" using i by (metis intended.simps(5) prod.collapse)
    from windows_round [OF assms(4) _ r] assms(3) Flushed obtain evss' where
      "windows k w seats evss' [] h' (shown k w bs v)" "concat evss' = concat evss @ cur" by auto
    with next_one r Flushed show ?thesis
      by (intro exI [of _ h'] exI [of _ m'] exI [of _ "shown k w bs v"] exI [of _ evss'] exI [of _ "[]"])
        (simp add: watch_def healthy_def seat_events_def)
  next
    case (Joined up k' w')
    with next_one i windows_add [OF assms(4), of up k' w'] show ?thesis
      by (auto simp: watch_def seat_events_def)
  next
    case (Left up k' w')
    with next_one i windows_remove [OF assms(4), of k' w' up] assms(3) show ?thesis
      by (auto simp: watch_def seat_events_def)
  qed
qed

lemma watch_events:
  assumes "registered h" "list_all (readable decode) es" "list_all (keeps_watching k w) es" "windows k w seats evss cur h v"
  shows "\<exists>h' m' v' evss' cur'. fold (watch decode k w) es (healthy (h, m), v) = (healthy (h', m'), v') \<and> registered h' \<and>
    windows k w seats evss' cur' h' v' \<and> concat evss' @ cur' = concat evss @ cur @ seat_events (heard decode k es)"
  using assms
proof (induction es arbitrary: h m v evss cur)
  case Nil
  then show ?case by (auto simp: seat_events_def)
next
  case (Cons e es)
  from watch_step [of h decode e k w seats evss cur v m] Cons.prems obtain h1 m1 v1 evss1 cur1 where one:
    "watch decode k w e (healthy (h, m), v) = (healthy (h1, m1), v1)" "registered h1"
    "windows k w seats evss1 cur1 h1 v1" "concat evss1 @ cur1 = concat evss @ cur @ seat_events (heard decode k [e])" by auto
  from Cons.IH [OF one(2) _ _ one(3), of m1] Cons.prems one(1) obtain h' m' v' evss' cur' where
    "fold (watch decode k w) (e # es) (healthy (h, m), v) = (healthy (h', m'), v')" "registered h'"
    "windows k w seats evss' cur' h' v'" "concat evss' @ cur' = concat evss1 @ cur1 @ seat_events (heard decode k es)" by auto
  moreover from this(4) one(4) heard_append [of decode k "[e]" es]
  have "concat evss' @ cur' = concat evss @ cur @ seat_events (heard decode k (e # es))"
    by (simp add: seat_events_append)
  ultimately show ?case by blast
qed

text \<open>
  Why the section's messages come at all: while the client stays, the worker stays subscribed to its
  channel, whoever else leaves.
\<close>

lemma channels_tick: "hb_channels (fst (snd (flush_tick ok ks h m))) = hb_channels h"
proof (induction ks arbitrary: h m)
  case (Cons k ks)
  have "hb_channels (fst (snd (flush_section ok k h m))) = hb_channels h"
    by (auto simp: flush_section_def Let_def split: option.split prod.split)
  with Cons show ?case by (simp add: case_prod_beta Let_def)
qed simp

lemma subscribed_step:
  assumes "keeps_watching k w e" "w \<in> subscribers_of k h" "channel_of k \<in> hb_channels h"
  shows "channel_of k \<in> hb_channels (fst (intended decode e (h, m)))"
proof (cases e)
  case (Polled p)
  with assms(3) show ?thesis
    by (cases p) (auto simp: received_def deliver_def Let_def split: option.splits)
next
  case (Flushed ok)
  with assms(3) show ?thesis by (simp add: flush_round_def channels_tick)
next
  case (Joined up k' w')
  with assms(3) show ?thesis by (auto simp: add_subscriber_def Let_def)
next
  case (Left up k' w')
  with assms show ?thesis
    by (auto simp: remove_subscriber_def subscribers_of_def Let_def split: option.splits)
qed

lemma stays_subscribed:
  assumes "registered h" "list_all (readable decode) es" "list_all (keeps_watching k w) es"
    and "windows k w seats evss cur h v" "channel_of k \<in> hb_channels h"
  shows "channel_of k \<in> hb_channels (sv_hub (fst (fold (watch decode k w) es (healthy (h, m), v))))"
  using assms
proof (induction es arbitrary: h m v evss cur)
  case (Cons e es)
  from watch_step [of h decode e k w seats evss cur v m] Cons.prems obtain h1 m1 v1 evss1 cur1 where one:
    "watch decode k w e (healthy (h, m), v) = (healthy (h1, m1), v1)" "registered h1"
    "windows k w seats evss1 cur1 h1 v1" by auto
  then have "healthy (h1, m1) = healthy (intended decode e (h, m))"
    using on_event_healthy [of h decode e m] Cons.prems(1,2) by (simp add: watch_def)
  then have "h1 = fst (intended decode e (h, m))" by (simp add: healthy_def)
  moreover have "w \<in> subscribers_of k h" using Cons.prems(4) by (rule windowsE)
  ultimately have "channel_of k \<in> hb_channels h1" using subscribed_step [of k w e h decode m] Cons.prems(3,5) by simp
  with Cons.IH [OF one(2) _ _ one(3), of m1] Cons.prems one(1) show ?case by simp
qed (simp add: healthy_def)

section \<open>The snapshot\<close>

lemma snapshot_map:
  assumes "schema_ok d"
  shows "seat_map_of (load_snapshot_seats evt [sec] now d) i =
    (case find_seat i d of
       None \<Rightarrow> None
     | Some r \<Rightarrow> if (sr_event_id r, sr_section r) = (evt, sec)
         then Some \<lparr>ss_status = sn_status (snapshot_entry now r), ss_expires = sn_expires (snapshot_entry now r),
           ss_version = sr_version r\<rparr> else None)"
proof -
  let ?seats = "load_snapshot_seats evt [sec] now d"
  have entry: "sn_id (snapshot_entry now r) = sr_id r" "sn_version (snapshot_entry now r) = sr_version r" for r
    by (simp_all add: snapshot_entry_def Let_def)
  have set: "set ?seats = snapshot_entry now ` {r \<in> set (db_seats d). sr_event_id r = evt \<and> sr_section r = sec}"
    by (auto simp: load_snapshot_seats_def)
  show ?thesis
  proof (cases "\<exists>r. find_seat i d = Some r \<and> (sr_event_id r, sr_section r) = (evt, sec)")
    case True
    then obtain r where r: "find_seat i d = Some r" "sr_event_id r = evt" "sr_section r = sec" by auto
    then have "snapshot_entry now r \<in> set ?seats" using set find_seat_SomeD [OF r(1)] by auto
    from seat_map_of_at [OF snapshot_ids [OF assms] this] r find_seat_SomeD [OF r(1)] show ?thesis by (simp add: entry)
  next
    case False
    then have "i \<notin> sn_id ` set ?seats" using assms by (auto simp: set entry find_seat_iff)
    then have "seat_map_of ?seats i = None"
      by (simp add: seat_map_of_def seat_map_of_fold map_of_eq_None_iff image_image)
    with False show ?thesis by (auto split: option.split)
  qed
qed

lemma snapshot_versions:
  "schema_ok d \<Longrightarrow> map_option ss_version (section_map (evt, sec) d i) =
    map_option ss_version (seat_map_of (load_snapshot_seats evt [sec] now d) i)"
  by (simp add: snapshot_map section_map_def row_state_def split: option.split)

text \<open>The socket that opens a section starts with an empty buffer and its snapshot.\<close>

lemma windows_connect:
  assumes "connect True True interim w evt [sec] now d h n = (Some (secs, seats), h1, n1)"
    and "registered (interim h)" "map_of (hb_coalescers (interim h)) (evt, sec) = None"
  shows "registered h1 \<and> seats = load_snapshot_seats evt [sec] now d \<and> windows (evt, sec) w (seat_map_of seats) [] [] h1 (seat_map_of seats)"
proof -
  have h1: "h1 = snd (add_subscriber True (evt, sec) w (interim h))" "seats = load_snapshot_seats evt [sec] now d"
    using assms(1) by (auto simp: connect_def resolve_sections_def Let_def split: prod.splits bool.splits)
  have "map_of (hb_coalescers h1) (evt, sec) = Some new_coalescer"
    using assms(3) unfolding h1(1) by (simp add: add_subscriber_def Let_def update_conv')
  moreover have "w \<in> subscribers_of (evt, sec) h1" unfolding h1(1) by (simp add: subscribers_add)
  ultimately show ?thesis using registered_add [OF assms(2)] h1 by (simp add: windows_def)
qed

text \<open>What a client shows after its windows: the last event of a seat, else its snapshot.\<close>

lemma windows_rendered:
  assumes "windows k w seats evss [] h v" "in_order seats (concat evss)" "seats i = Some y0"
  shows "\<exists>y. v i = Some y \<and> (ss_status y, ss_expires y) =
    (case map_of (rev (concat evss)) i of None \<Rightarrow> (ss_status y0, ss_expires y0) | Some s \<Rightarrow> (ss_status s, ss_expires s))"
proof -
  obtain c0 where c0: "fold window evss (new_coalescer, seats) = (c0, v)" using assms(1) by (rule windowsE)
  have "in_sync c0 v (fanout (concat evss) seats)"
    using in_sync_windows [OF in_sync_new, of seats evss] assms(2) c0 by (simp add: new_coalescer_def)
  from in_sync_rendered [OF this, of i] fanout_at [OF assms(2), of seats i] assms(3) show ?thesis
    by (auto split: option.splits)
qed

text \<open>A client that stays, up to a flush: its windows hold what the worker heard of its section.\<close>

lemma watched_windows:
  assumes "connect True True interim w evt [sec] now d h n = (Some (secs, seats), h1, n1)"
    and "registered (interim h)" "map_of (hb_coalescers (interim h)) (evt, sec) = None"
    and "list_all (readable decode) es" "list_all (keeps_watching (evt, sec) w) es" "ok w"
    and "fold (watch decode (evt, sec) w) (es @ [Flushed ok]) (healthy (h1, n1), seat_map_of seats) = (s, v)"
  shows "seats = load_snapshot_seats evt [sec] now d \<and>
    (\<exists>h' evss. windows (evt, sec) w (seat_map_of seats) evss [] h' v \<and> concat evss = seat_events (heard decode (evt, sec) es))"
proof -
  from windows_connect [OF assms(1-3)] have start: "registered h1" "seats = load_snapshot_seats evt [sec] now d"
    "windows (evt, sec) w (seat_map_of seats) [] [] h1 (seat_map_of seats)" by blast+
  from watch_events [where m = n1, OF start(1) assms(4,5) start(3)] obtain h2 m2 v2 evss cur where
    run: "fold (watch decode (evt, sec) w) es (healthy (h1, n1), seat_map_of seats) = (healthy (h2, m2), v2)" "registered h2"
      "windows (evt, sec) w (seat_map_of seats) evss cur h2 v2" "concat evss @ cur = seat_events (heard decode (evt, sec) es)"
    by auto
  from watch_step [OF run(2) _ _ run(3), of decode "Flushed ok" m2] run assms(6,7) start(2) show ?thesis
    by (auto simp: readable_def seat_events_def)
qed

section \<open>The property\<close>


text \<open>
  The sample run, heard by a client of the sample section with a failed poll and a flush in between.
\<close>

definition sample_listening :: "event list" where
  "sample_listening =
     [Polled (Message (channel_name 1 ''S'') (sample_encode (snd (sample_log ! 0)))), Polled Poll_error,
      Flushed (\<lambda>_. True), Joined True (1, ''S'') 8,
      Polled (Message (channel_name 1 ''S'') (sample_encode (snd (sample_log ! 1))))]"

lemma sample_heard:
  "heard sample_decode (1, ''S'') sample_listening = updates_on (1, ''S'') sample_log"
  "list_all (readable sample_decode) sample_listening" "list_all (keeps_watching (1, ''S'') 7) sample_listening"
  by (simp_all add: sample_listening_def sample_log_def sample_decode_encode parse_channel_name updates_on_def
    channel_of_def readable_def)

definition sample_final :: db where
  "sample_final = fst (snd (serve (\<lambda>_ s. s) 0 sample_run sample_db sample_redis zero_metrics))"

lemma sample_extended:
  "find_seat 2 sample_final = Some (extend_row (100 + seconds 480) 100 (seat_at 2 HELD 1 (Some ''A'') (Some 200) None))"
  by code_simp


section \<open>The gap of a connection\<close>

text \<open>
  Why the run has to follow the connection: \<open>connect\<close> reads the snapshot before it subscribes, and an
  update published in between is dropped by a hub that does not watch the section yet. The connection
  and everything after it are as if the update had never been published, while the snapshot is older.
\<close>

lemma gap_update_is_lost:
  assumes "map_of (hb_coalescers h) (evt, sec) = None"
  shows "connect True True (\<lambda>h. the (deliver (channel_name evt sec, u) h)) w evt [sec] now d h n =
    connect True True id w evt [sec] now d h n"
  using assms by (simp add: connect_def resolve_sections_def deliver_unwatched parse_channel_name)

end
