(* ===== verification/Spec2Isabelle.thy ===== *)
theory Spec2Isabelle
  imports Strategy_Properties Idempotency_Properties Payments_Properties Sweeper_Properties
    Cache_Properties Booking_Properties Hub_Properties Admin_Properties System Purchase
    Demo_Properties Seed Workers App Enforced Recirculation Benchmark_Properties
    Independence Hub_Loop Scenarios Publication Live_Map
begin

text \<open>
  SeatLock: seat reservation with holds, bookings, payments and a live seat map.

  \<^bold>\<open>The program.\<close> A FastAPI process and four background workers share a PostgreSQL database, which
  decides, and a Redis server, which mirrors holds and carries updates. A buyer holds seats
  (\<^verbatim>\<open>POST /api/holds\<close>) through one of three acquisition strategies, creates a PENDING booking over
  them, and confirms it directly or by a payment event that a webhook stores and the payment worker
  applies. The sweeper frees holds that ran out, the reaper decides idempotency keys of requests
  that died, the reconciler repairs the mirror. Every committed change of a seat is published; each
  process's realtime hub coalesces what it receives per section and sends diffs to its web sockets.

  \<^bold>\<open>The model.\<close> Everything the code keeps in PostgreSQL is one record \<open>db\<close> of tables, a table a list
  of rows; Redis is a record \<open>redis\<close> of keys with expiries and of published messages; the counters are
  a function \<open>metrics\<close>. An operation of the code is a function that takes these with its arguments
  and returns its result or the exception that leaves it (\<open>Inl\<close>) with the new values, on every path.
  An operation that rolls back returns the database its transaction started from. What other
  sessions commit where the code leaves room for it (between a read and the write that relies on
  it, during a backoff, before a lock is granted, between two transactions) is a function argument.
  Instants and durations are integers in microseconds, amounts integers in hundredths, Python's
  integers are \<open>int\<close>.

  \<^bold>\<open>Which theory models what.\<close>
  \<^item> \<open>Prelude\<close>, \<open>Text\<close>, \<open>Json_Text\<close>, \<open>Samples\<close>: tables as lists (look-up by key, UPDATE WHERE, row
    count), sequencing of operations that raise, Python's string operations and \<^verbatim>\<open>json.dumps\<close>, and the
    small database the concrete instances run on. Two interfaces are stated here as locales:
    \<open>transition_system\<close> (an inductive invariant) and \<open>batch_job\<close> (a backlog worked off in batches).
  \<^item> \<open>Models\<close>, \<open>Seat_Machine\<close>, \<open>Booking_Machine\<close>, \<open>Invariants\<close>: \<^verbatim>\<open>app/domain/\<close> - dataclasses and their
    validation, \<open>hold\<close>, \<open>confirm\<close>, \<open>expire\<close>, \<open>release\<close>, the booking transitions, the four checks.
  \<^item> \<open>Tables\<close>, \<open>Config\<close>, \<open>Metrics\<close>: \<^verbatim>\<open>app/infra/tables.py\<close>, \<^verbatim>\<open>mappers.py\<close>, \<^verbatim>\<open>config.py\<close>, \<^verbatim>\<open>metrics.py\<close>.
    \<open>schema_ok\<close> is what the constraints of the schema enforce.
  \<^item> \<open>Strategies\<close>, \<open>Strategy_Contract\<close>, \<open>Strategy_Instances\<close>, \<open>Races\<close>, \<open>Strategy_Properties\<close>:
    \<^verbatim>\<open>app/inventory/strategies/\<close>. The contract the routes rely on is the locale \<open>seat_acquisition\<close>; each
    strategy, and the configured one, is an interpretation. \<open>Races\<close> has the row locks of
    \<^verbatim>\<open>SELECT ... FOR UPDATE\<close> as a step relation.
  \<^item> \<open>Booking_Flow\<close>, \<open>Booking_Facts\<close>, \<open>Booking_Properties\<close>: \<^verbatim>\<open>app/booking/\<close>.
  \<^item> \<open>Idempotency\<close>, \<open>Idempotency_Facts\<close>, \<open>Idempotency_Properties\<close>: \<^verbatim>\<open>app/infra/idempotency.py\<close> and
    \<^verbatim>\<open>workers/idempotency_reaper.py\<close>.
  \<^item> \<open>Cache\<close>, \<open>Reconciler\<close>, \<open>Cache_Properties\<close>: \<^verbatim>\<open>app/infra/hold_cache.py\<close>, \<^verbatim>\<open>app/realtime/pubsub.py\<close>,
    \<^verbatim>\<open>workers/reconciler.py\<close>.
  \<^item> \<open>Routes\<close>: \<^verbatim>\<open>app/api/routes/booking.py\<close> and \<^verbatim>\<open>bookings.py\<close>. \<open>App\<close>: \<^verbatim>\<open>app/main.py\<close>, the exception
    handlers and the health report.
  \<^item> \<open>Payments\<close>, \<open>Payments_Facts\<close>, \<open>Payments_Properties\<close>: \<^verbatim>\<open>app/payments/\<close>, \<^verbatim>\<open>app/api/routes/webhooks.py\<close>,
    \<^verbatim>\<open>workers/payment_worker.py\<close>.
  \<^item> \<open>Sweeper\<close>, \<open>Sweeper_Properties\<close>: \<^verbatim>\<open>workers/sweeper.py\<close>. \<open>Workers\<close>: the loops of the four workers.
  \<^item> \<open>Coalescer\<close>, \<open>Hub\<close>, \<open>Hub_Properties\<close>: \<^verbatim>\<open>app/realtime/\<close>, \<^verbatim>\<open>app/api/routes/ws.py\<close> and the version
    check of \<^verbatim>\<open>web/src/realtime/client.ts\<close>. \<open>Hub_Loop\<close>: the two tasks of the hub, what ends them, and the
    lifespan of \<^verbatim>\<open>app/main.py\<close> around them.
  \<^item> \<open>Admin\<close>, \<open>Admin_Properties\<close>: \<^verbatim>\<open>app/api/routes/admin.py\<close>. \<open>Demo\<close>, \<open>Demo_Properties\<close>:
    \<^verbatim>\<open>app/api/routes/demo.py\<close>. \<open>Seed\<close>: \<^verbatim>\<open>scripts/seed.py\<close> and \<^verbatim>\<open>scripts/seed_demo_event.py\<close>.
  \<^item> \<open>Steps\<close>, \<open>System\<close>, \<open>Ledger\<close>: all committing operations as one step relation \<open>system_step\<close>, in which
    what other sessions commit inside a request is again any run of steps; the locale \<open>kept\<close> lists the
    kinds of writes a property of the database has to respect, and its interpretations \<open>sound\<close> (the
    invariants) and \<open>books\<close> (seats against bookings) hold in every reachable database. \<open>Purchase\<close>: hold,
    creation and confirmation through the routes, end to end. \<open>Independence\<close>: runs of all operations under
    any behaviour of Redis. \<open>Publication\<close>: what a run publishes of its writes. \<open>Live_Map\<close>: the run, the hub
    of a worker and a client behind it together.
  \<^item> \<open>Catalog\<close>, \<open>Migrations\<close>, \<open>Migration_Properties\<close>, \<open>Enforced\<close>: \<^verbatim>\<open>migrations/\<close>, and the tables and
    constraints \<^verbatim>\<open>app/infra/tables.py\<close> declares. \<open>Catalog\<close> is the language they are written in: each DDL
    statement with its effect on the catalog, its condition on the rows and its effect on them.
  \<^item> \<open>Recirculation\<close>, \<open>Metrics_Text\<close>, \<open>Benchmarks\<close>, \<open>Benchmark_Properties\<close>: \<^verbatim>\<open>loadtest/\<close> - the overlap check of
    the recirculating sweep, the parsers and the figures. \<open>Chaos\<close>, \<open>Scenarios\<close>:
    \<^verbatim>\<open>loadtest/chaos/harness.py\<close>, \<^verbatim>\<open>run_all.py\<close> and the verdicts of \<^verbatim>\<open>scenarios/\<close>.

  \<^bold>\<open>What is proved.\<close>
  \<^item> Holds and bookings: no strategy but the naive one oversells under any interference; the
    pessimistic one refines an abstract decision and the optimistic one equals it without
    interference; ordered locking never deadlocks; a booking is created exactly over held seats,
    confirmed entirely or not at all, and a seat is booked once. The naive oversell is a theorem too.
  \<^item> The whole program: from a healthy database every interleaving of operations keeps all invariants and
    whatever was sold (batches with refund events aside); with refunds included the BOOKED seats stay
    exactly the seats of the CONFIRMED bookings, and bookings only move forward; free seats can be
    bought, through the three routes one after the other; and Redis never decides anything: all answers and
    the database of a run are the same whatever it does.
  \<^item> Retries and payments: retried requests replay, keys are scoped to users, events are stored and
    take effect once, no event resurrects a refunded booking.
  \<^item> Background work: each pass is characterised exactly, the sweeper starves nobody, the loops end
    exactly if they are stopped, the reconciler repairs every key.
  \<^item> Realtime: coalescing renders what full fanout renders, subscriptions are counted right, the
    snapshot agrees with the booking path, the listener survives every error of Redis and reads all the
    program publishes, and the shutdown is clean exactly if no unreadable message came. Replaying the published
    messages of a section gives its rows, and a client that opened the section before them ends up, after
    the next flush, showing what the database holds, the worker being subscribed all along; the relation between the
    hub and the windows its client has been through is \<open>windows\<close> of \<open>Live_Map\<close>.
  \<^item> Schema: the migrations build what the code declares, name by name; what it declares is what the
    development assumes of a database; and which rows stop a migration.
  \<^item> Measurements: the overlap check finds nothing under the two correct strategies once its tolerance
    covers the latency of a request, and reports overlaps that are none without; the crossover found is
    the first; a chaos run injects and recovers once, and counts every outcome once, which decides the verdicts.
  \<^item> Defects, each as a theorem: a refund or a reset leaves active rows in \<open>booking_seats\<close> behind, which
    blocks the seat for good and can put the payment worker into a crash loop; a confirmation ignores
    whose booking it is; the reconciler revives lapsed holds; late joiners, reordered messages and
    updates published while a client connects; holds published under another event or not at all; two
    ways a web socket is left unserved; one unreadable message silences a worker; verdicts that rest on
    requests made before the fault.

  \<^bold>\<open>Parameters and bounds.\<close> SHA-256, HMAC, the JSON parser (for the hub: the decoding of an update, which
  reads back what the publishers encode), the conversion of a boolean to a BIGINT
  parameter, an INSERT of no rows, the SQLSTATE of a failing statement, the samples of the metrics
  registry and identity values are arguments of the definitions that use them; so are k6's
  figures and recorded requests, the readings of the clocks and the answers to the polls of the harness. Floats of the load tests are exact rationals and a standard deviation is kept as
  its square. No definition uses fuel except the search for the chain of migrations, which is bounded by
  their number: loops over batches and attempts are structural, the spelling of a section label terminates
  by a measure, and the endless loops of the workers are partial functions whose value is \<open>None\<close> if
  they never return. Integer and BIGINT columns are unbounded here, as the ids and versions stay
  far below their limits.

  \<^bold>\<open>Not modelled.\<close> Connection pooling and engine construction, the Prometheus exposition and timing
  histograms, log lines, Alembic's own bookkeeping and offline mode, the web user interface apart from the
  version check, and the processes the load tests and chaos scenarios start and kill with the reports they
  write. \<open>schema_ok\<close> leaves
  out the indexes that only speed up queries; the migrations have them.
\<close>

end
